(* ===== verification/Prelude.thy ===== *)
theory Prelude
  imports Complex_Main "HOL-Library.Word" "HOL-Library.AList" "HOL-Library.Char_ord"
    "HOL-Library.List_Lexorder" "HOL-Library.Product_Lexorder" "HOL-Library.Monad_Syntax"
    "HOL-Library.Sublist" "HOL-Library.Signed_Division" "HOL-Library.Multiset" "HOL-Library.Code_Target_Nat"
begin

text \<open>
  What every theory of the development shares: the machine types of the Rust sources, the
  saturating arithmetic on \<^verbatim>\<open>u64\<close>, the two collections of facts the component proofs are
  driven by, and generic lemmas on lists, options and association lists.

  Conventions. A Rust \<^verbatim>\<open>str\<close>/\<^verbatim>\<open>String\<close> and a \<^verbatim>\<open>[u8]\<close>/\<^verbatim>\<open>Vec<u8>\<close> are both a list of
  bytes; an Isabelle \<^typ>\<open>char\<close> is exactly one byte, so both are \<^typ>\<open>string\<close>, and a
  \<^verbatim>\<open>String\<close> additionally satisfies the UTF-8 predicate of theory \<open>RustStr\<close>. A computation
  that may panic returns an \<open>option\<close>, \<open>None\<close> being the panic; a Rust \<^verbatim>\<open>Result\<close> is a sum whose
  left summand is the error.
\<close>

type_synonym u8 = "8 word"
type_synonym u64 = "64 word"
type_synonym bytes = string

text \<open>
  Evaluation in the kernel: naturals are computed as binary integers (\<open>Code_Target_Nat\<close>), the
  truncation of an integer to 64 bits is a comparison when the integer fits, and the bounds of the
  machine integers are literals.
\<close>

lemma take_bit_int_64_code [code]:
  "take_bit n (k :: int) =
     (if n = 64 then if 0 \<le> k \<and> k < 18446744073709551616 then k else k mod 18446744073709551616
      else k mod 2 ^ n)"
  by (auto simp: take_bit_eq_mod)

lemma power_two_code [code_unfold]:
  "(2 :: nat) ^ 64 = 18446744073709551616" "(2 :: int) ^ 64 = 18446744073709551616"
  "(2 :: int) ^ 63 = 9223372036854775808"
  by simp_all

text \<open>Facts about the standard-library model that are safe simplification rules.\<close>

named_theorems std_simps

text \<open>Definitions of the model that a proof about one operation unfolds.\<close>

named_theorems model_defs

section \<open>Saturating arithmetic on u64\<close>

definition sat_add :: "u64 \<Rightarrow> u64 \<Rightarrow> u64" where
  "sat_add a b = (if unat a + unat b < 2 ^ 64 then a + b else - 1)"

definition sat_mul :: "u64 \<Rightarrow> u64 \<Rightarrow> u64" where
  "sat_mul a b = (if unat a * unat b < 2 ^ 64 then a * b else - 1)"

definition sat_sub :: "u64 \<Rightarrow> u64 \<Rightarrow> u64" where
  "sat_sub a b = (if b \<le> a then a - b else 0)"

definition abs_diff :: "u64 \<Rightarrow> u64 \<Rightarrow> u64" where
  "abs_diff a b = (if a < b then b - a else a - b)"

lemma unat_sat_add: "unat (sat_add a b) = min (unat a + unat b) (2 ^ 64 - 1)"
  by (auto simp: sat_add_def unat_word_ariths unsigned_minus_1_eq_mask mask_eq_exp_minus_1)

lemma unat_sat_mul: "unat (sat_mul a b) = min (unat a * unat b) (2 ^ 64 - 1)"
  by (auto simp: sat_mul_def unat_word_ariths unsigned_minus_1_eq_mask mask_eq_exp_minus_1)

lemma unat_sat_sub: "unat (sat_sub a b) = unat a - unat b"
  by (auto simp: sat_sub_def unat_sub word_le_nat_alt)

lemma unat_abs_diff: "unat (abs_diff a b) = (if unat a < unat b then unat b - unat a else unat a - unat b)"
  by (auto simp: abs_diff_def unat_sub word_le_nat_alt word_less_nat_alt)

lemma sat_add_ge: "a \<le> sat_add a b"
  using unsigned_less [of a, where 'a = nat] by (simp add: word_le_nat_alt unat_sat_add)

section \<open>Lists and options\<close>

lemma map_option_Some_iff: "map_option f x = Some y \<longleftrightarrow> (\<exists>z. x = Some z \<and> y = f z)"
  by (cases x) auto

lemma bind_Some_iff: "Option.bind x f = Some y \<longleftrightarrow> (\<exists>z. x = Some z \<and> f z = Some y)"
  by (cases x) auto

lemma bind_None_iff: "Option.bind x f = None \<longleftrightarrow> (x = None \<or> (\<exists>z. x = Some z \<and> f z = None))"
  by (cases x) auto

lemmas option_iffs = map_option_Some_iff bind_Some_iff bind_None_iff

text \<open>\<^verbatim>\<open>Iterator::find\<close>: the first element that satisfies the predicate.\<close>

lemma find_SomeD: "List.find P xs = Some x \<Longrightarrow> x \<in> set xs \<and> P x"
  by (induction xs) (auto split: if_splits)

lemma find_None_conv: "List.find P xs = None \<longleftrightarrow> (\<forall>x \<in> set xs. \<not> P x)"
  by (induction xs) auto

lemma find_prefix:
  "List.find P xs = Some x \<longleftrightarrow> (\<exists>ys zs. xs = ys @ x # zs \<and> P x \<and> (\<forall>y \<in> set ys. \<not> P y))"
proof
  assume "List.find P xs = Some x"
  then show "\<exists>ys zs. xs = ys @ x # zs \<and> P x \<and> (\<forall>y \<in> set ys. \<not> P y)"
  proof (induction xs)
    case (Cons a xs)
    show ?case
    proof (cases "P a")
      case True
      with Cons.prems have "a # xs = [] @ x # xs \<and> P x \<and> (\<forall>y \<in> set []. \<not> P y)" by simp
      then show ?thesis by blast
    next
      case False
      with Cons obtain ys zs where "xs = ys @ x # zs \<and> P x \<and> (\<forall>y \<in> set ys. \<not> P y)" by auto
      with False have "a # xs = (a # ys) @ x # zs \<and> P x \<and> (\<forall>y \<in> set (a # ys). \<not> P y)"
        by simp
      then show ?thesis by blast
    qed
  qed simp
next
  assume "\<exists>ys zs. xs = ys @ x # zs \<and> P x \<and> (\<forall>y \<in> set ys. \<not> P y)"
  then obtain ys zs where "xs = ys @ x # zs" "P x" "\<forall>y \<in> set ys. \<not> P y" by blast
  then show "List.find P xs = Some x" by (induction ys arbitrary: xs) auto
qed

text \<open>Collect over a list with the first panic (\<open>None\<close>) winning.\<close>

fun map_panic :: "('a \<Rightarrow> 'b option) \<Rightarrow> 'a list \<Rightarrow> 'b list option" where
  "map_panic f [] = Some []"
| "map_panic f (x # xs) = do { y \<leftarrow> f x; ys \<leftarrow> map_panic f xs; Some (y # ys) }"

lemma map_panic_Some_iff: "map_panic f xs = Some ys \<longleftrightarrow> map f xs = map Some ys"
  by (induction xs arbitrary: ys) (auto simp: option_iffs Cons_eq_map_conv)

lemma map_panic_None_iff: "map_panic f xs = None \<longleftrightarrow> (\<exists>x \<in> set xs. f x = None)"
  by (induction xs) (auto simp: option_iffs)

lemma map_panic_total: "(\<And>x. x \<in> set xs \<Longrightarrow> f x = Some (g x)) \<Longrightarrow> map_panic f xs = Some (map g xs)"
  by (simp add: map_panic_Some_iff)

lemma map_panic_alt:
  "map_panic f xs = (if \<forall>x \<in> set xs. f x \<noteq> None then Some (map (the \<circ> f) xs) else None)"
  by (induction xs) (auto simp: option_iffs)

text \<open>Sorting forgets the order of its argument.\<close>

lemma sort_map_mset:
  assumes "mset xs = mset ys"
  shows "sort (map f xs) = sort (map f ys)"
  using assms by (intro properties_for_sort) (simp_all add: mset_map)

lemma dropWhile_hd: "xs \<noteq> [] \<Longrightarrow> \<not> P (hd xs) \<Longrightarrow> dropWhile P xs = xs"
  by (cases xs) auto

section \<open>First match\<close>

text \<open>
  A scan that returns the first hit of a list: the contract shared by the rule engine and by
  the service router.
\<close>

locale first_match =
  fixes pick :: "'r list \<Rightarrow> 'r option"
    and hit :: "'r \<Rightarrow> bool"
  assumes pick_Nil: "pick [] = None"
    and pick_Cons: "pick (r # rs) = (if hit r then Some r else pick rs)"
begin

lemma pick_find: "pick rs = List.find hit rs"
  by (induction rs) (auto simp: pick_Nil pick_Cons)

lemma pick_None: "pick rs = None \<longleftrightarrow> (\<forall>r \<in> set rs. \<not> hit r)"
  by (simp add: pick_find find_None_conv)

lemma pick_Some:
  "pick rs = Some r \<longleftrightarrow> (\<exists>before after. rs = before @ r # after \<and> hit r \<and> (\<forall>q \<in> set before. \<not> hit q))"
  by (simp add: pick_find find_prefix)

lemma pick_append: "pick (rs @ qs) = (case pick rs of None \<Rightarrow> pick qs | Some r \<Rightarrow> Some r)"
  by (induction rs) (auto simp: pick_Nil pick_Cons)

text \<open>Dropping entries that do not match never changes the choice.\<close>

lemma pick_filter: "pick (filter P rs) = pick rs" if "\<And>r. hit r \<Longrightarrow> P r"
  using that by (induction rs) (auto simp: pick_Nil pick_Cons)

end

end
