(* ===== verification/RustStr.thy ===== *)
theory RustStr
  imports Prelude
begin

text \<open>
  The part of Rust's standard library that the sources use on text: splitting, joining,
  stripping and trimming of \<^verbatim>\<open>str\<close>, ASCII case folding, UTF-8 validity and
  \<^verbatim>\<open>String::from_utf8_lossy\<close>, slicing with its character-boundary check, and number
  formatting and parsing. A \<^verbatim>\<open>str\<close> is its list of bytes, so a split on an ASCII character is a
  split on a byte. Every operation is total and executable.
\<close>

section \<open>Bytes\<close>

abbreviation byte :: "char \<Rightarrow> nat" where
  "byte c \<equiv> of_char c"

definition chr :: "nat \<Rightarrow> char" where
  "chr n = char_of n"

lemma byte_less [simp]: "byte c < 256"
  by (rule nat_of_char_less_256)

lemma byte_chr [simp]: "n < 256 \<Longrightarrow> byte (chr n) = n"
  by (simp add: chr_def)

lemma chr_byte [simp]: "chr (byte c) = c"
  by (simp add: chr_def)

lemma byte_eq_iff: "byte c = byte d \<longleftrightarrow> c = d"
  by simp

text \<open>An ASCII byte; a string of them is ASCII.\<close>

definition ascii :: "string \<Rightarrow> bool" where
  "ascii s \<longleftrightarrow> list_all (\<lambda>c. byte c < 128) s"

lemma ascii_simps [simp]:
  "ascii []"
  "ascii (c # s) \<longleftrightarrow> byte c < 128 \<and> ascii s"
  "ascii (s @ t) \<longleftrightarrow> ascii s \<and> ascii t"
  by (auto simp: ascii_def)

section \<open>Splitting and joining\<close>

text \<open>\<^verbatim>\<open>str::split(char)\<close>: never empty, and the empty string has one empty piece.\<close>

fun split_on :: "char \<Rightarrow> string \<Rightarrow> string list" where
  "split_on d [] = [[]]"
| "split_on d (c # s) =
     (if c = d then [] # split_on d s
      else (case split_on d s of [] \<Rightarrow> [[c]] | p # ps \<Rightarrow> (c # p) # ps))"

text \<open>\<^verbatim>\<open>[S]::join(sep)\<close>.\<close>

fun join :: "string \<Rightarrow> string list \<Rightarrow> string" where
  "join sep [] = []"
| "join sep [p] = p"
| "join sep (p # q # ps) = p @ sep @ join sep (q # ps)"

text \<open>\<^verbatim>\<open>str::split_once(char)\<close> and \<^verbatim>\<open>str::rsplit_once(char)\<close>.\<close>

fun split_once :: "char \<Rightarrow> string \<Rightarrow> (string \<times> string) option" where
  "split_once d [] = None"
| "split_once d (c # s) =
     (if c = d then Some ([], s)
      else map_option (\<lambda>(a, b). (c # a, b)) (split_once d s))"

definition rsplit_once :: "char \<Rightarrow> string \<Rightarrow> (string \<times> string) option" where
  "rsplit_once d s = map_option (\<lambda>(a, b). (rev b, rev a)) (split_once d (rev s))"

text \<open>\<^verbatim>\<open>str::splitn(n, char)\<close>: at most \<open>n\<close> pieces, the last one being the rest.\<close>

fun splitn :: "nat \<Rightarrow> char \<Rightarrow> string \<Rightarrow> string list" where
  "splitn 0 d s = []"
| "splitn (Suc 0) d s = [s]"
| "splitn (Suc (Suc n)) d s =
     (case split_once d s of None \<Rightarrow> [s] | Some (a, b) \<Rightarrow> a # splitn (Suc n) d b)"

text \<open>\<^verbatim>\<open>str::strip_prefix\<close>, \<^verbatim>\<open>strip_suffix\<close>, \<^verbatim>\<open>starts_with\<close>, \<^verbatim>\<open>ends_with\<close>.\<close>

definition strip_prefix :: "string \<Rightarrow> string \<Rightarrow> string option" where
  "strip_prefix p s = (if take (length p) s = p then Some (drop (length p) s) else None)"

definition strip_suffix :: "string \<Rightarrow> string \<Rightarrow> string option" where
  "strip_suffix p s = map_option rev (strip_prefix (rev p) (rev s))"

definition starts_with :: "string \<Rightarrow> string \<Rightarrow> bool" where
  "starts_with p s \<longleftrightarrow> take (length p) s = p"

text \<open>The recursion that evaluates it.\<close>

lemma starts_with_code [code]:
  "starts_with [] s = True"
  "starts_with (a # p) [] = False"
  "starts_with (a # p) (c # s) = (if a = c then starts_with p s else False)"
  by (auto simp: starts_with_def)

definition ends_with :: "string \<Rightarrow> string \<Rightarrow> bool" where
  "ends_with p s \<longleftrightarrow> starts_with (rev p) (rev s)"

text \<open>\<^verbatim>\<open>str::find(&str)\<close>: the byte index of the first occurrence, and \<^verbatim>\<open>split_once(&str)\<close>.\<close>

fun find_sub :: "string \<Rightarrow> string \<Rightarrow> nat option" where
  "find_sub p [] = (if p = [] then Some 0 else None)"
| "find_sub p (c # s) = (if starts_with p (c # s) then Some 0 else map_option Suc (find_sub p s))"

definition split_once_str :: "string \<Rightarrow> string \<Rightarrow> (string \<times> string) option" where
  "split_once_str p s = map_option (\<lambda>i. (take i s, drop (i + length p) s)) (find_sub p s)"

text \<open>\<^verbatim>\<open>trim_start_matches(char)\<close> and \<^verbatim>\<open>trim_end_matches(char)\<close>.\<close>

definition trim_start_matches :: "char \<Rightarrow> string \<Rightarrow> string" where
  "trim_start_matches d s = dropWhile ((=) d) s"

definition trim_end_matches :: "char \<Rightarrow> string \<Rightarrow> string" where
  "trim_end_matches d s = rev (dropWhile ((=) d) (rev s))"

section \<open>ASCII case\<close>

definition to_lower :: "char \<Rightarrow> char" where
  "to_lower c = (if 65 \<le> byte c \<and> byte c \<le> 90 then chr (byte c + 32) else c)"

definition to_upper :: "char \<Rightarrow> char" where
  "to_upper c = (if 97 \<le> byte c \<and> byte c \<le> 122 then chr (byte c - 32) else c)"

definition to_ascii_lowercase :: "string \<Rightarrow> string" where
  "to_ascii_lowercase s = map to_lower s"

definition to_ascii_uppercase :: "string \<Rightarrow> string" where
  "to_ascii_uppercase s = map to_upper s"

definition eq_ignore_ascii_case :: "string \<Rightarrow> string \<Rightarrow> bool" where
  "eq_ignore_ascii_case s t \<longleftrightarrow> to_ascii_lowercase s = to_ascii_lowercase t"

section \<open>Trimming white space\<close>

text \<open>
  \<^verbatim>\<open>str::trim\<close> drops characters with the Unicode property White\_Space. The number of bytes of
  the white-space character a string starts with (0 if it starts with none), and the same for
  a reversed string.
\<close>

definition ascii_ws :: "char \<Rightarrow> bool" where
  "ascii_ws c \<longleftrightarrow> byte c = 32 \<or> 9 \<le> byte c \<and> byte c \<le> 13"

definition ws3 :: "char \<Rightarrow> char \<Rightarrow> char \<Rightarrow> bool" where
  "ws3 a b c \<longleftrightarrow>
     byte a = 225 \<and> byte b = 154 \<and> byte c = 128 \<or>
     byte a = 226 \<and> byte b = 128 \<and> (128 \<le> byte c \<and> byte c \<le> 138 \<or> byte c \<in> {168, 169, 175}) \<or>
     byte a = 226 \<and> byte b = 129 \<and> byte c = 159 \<or>
     byte a = 227 \<and> byte b = 128 \<and> byte c = 128"

definition ws2 :: "char \<Rightarrow> char \<Rightarrow> bool" where
  "ws2 a b \<longleftrightarrow> byte a = 194 \<and> byte b \<in> {133, 160}"

fun ws_len :: "string \<Rightarrow> nat" where
  "ws_len [] = 0"
| "ws_len (a # s) =
     (if ascii_ws a then 1
      else case s of
        [] \<Rightarrow> 0
      | b # s' \<Rightarrow> if ws2 a b then 2 else (case s' of [] \<Rightarrow> 0 | c # _ \<Rightarrow> if ws3 a b c then 3 else 0))"

fun ws_len_rev :: "string \<Rightarrow> nat" where
  "ws_len_rev [] = 0"
| "ws_len_rev (c # s) =
     (if ascii_ws c then 1
      else case s of
        [] \<Rightarrow> 0
      | b # s' \<Rightarrow> if ws2 b c then 2 else (case s' of [] \<Rightarrow> 0 | a # _ \<Rightarrow> if ws3 a b c then 3 else 0))"

lemma ws_len_le: "ws_len s \<le> length s"
  by (cases s) (auto split: list.splits)

lemma ws_len_rev_le: "ws_len_rev s \<le> length s"
  by (cases s) (auto split: list.splits)

function trim_start :: "string \<Rightarrow> string" where
  "trim_start s = (if ws_len s = 0 then s else trim_start (drop (ws_len s) s))"
  by pat_completeness auto
termination
proof (relation "measure length")
  fix s :: string
  assume "ws_len s \<noteq> 0"
  then show "(drop (ws_len s) s, s) \<in> measure length"
    using ws_len_le [of s] by simp
qed simp

function trim_rev :: "string \<Rightarrow> string" where
  "trim_rev s = (if ws_len_rev s = 0 then s else trim_rev (drop (ws_len_rev s) s))"
  by pat_completeness auto
termination
proof (relation "measure length")
  fix s :: string
  assume "ws_len_rev s \<noteq> 0"
  then show "(drop (ws_len_rev s) s, s) \<in> measure length"
    using ws_len_rev_le [of s] by simp
qed simp

declare trim_start.simps [simp del] trim_rev.simps [simp del]

definition trim_end :: "string \<Rightarrow> string" where
  "trim_end s = rev (trim_rev (rev s))"

definition trim :: "string \<Rightarrow> string" where
  "trim s = trim_end (trim_start s)"

section \<open>Lines\<close>

text \<open>\<^verbatim>\<open>str::lines\<close>: pieces ended by a line feed, without it and one carriage return before it.\<close>

definition strip_cr :: "string \<Rightarrow> string" where
  "strip_cr s = (case strip_suffix [chr 13] s of Some t \<Rightarrow> t | None \<Rightarrow> s)"

definition lines :: "string \<Rightarrow> string list" where
  "lines s =
     (let ps = split_on (chr 10) s in
      map strip_cr (butlast ps) @ (if last ps = [] then [] else [last ps]))"

section \<open>UTF-8\<close>

definition is_cont :: "nat \<Rightarrow> bool" where
  "is_cont b \<longleftrightarrow> 128 \<le> b \<and> b < 192"

text \<open>The byte at an index, 0 past the end.\<close>

definition safe_get :: "string \<Rightarrow> nat \<Rightarrow> nat" where
  "safe_get s i = (if i < length s then byte (s ! i) else 0)"

definition second3 :: "nat \<Rightarrow> nat \<Rightarrow> bool" where
  "second3 b x \<longleftrightarrow>
     (if b = 224 then 160 \<le> x \<and> x \<le> 191 else if b = 237 then 128 \<le> x \<and> x \<le> 159
      else 128 \<le> x \<and> x \<le> 191)"

definition second4 :: "nat \<Rightarrow> nat \<Rightarrow> bool" where
  "second4 b x \<longleftrightarrow>
     (if b = 240 then 144 \<le> x \<and> x \<le> 191 else if b = 244 then 128 \<le> x \<and> x \<le> 143
      else 128 \<le> x \<and> x \<le> 191)"

text \<open>
  The first encoded character of a byte string, read as the standard library's chunk iterator
  reads it: whether it is a whole character, and how many bytes it (or the maximal ill-formed
  part) takes.
\<close>

fun utf8_seq :: "string \<Rightarrow> bool \<times> nat" where
  "utf8_seq [] = (True, 0)"
| "utf8_seq (c # s) =
     (let b = byte c; x = safe_get s 0; y = safe_get s 1; z = safe_get s 2 in
      if b < 128 then (True, 1)
      else if 194 \<le> b \<and> b \<le> 223 then (if is_cont x then (True, 2) else (False, 1))
      else if 224 \<le> b \<and> b \<le> 239 then
        (if second3 b x then (if is_cont y then (True, 3) else (False, 2)) else (False, 1))
      else if 240 \<le> b \<and> b \<le> 244 then
        (if second4 b x then
           (if is_cont y then (if is_cont z then (True, 4) else (False, 3)) else (False, 2))
         else (False, 1))
      else (False, 1))"

lemma utf8_seq_pos: "s \<noteq> [] \<Longrightarrow> 0 < snd (utf8_seq s)"
  by (cases s) (auto simp: Let_def)

function utf8 :: "string \<Rightarrow> bool" where
  "utf8 s =
     (if s = [] then True
      else if fst (utf8_seq s) then utf8 (drop (snd (utf8_seq s)) s) else False)"
  by pat_completeness auto
termination
  by (relation "measure length") (auto simp: utf8_seq_pos intro: diff_less)

text \<open>U+FFFD, the replacement character.\<close>

definition replacement :: string where
  "replacement = [chr 239, chr 191, chr 189]"

function from_utf8_lossy :: "bytes \<Rightarrow> string" where
  "from_utf8_lossy s =
     (if s = [] then []
      else (if fst (utf8_seq s) then take (snd (utf8_seq s)) s else replacement)
        @ from_utf8_lossy (drop (snd (utf8_seq s)) s))"
  by pat_completeness auto
termination
  by (relation "measure length") (auto simp: utf8_seq_pos intro: diff_less)

declare utf8.simps [simp del] from_utf8_lossy.simps [simp del]

text \<open>\<^verbatim>\<open>std::str::from_utf8\<close>.\<close>

definition from_utf8 :: "bytes \<Rightarrow> string option" where
  "from_utf8 s = (if utf8 s then Some s else None)"

text \<open>\<^verbatim>\<open>str::is_char_boundary\<close>, and the slices that panic or return \<^verbatim>\<open>None\<close> off a boundary.\<close>

definition is_char_boundary :: "string \<Rightarrow> nat \<Rightarrow> bool" where
  "is_char_boundary s i \<longleftrightarrow> i = 0 \<or> i = length s \<or> i < length s \<and> \<not> is_cont (byte (s ! i))"

definition str_get :: "string \<Rightarrow> nat \<Rightarrow> nat \<Rightarrow> string option" where
  "str_get s a z =
     (if a \<le> z \<and> is_char_boundary s a \<and> is_char_boundary s z then Some (take (z - a) (drop a s))
      else None)"

section \<open>Numbers as text\<close>

definition hex_upper :: "nat \<Rightarrow> char" where
  "hex_upper n = (if n < 10 then chr (48 + n) else chr (55 + n))"

definition hex_lower :: "nat \<Rightarrow> char" where
  "hex_lower n = (if n < 10 then chr (48 + n) else chr (87 + n))"

text \<open>\<^verbatim>\<open>{b:02X}\<close> and \<^verbatim>\<open>{b:02x}\<close> of a byte.\<close>

definition fmt_02X :: "char \<Rightarrow> string" where
  "fmt_02X c = [hex_upper (byte c div 16), hex_upper (byte c mod 16)]"

definition fmt_02x :: "char \<Rightarrow> string" where
  "fmt_02x c = [hex_lower (byte c div 16), hex_lower (byte c mod 16)]"

text \<open>\<^verbatim>\<open>char::to_digit(16)\<close>, and \<^verbatim>\<open>u8::from_str_radix(s, 16)\<close> on a two-byte slice: a leading plus
  sign is accepted.\<close>

definition hex_val :: "char \<Rightarrow> nat option" where
  "hex_val c =
     (let b = byte c in
      if 48 \<le> b \<and> b \<le> 57 then Some (b - 48)
      else if 97 \<le> b \<and> b \<le> 102 then Some (b - 87)
      else if 65 \<le> b \<and> b \<le> 70 then Some (b - 55)
      else None)"

definition from_hex2 :: "char \<Rightarrow> char \<Rightarrow> char option" where
  "from_hex2 a b =
     (if a = CHR ''+'' then map_option chr (hex_val b)
      else do { h \<leftarrow> hex_val a; l \<leftarrow> hex_val b; Some (chr (16 * h + l)) })"

text \<open>Decimal numerals: \<^verbatim>\<open>Display\<close> of an integer, zero padded with \<^verbatim>\<open>{:0w}\<close>.\<close>

fun dec :: "nat \<Rightarrow> string" where
  "dec n = (if n < 10 then [chr (48 + n)] else dec (n div 10) @ [chr (48 + n mod 10)])"

declare dec.simps [simp del]

text \<open>The recursion that evaluates it, over integers.\<close>

function dec_digits :: "int \<Rightarrow> string \<Rightarrow> string" where
  "dec_digits n acc = (if n < 10 then ''0123456789'' ! nat n # acc else dec_digits (n div 10) (''0123456789'' ! nat (n mod 10) # acc))"
  by pat_completeness auto
termination by (relation "measure (\<lambda>(n, _). nat n)") auto

declare dec_digits.simps [simp del]

lemma digit_nth:
  assumes "n < 10"
  shows "''0123456789'' ! n = chr (48 + n)"
proof -
  from assms have "n \<in> {0, 1, 2, 3, 4, 5, 6, 7, 8, 9}" by auto
  moreover have "''0123456789'' = map chr [48, 49, 50, 51, 52, 53, 54, 55, 56, 57]" by code_simp
  ultimately show ?thesis by auto
qed

lemma dec_digits_dec: "dec_digits (int n) acc = dec n @ acc"
proof (induction n arbitrary: acc rule: dec.induct)
  case (1 n)
  have "int n mod 10 = int (n mod 10)" "int n div 10 = int (n div 10)" by (simp_all add: zmod_int zdiv_int)
  with 1 show ?case by (subst dec_digits.simps, subst dec.simps) (simp add: digit_nth)
qed

lemma dec_code [code]: "dec n = dec_digits (int n) []"
  by (simp add: dec_digits_dec)

definition pad0 :: "nat \<Rightarrow> string \<Rightarrow> string" where
  "pad0 w s = replicate (w - length s) (CHR ''0'') @ s"

definition fmt_0 :: "nat \<Rightarrow> int \<Rightarrow> string" where
  "fmt_0 w i =
     (if i < 0 then CHR ''-'' # pad0 (w - 1) (dec (nat (- i))) else pad0 w (dec (nat i)))"

text \<open>\<^verbatim>\<open>str::parse\<close> to an unsigned or signed integer of the given range.\<close>

definition dec_val :: "char \<Rightarrow> nat option" where
  "dec_val c = (if 48 \<le> byte c \<and> byte c \<le> 57 then Some (byte c - 48) else None)"

fun digits_val :: "nat \<Rightarrow> string \<Rightarrow> nat option" where
  "digits_val a [] = Some a"
| "digits_val a (c # s) = do { d \<leftarrow> dec_val c; digits_val (10 * a + d) s }"

definition parse_nat :: "string \<Rightarrow> nat option" where
  "parse_nat s = (if s = [] then None else digits_val 0 s)"

definition parse_unsigned :: "nat \<Rightarrow> string \<Rightarrow> nat option" where
  "parse_unsigned bits s =
     (case parse_nat (case s of [] \<Rightarrow> [] | c # t \<Rightarrow> if c = CHR ''+'' then t else s) of
        None \<Rightarrow> None
      | Some n \<Rightarrow> if n < 2 ^ bits then Some n else None)"

definition parse_i64 :: "string \<Rightarrow> int option" where
  "parse_i64 s =
     (case s of
        [] \<Rightarrow> None
      | c # t \<Rightarrow>
          (case parse_nat (if c = CHR ''+'' \<or> c = CHR ''-'' then t else s) of
             None \<Rightarrow> None
           | Some n \<Rightarrow>
               let i = (if c = CHR ''-'' then - int n else int n) in
               if - (2 ^ 63) \<le> i \<and> i < 2 ^ 63 then Some i else None))"

section \<open>Lemmas: splitting and joining\<close>

lemma split_on_not_Nil [simp]: "split_on d s \<noteq> []"
  by (cases s) (auto split: list.splits)

lemma split_on_Cons_neq:
  "c \<noteq> d \<Longrightarrow> split_on d (c # s) = (c # hd (split_on d s)) # tl (split_on d s)"
  by (auto split: list.splits)

lemma join_Cons: "ps \<noteq> [] \<Longrightarrow> join sep (p # ps) = p @ sep @ join sep ps"
  by (cases ps) auto

lemma join_split [simp]: "join [d] (split_on d s) = s"
proof (induction s)
  case (Cons c s)
  show ?case
  proof (cases "c = d")
    case False
    obtain p ps where ps: "split_on d s = p # ps" by (cases "split_on d s") auto
    with Cons False show ?thesis by (cases ps) auto
  qed (simp add: Cons join_Cons)
qed simp

lemma split_on_no_sep: "p \<in> set (split_on d s) \<Longrightarrow> d \<notin> set p"
  by (induction s arbitrary: p) (auto split: list.splits if_splits)

lemma split_on_noop: "d \<notin> set s \<Longrightarrow> split_on d s = [s]"
  by (induction s) auto

lemma split_on_append:
  "d \<notin> set p \<Longrightarrow> split_on d (p @ d # s) = p # split_on d s"
  by (induction p) auto

lemma split_on_append_gen:
  "split_on d (s @ d # t) = split_on d s @ split_on d t"
  by (induction s) (auto split: list.splits)

lemma split_join:
  "ps \<noteq> [] \<Longrightarrow> (\<And>p. p \<in> set ps \<Longrightarrow> d \<notin> set p) \<Longrightarrow> split_on d (join [d] ps) = ps"
  by (induction "[d]" ps rule: join.induct) (auto simp: split_on_noop split_on_append)

lemma join_inj:
  assumes "ps \<noteq> []" "qs \<noteq> []" "\<And>p. p \<in> set ps \<Longrightarrow> d \<notin> set p" "\<And>q. q \<in> set qs \<Longrightarrow> d \<notin> set q"
    and "join [d] ps = join [d] qs"
  shows "ps = qs"
  using split_join [of ps d] split_join [of qs d] assms by metis

lemma set_join: "set (join sep ps) \<subseteq> set sep \<union> (\<Union>p \<in> set ps. set p)"
  by (induction sep ps rule: join.induct) auto

lemma split_on_subset: "p \<in> set (split_on d s) \<Longrightarrow> set p \<subseteq> set s"
  by (induction s arbitrary: p) (fastforce split: list.splits if_splits)+

lemma split_once_None_iff: "split_once d s = None \<longleftrightarrow> d \<notin> set s"
  by (induction s) auto

lemma split_once_Some_iff:
  "split_once d s = Some (a, b) \<longleftrightarrow> s = a @ d # b \<and> d \<notin> set a"
proof (induction s arbitrary: a)
  case (Cons c s)
  show ?case
    by (cases a) (auto simp: map_option_Some_iff Cons.IH split_once_None_iff)
qed simp

lemma split_once_app [simp]: "d \<notin> set a \<Longrightarrow> split_once d (a @ d # b) = Some (a, b)"
  by (simp add: split_once_Some_iff)

lemma rsplit_once_Some_iff:
  "rsplit_once d s = Some (a, b) \<longleftrightarrow> s = a @ d # b \<and> d \<notin> set b"
proof -
  have "rsplit_once d s = Some (a, b) \<longleftrightarrow> split_once d (rev s) = Some (rev b, rev a)"
    by (auto simp: rsplit_once_def map_option_Some_iff)
  also have "\<dots> \<longleftrightarrow> rev s = rev b @ d # rev a \<and> d \<notin> set b"
    by (simp add: split_once_Some_iff)
  also have "rev s = rev b @ d # rev a \<longleftrightarrow> s = a @ d # b"
    by (metis append.assoc append_Cons append_Nil rev_append rev_rev_ident rev.simps(2))
  finally show ?thesis .
qed

lemma rsplit_once_None_iff: "rsplit_once d s = None \<longleftrightarrow> d \<notin> set s"
  by (simp add: rsplit_once_def split_once_None_iff)

lemma strip_prefix_Some_iff: "strip_prefix p s = Some r \<longleftrightarrow> s = p @ r"
  by (auto simp: strip_prefix_def) (metis append_take_drop_id)

lemma strip_prefix_None_iff: "strip_prefix p s = None \<longleftrightarrow> (\<nexists>r. s = p @ r)"
  by (metis strip_prefix_Some_iff not_Some_eq)

lemma strip_prefix_app [simp]: "strip_prefix p (p @ r) = Some r"
  by (simp add: strip_prefix_Some_iff)

lemma strip_suffix_Some_iff: "strip_suffix p s = Some r \<longleftrightarrow> s = r @ p"
  by (auto simp: strip_suffix_def map_option_Some_iff strip_prefix_Some_iff)
    (metis rev_append rev_rev_ident)

lemma starts_with_iff: "starts_with p s \<longleftrightarrow> (\<exists>r. s = p @ r)"
  by (auto simp: starts_with_def) (metis append_take_drop_id)

lemma ends_with_iff: "ends_with p s \<longleftrightarrow> (\<exists>r. s = r @ p)"
  by (auto simp: ends_with_def starts_with_iff) (metis rev_append rev_rev_ident)

section \<open>Lemmas: ASCII case\<close>

lemma to_lower_idem [simp]: "to_lower (to_lower c) = to_lower c"
  by (auto simp: to_lower_def)

lemma to_ascii_lowercase_idem [simp]: "to_ascii_lowercase (to_ascii_lowercase s) = to_ascii_lowercase s"
  by (simp add: to_ascii_lowercase_def)

lemma to_ascii_lowercase_append [simp]:
  "to_ascii_lowercase (s @ t) = to_ascii_lowercase s @ to_ascii_lowercase t"
  by (simp add: to_ascii_lowercase_def)

lemma to_ascii_lowercase_Nil [simp]: "to_ascii_lowercase s = [] \<longleftrightarrow> s = []"
  by (simp add: to_ascii_lowercase_def)

section \<open>Lemmas: lines\<close>

lemma lines_append:
  assumes "chr 10 \<notin> set l"
  shows "lines (l @ [chr 10] @ s) = strip_cr l # lines s"
proof -
  have "split_on (chr 10) (l @ [chr 10] @ s) = l # split_on (chr 10) s"
    using split_on_append [OF assms, of s] by simp
  then show ?thesis by (simp add: lines_def Let_def)
qed

lemma lines_Nil [simp]: "lines [] = []"
  by (simp add: lines_def)

end
