(* ===== verification/Utf8.thy ===== *)
theory Utf8
  imports RustStr
begin

text \<open>
  Lemmas on the UTF-8 and white-space part of the standard-library model: the lossy decoder
  always yields valid UTF-8 and is the identity on valid UTF-8, valid strings concatenate,
  ASCII strings are valid, and \<^verbatim>\<open>trim\<close> on ASCII text is the removal of ASCII white space.
\<close>

section \<open>UTF-8\<close>

lemma safe_get_simps [simp]:
  "safe_get [] i = 0"
  "safe_get (c # s) 0 = byte c"
  "safe_get (c # s) (Suc i) = safe_get s i"
  by (simp_all add: safe_get_def)

lemma safe_get_numeral [simp]: "safe_get (c # s) (numeral n) = safe_get s (pred_numeral n)"
  by (simp add: numeral_eq_Suc)

lemma safe_get_pos: "0 < safe_get s i \<Longrightarrow> i < length s"
  by (simp add: safe_get_def split: if_splits)

lemma second_pos: "second3 b x \<Longrightarrow> 0 < x" "second4 b x \<Longrightarrow> 0 < x" "is_cont x \<Longrightarrow> 0 < x"
  by (auto simp: second3_def second4_def is_cont_def split: if_splits)

lemma utf8_seq_le: "snd (utf8_seq s) \<le> length s"
proof (cases s)
  case (Cons c t)
  have "is_cont (safe_get t i) \<Longrightarrow> i < length t" for i
    using second_pos(3) safe_get_pos by blast
  moreover have "second3 b (safe_get t i) \<Longrightarrow> i < length t" for b i
    using second_pos(1) safe_get_pos by blast
  moreover have "second4 b (safe_get t i) \<Longrightarrow> i < length t" for b i
    using second_pos(2) safe_get_pos by blast
  ultimately show ?thesis
    by (auto simp: Cons Let_def Suc_le_eq numeral_eq_Suc)
qed simp

text \<open>A whole character is recognised from its own bytes, whatever follows.\<close>

lemma utf8_seq_local:
  assumes "fst (utf8_seq s)"
  shows "utf8_seq (take (snd (utf8_seq s)) s @ t) = (True, snd (utf8_seq s)) \<or> s = []"
proof (cases s)
  case (Cons c r)
  have len: "snd (utf8_seq s) \<le> length s" by (rule utf8_seq_le)
  show ?thesis
  proof (cases r)
    case Nil
    with Cons assms len show ?thesis by (auto simp: Let_def split: if_splits)
  next
    case r: (Cons d r')
    show ?thesis
    proof (cases r')
      case Nil
      with Cons r assms len show ?thesis by (auto simp: Let_def split: if_splits)
    next
      case r': (Cons e r'')
      show ?thesis
        by (cases r'') (use Cons r r' assms len in \<open>auto simp: Let_def split: if_splits\<close>)
    qed
  qed
qed simp

lemma utf8_Nil [simp]: "utf8 []"
  by (simp add: utf8.simps)

lemma utf8_step: "fst (utf8_seq s) \<Longrightarrow> utf8 (drop (snd (utf8_seq s)) s) \<Longrightarrow> utf8 s"
  by (subst utf8.simps) simp

lemma utf8_stepD:
  "utf8 s \<Longrightarrow> s \<noteq> [] \<Longrightarrow> fst (utf8_seq s) \<and> utf8 (drop (snd (utf8_seq s)) s)"
  by (subst (asm) utf8.simps) (simp split: if_splits)

lemma utf8_char_append:
  assumes "fst (utf8_seq s)" "s \<noteq> []" "utf8 t"
  shows "utf8 (take (snd (utf8_seq s)) s @ t)"
proof -
  let ?n = "snd (utf8_seq s)"
  from assms(1,2) have seq: "utf8_seq (take ?n s @ t) = (True, ?n)"
    using utf8_seq_local by blast
  moreover have "length (take ?n s) = ?n" using utf8_seq_le [of s] by simp
  ultimately show ?thesis using assms(3) by (subst utf8.simps) simp
qed

lemma utf8_replacement: "utf8 t \<Longrightarrow> utf8 (replacement @ t)"
  by (rule utf8_step) (simp_all add: replacement_def Let_def second3_def is_cont_def)

lemma utf8_append: "utf8 s \<Longrightarrow> utf8 t \<Longrightarrow> utf8 (s @ t)"
proof (induction s rule: utf8.induct)
  case (1 s)
  show ?case
  proof (cases "s = []")
    case False
    let ?n = "snd (utf8_seq s)"
    from 1(2) False have v: "fst (utf8_seq s)" and d: "utf8 (drop ?n s)"
      using utf8_stepD by blast+
    from 1(1) [OF False v d 1(3)] have "utf8 (drop ?n s @ t)" .
    with v False have "utf8 (take ?n s @ (drop ?n s @ t))" by (rule utf8_char_append)
    then show ?thesis by (metis append_assoc append_take_drop_id)
  qed (use 1 in simp)
qed

lemma utf8_lossy [simp]: "utf8 (from_utf8_lossy s)"
proof (induction s rule: from_utf8_lossy.induct)
  case (1 s)
  then show ?case
    by (subst from_utf8_lossy.simps) (auto intro: utf8_char_append utf8_replacement)
qed

lemma lossy_id [simp]: "utf8 s \<Longrightarrow> from_utf8_lossy s = s"
proof (induction s rule: from_utf8_lossy.induct)
  case (1 s)
  then show ?case
    using utf8_stepD [of s] by (subst from_utf8_lossy.simps) auto
qed

lemma utf8_ascii_Cons: "byte c < 128 \<Longrightarrow> utf8 (c # s) \<longleftrightarrow> utf8 s"
  by (subst utf8.simps) (simp add: Let_def)

lemma ascii_utf8: "ascii s \<Longrightarrow> utf8 s"
  by (induction s) (auto simp: utf8_ascii_Cons)

lemma lossy_Nil [simp]: "from_utf8_lossy [] = []"
  by (simp add: from_utf8_lossy.simps)

lemma lossy_ascii_Cons: "byte c < 128 \<Longrightarrow> from_utf8_lossy (c # s) = c # from_utf8_lossy s"
  by (subst from_utf8_lossy.simps) (simp add: Let_def)

section \<open>Trimming\<close>

lemma ws_len_ascii:
  "ascii s \<Longrightarrow> ws_len s = (case s of [] \<Rightarrow> 0 | c # _ \<Rightarrow> if ascii_ws c then 1 else 0)"
  by (cases s) (auto simp: ws2_def ws3_def split: list.splits)

lemma ws_len_rev_ascii:
  "ascii s \<Longrightarrow> ws_len_rev s = (case s of [] \<Rightarrow> 0 | c # _ \<Rightarrow> if ascii_ws c then 1 else 0)"
  by (cases s) (auto simp: ws2_def ws3_def split: list.splits)

lemma ascii_dropWhile [simp]: "ascii s \<Longrightarrow> ascii (dropWhile P s)"
  by (induction s) auto

lemma ascii_rev [simp]: "ascii (rev s) \<longleftrightarrow> ascii s"
  by (simp add: ascii_def)

lemma trim_start_ascii: "ascii s \<Longrightarrow> trim_start s = dropWhile ascii_ws s"
proof (induction s)
  case Nil
  then show ?case by (simp add: trim_start.simps)
next
  case (Cons c s)
  then show ?case
    using ws_len_ascii [of "c # s"] by (subst trim_start.simps) simp
qed

lemma trim_rev_ascii: "ascii s \<Longrightarrow> trim_rev s = dropWhile ascii_ws s"
proof (induction s)
  case Nil
  then show ?case by (simp add: trim_rev.simps)
next
  case (Cons c s)
  then show ?case
    using ws_len_rev_ascii [of "c # s"] by (subst trim_rev.simps) simp
qed

lemma trim_ascii:
  "ascii s \<Longrightarrow> trim s = rev (dropWhile ascii_ws (rev (dropWhile ascii_ws s)))"
  by (simp add: trim_def trim_end_def trim_start_ascii trim_rev_ascii)

lemma trim_ascii_id:
  assumes "ascii s" "s \<noteq> [] \<Longrightarrow> \<not> ascii_ws (hd s)" "s \<noteq> [] \<Longrightarrow> \<not> ascii_ws (last s)"
  shows "trim s = s"
proof (cases "s = []")
  case False
  have "dropWhile ascii_ws s = s" using False assms by (simp add: dropWhile_hd)
  moreover have "dropWhile ascii_ws (rev s) = rev s"
    using False assms by (simp add: dropWhile_hd hd_rev)
  ultimately show ?thesis using assms(1) by (simp add: trim_ascii)
qed (simp add: trim_ascii)

lemma set_trim_rev: "set (trim_rev s) \<subseteq> set s"
  by (induction s rule: trim_rev.induct)
    (subst trim_rev.simps, auto dest: in_set_dropD)

lemma set_trim_start: "set (trim_start s) \<subseteq> set s"
  by (induction s rule: trim_start.induct)
    (subst trim_start.simps, auto dest: in_set_dropD)

lemma set_trim: "set (trim s) \<subseteq> set s"
  using set_trim_rev set_trim_start by (fastforce simp: trim_def trim_end_def)

end
