(* ===== verification/Maps.thy ===== *)
theory Maps
  imports Utf8
begin

text \<open>
  The standard library's maps. A \<^verbatim>\<open>HashMap\<close> is an association list with distinct keys, its
  order standing for the unspecified iteration order; a \<^verbatim>\<open>BTreeMap\<close> (also the representation
  of a JSON object) is an association list with strictly increasing keys, so that equal maps
  are equal lists. What the components rely on is the interface \<open>keyed_store\<close>, which both
  maps are shown to provide, and \<open>shrinking_store\<close> for the operations only the hash map needs.
\<close>

type_synonym ('k, 'v) assoc = "('k \<times> 'v) list"

section \<open>HashMap\<close>

definition hm_inv :: "('k, 'v) assoc \<Rightarrow> bool" where
  "hm_inv m \<longleftrightarrow> distinct (map fst m)"

definition hm_insert :: "'k \<Rightarrow> 'v \<Rightarrow> ('k, 'v) assoc \<Rightarrow> ('k, 'v) assoc" where
  "hm_insert k v m = AList.update k v m"

definition hm_remove :: "'k \<Rightarrow> ('k, 'v) assoc \<Rightarrow> ('k, 'v) assoc" where
  "hm_remove k m = AList.delete k m"

definition hm_retain :: "('k \<Rightarrow> 'v \<Rightarrow> bool) \<Rightarrow> ('k, 'v) assoc \<Rightarrow> ('k, 'v) assoc" where
  "hm_retain P m = filter (\<lambda>(k, v). P k v) m"

section \<open>BTreeMap\<close>

definition bt_inv :: "('k :: linorder, 'v) assoc \<Rightarrow> bool" where
  "bt_inv m \<longleftrightarrow> sorted_wrt (<) (map fst m)"

fun bt_insert :: "'k :: linorder \<Rightarrow> 'v \<Rightarrow> ('k, 'v) assoc \<Rightarrow> ('k, 'v) assoc" where
  "bt_insert k v [] = [(k, v)]"
| "bt_insert k v ((k', v') # m) =
     (if k < k' then (k, v) # (k', v') # m
      else if k = k' then (k, v) # m
      else (k', v') # bt_insert k v m)"

section \<open>The interface\<close>

locale keyed_store =
  fixes get :: "'m \<Rightarrow> 'k \<Rightarrow> 'v option"
    and ins :: "'k \<Rightarrow> 'v \<Rightarrow> 'm \<Rightarrow> 'm"
    and invar :: "'m \<Rightarrow> bool"
  assumes get_ins: "invar m \<Longrightarrow> get (ins k v m) = (get m)(k \<mapsto> v)"
    and invar_ins: "invar m \<Longrightarrow> invar (ins k v m)"
begin

lemma invar_ins_all: "invar m \<Longrightarrow> invar (fold (\<lambda>(k, v). ins k v) kvs m)"
  by (induction kvs arbitrary: m) (auto intro: invar_ins)

text \<open>A loop of insertions: the last pair of a key wins over earlier pairs and over the map.\<close>

lemma get_ins_all:
  "invar m \<Longrightarrow> get (fold (\<lambda>(k, v). ins k v) kvs m) = get m ++ map_of (rev kvs)"
proof (induction kvs arbitrary: m)
  case (Cons kv kvs)
  obtain k v where kv: "kv = (k, v)" by (cases kv)
  from Cons.prems have "invar (ins k v m)" by (rule invar_ins)
  from Cons.IH [OF this] have
    "get (fold (\<lambda>(k, v). ins k v) (kv # kvs) m) = (get m)(k \<mapsto> v) ++ map_of (rev kvs)"
    using Cons.prems by (simp add: kv get_ins fun_upd_def)
  also have "\<dots> = get m ++ map_of (rev (kv # kvs))"
    by (auto simp: kv map_add_def fun_eq_iff split: option.splits)
  finally show ?case .
qed simp

lemma get_ins_all_other:
  assumes "invar m" "k \<notin> fst ` set kvs"
  shows "get (fold (\<lambda>(k, v). ins k v) kvs m) k = get m k"
proof -
  have "map_of (rev kvs) k = None" using assms(2) by (force simp: map_of_eq_None_iff)
  then show ?thesis using assms(1) by (simp add: get_ins_all map_add_None map_add_def)
qed

end

locale shrinking_store = keyed_store get ins invar
  for get :: "'m \<Rightarrow> 'k \<Rightarrow> 'v option" and ins and invar +
  fixes rem :: "'k \<Rightarrow> 'm \<Rightarrow> 'm"
    and retain :: "('k \<Rightarrow> 'v \<Rightarrow> bool) \<Rightarrow> 'm \<Rightarrow> 'm"
    and len :: "'m \<Rightarrow> nat"
  assumes get_rem: "invar m \<Longrightarrow> get (rem k m) = (get m)(k := None)"
    and invar_rem: "invar m \<Longrightarrow> invar (rem k m)"
    and get_retain: "invar m \<Longrightarrow>
      get (retain P m) k = (case get m k of None \<Rightarrow> None | Some v \<Rightarrow> if P k v then Some v else None)"
    and invar_retain: "invar m \<Longrightarrow> invar (retain P m)"
    and finite_dom: "finite (dom (get m))"
    and len_card: "invar m \<Longrightarrow> len m = card (dom (get m))"
begin

text \<open>What \<^verbatim>\<open>retain\<close> reclaims is the number of keys whose entry failed the predicate.\<close>

lemma len_retain:
  assumes "invar m"
  shows "len m - len (retain P m) = card {k. \<exists>v. get m k = Some v \<and> \<not> P k v}"
proof -
  let ?K = "dom (get (retain P m))" and ?R = "{k. \<exists>v. get m k = Some v \<and> \<not> P k v}"
  have un: "?K \<union> ?R = dom (get m)" and disj: "?K \<inter> ?R = {}"
    using assms by (auto simp: get_retain split: option.splits if_splits)
  have "finite ?R" using finite_dom [of m] by (rule rev_finite_subset) auto
  then have "card (dom (get m)) = card ?K + card ?R"
    unfolding un [symmetric] using disj finite_dom by (intro card_Un_disjoint) auto
  then show ?thesis using assms by (simp add: len_card invar_retain)
qed

lemma len_retain_le: "invar m \<Longrightarrow> len (retain P m) \<le> len m"
  using finite_dom [of m]
  by (auto simp: len_card invar_retain get_retain intro!: card_mono split: option.splits if_splits)

end

section \<open>Both maps provide it\<close>

lemma map_of_filter_distinct:
  "distinct (map fst m) \<Longrightarrow>
     map_of (filter (\<lambda>(k, v). P k v) m) k =
     (case map_of m k of None \<Rightarrow> None | Some v \<Rightarrow> if P k v then Some v else None)"
proof (induction m arbitrary: k)
  case (Cons kv m)
  obtain k' v' where kv: "kv = (k', v')" by (cases kv)
  with Cons.prems have "map_of m k' = None" by (simp add: map_of_eq_None_iff)
  then have "map_of (filter (\<lambda>(k, v). P k v) m) k' = None" using Cons kv by simp
  with Cons kv show ?case by auto
qed simp

interpretation hash_map: shrinking_store map_of hm_insert hm_inv hm_remove hm_retain length
proof unfold_locales
  fix m :: "('a, 'b) assoc" and k v
  show "map_of (hm_insert k v m) = (map_of m)(k \<mapsto> v)" if "hm_inv m"
    by (simp add: hm_insert_def update_conv')
  show "hm_inv (hm_insert k v m)" if "hm_inv m"
    using that by (simp add: hm_inv_def hm_insert_def distinct_update)
  show "map_of (hm_remove k m) = (map_of m)(k := None)" if "hm_inv m"
    by (simp add: hm_remove_def delete_conv')
  show "hm_inv (hm_remove k m)" if "hm_inv m"
    using that by (simp add: hm_inv_def hm_remove_def distinct_delete)
  show "finite (dom (map_of m))" by (rule finite_dom_map_of)
  show "length m = card (dom (map_of m))" if "hm_inv m"
    using that by (metis card_image distinct_card distinct_map dom_map_of_conv_image_fst hm_inv_def length_map set_map)
next
  fix m :: "('a, 'b) assoc" and P k
  show "map_of (hm_retain P m) k =
      (case map_of m k of None \<Rightarrow> None | Some v \<Rightarrow> if P k v then Some v else None)" if "hm_inv m"
    using that by (simp add: hm_inv_def hm_retain_def map_of_filter_distinct)
  show "hm_inv (hm_retain P m)" if "hm_inv m"
    using that by (simp add: hm_inv_def hm_retain_def distinct_map_filter)
qed

lemma bt_insert_get: "map_of (bt_insert k v m) = (map_of m)(k \<mapsto> v)"
  by (induction m) (auto simp: fun_eq_iff)

lemma bt_insert_keys: "fst ` set (bt_insert k v m) = insert k (fst ` set m)"
  using arg_cong [OF bt_insert_get [of k v m], where f = dom] by (simp add: dom_map_of_conv_image_fst)

lemma bt_insert_inv: "bt_inv m \<Longrightarrow> bt_inv (bt_insert k v m)"
proof (induction m)
  case (Cons kv m)
  obtain k' v' where kv: "kv = (k', v')" by (cases kv)
  from Cons.prems have "bt_inv m" and lt: "\<forall>x \<in> fst ` set m. k' < x"
    by (auto simp: bt_inv_def kv)
  with Cons.IH have "bt_inv (bt_insert k v m)" by simp
  moreover have "\<forall>x \<in> fst ` set (bt_insert k v m). k' < x" if "k' < k"
    using lt that by (simp add: bt_insert_keys)
  ultimately show ?case
    using Cons.prems by (auto simp: bt_inv_def kv)
qed (simp add: bt_inv_def)

interpretation btree_map: keyed_store map_of bt_insert bt_inv
  by unfold_locales (simp_all add: bt_insert_get bt_insert_inv)

lemma bt_inv_Nil [simp]: "bt_inv []" and hm_inv_Nil [simp]: "hm_inv []"
  by (simp_all add: bt_inv_def hm_inv_def)

end
