(* ===== verification/Models.thy ===== *)
theory Models
  imports Maps
begin

text \<open>
  The contract types that \<^verbatim>\<open>models/fluorite/*.fl\<close> declare (the Rust types are generated from
  them) and the hand-written constructors of \<^verbatim>\<open>models/src/lib.rs\<close>. A union is a datatype with
  one constructor per arm, a struct is a record; the one-field wrapper structs of the union
  arms (\<^verbatim>\<open>CrudVerb\<close>, \<^verbatim>\<open>NamedVerb\<close>, \<^verbatim>\<open>AllowVerdict\<close>, \dots) are the constructor's argument.
  Record fields carry a short prefix, since an Isabelle field name is a global constant.
\<close>

section \<open>JSON values\<close>

text \<open>
  \<^verbatim>\<open>serde_json::Value\<close>. A number is an unsigned or a negative 64-bit integer or a finite
  float, which compares equal to another float exactly when both denote the same rational. An
  object is a \<^verbatim>\<open>BTreeMap\<close> (the crate's default), hence an association list by increasing key.
\<close>

datatype number = PosInt u64 | NegInt u64 | Float rat

datatype json =
    Null
  | Bool bool
  | Number number
  | String string
  | Array "json list"
  | Object "(string \<times> json) list"

fun as_object :: "json \<Rightarrow> (string, json) assoc option" where
  "as_object (Object m) = Some m"
| "as_object _ = None"

fun as_str :: "json \<Rightarrow> string option" where
  "as_str (String s) = Some s"
| "as_str _ = None"

text \<open>\<^verbatim>\<open>Value::get(&str)\<close>: the member of an object.\<close>

definition value_get :: "json \<Rightarrow> string \<Rightarrow> json option" where
  "value_get v k = Option.bind (as_object v) (\<lambda>m. map_of m k)"

section \<open>Actions\<close>

datatype crud_kind = Read | Create | Update | Delete

datatype verb = Crud crud_kind | NamedAction string

record resource =
  r_path :: string
  r_kind :: string

record action =
  a_target :: string
  a_verb :: verb
  a_resource :: resource
  a_fields :: json

definition empty_fields :: json where
  "empty_fields = Object []"

definition action_of :: "string \<Rightarrow> verb \<Rightarrow> resource \<Rightarrow> action" where
  "action_of target vb res =
     \<lparr> a_target = target, a_verb = vb, a_resource = res, a_fields = empty_fields \<rparr>"

definition with_fields :: "json \<Rightarrow> action \<Rightarrow> action" where
  "with_fields fs a = a\<lparr> a_fields := fs \<rparr>"

definition verb_crud :: "crud_kind \<Rightarrow> verb" where
  "verb_crud kind = Crud kind"

definition verb_action :: "string \<Rightarrow> verb" where
  "verb_action ident = NamedAction ident"

definition verb_parse :: "string \<Rightarrow> verb" where
  "verb_parse s =
     (let l = to_ascii_lowercase s in
      if l = ''read'' then verb_crud Read
      else if l = ''create'' then verb_crud Create
      else if l = ''update'' then verb_crud Update
      else if l = ''delete'' then verb_crud Delete
      else verb_action s)"

definition resource_of :: "string \<Rightarrow> string \<Rightarrow> resource" where
  "resource_of p k = \<lparr> r_path = p, r_kind = k \<rparr>"

section \<open>Policies\<close>

datatype effect = EAllow | EDeny

datatype condition =
    Equals string json
  | OneOf string "json list"
  | Exists string

record rule_match =
  m_targets :: "string list"
  m_verbs :: "verb list"
  m_resources :: "string list"
  m_conditions :: "condition list"

record rule =
  effect :: effect
  matches :: rule_match

record policy =
  rules :: "rule list"

section \<open>Verdicts\<close>

datatype deny_reason = NotAllowed | ExplicitDeny | Unauthenticated | NoPolicy | UnknownTarget

datatype obligation = InjectCredential string | PassthroughObligation

datatype verdict = Allow "obligation list" | Deny deny_reason

fun is_allow :: "verdict \<Rightarrow> bool" where
  "is_allow (Allow _) = True"
| "is_allow (Deny _) = False"

definition verdict_allow :: "obligation list \<Rightarrow> verdict" where
  "verdict_allow obligations = Allow obligations"

definition verdict_inject :: "string \<Rightarrow> obligation" where
  "verdict_inject ident = InjectCredential ident"

definition verdict_passthrough :: obligation where
  "verdict_passthrough = PassthroughObligation"

definition verdict_deny :: "deny_reason \<Rightarrow> verdict" where
  "verdict_deny reason = Deny reason"

text \<open>\<^verbatim>\<open>{:?}\<close> of a deny reason: the variant's name.\<close>

fun debug_reason :: "deny_reason \<Rightarrow> string" where
  "debug_reason NotAllowed = ''NotAllowed''"
| "debug_reason ExplicitDeny = ''ExplicitDeny''"
| "debug_reason Unauthenticated = ''Unauthenticated''"
| "debug_reason NoPolicy = ''NoPolicy''"
| "debug_reason UnknownTarget = ''UnknownTarget''"

section \<open>Audit, control and provision messages\<close>

datatype decision = DecAllow | DecDeny

record audit_event =
  at_ms :: u64
  e_action :: action
  e_decision :: decision
  e_detail :: string

record mint_response =
  mr_token :: string
  mr_expires_at_ms :: u64

datatype provision_mode = Inject | PassthroughMode

record sigv4_auth =
  sa_access_key_id :: string
  sa_secret_access_key :: string
  sa_region :: string

datatype provision_auth = BearerAuth string | SigV4Auth sigv4_auth

record provision_service =
  ps_target :: string
  ps_flavor :: string
  ps_address :: string
  ps_mode :: provision_mode
  ps_auth :: provision_auth

record provision_doc =
  pd_token :: string
  pd_ca :: string
  pd_expires_at_ms :: u64
  pd_services :: "provision_service list"

lemmas constructor_defs [model_defs] =
  action_of_def with_fields_def verb_crud_def verb_action_def resource_of_def empty_fields_def
  verdict_allow_def verdict_deny_def verdict_inject_def verdict_passthrough_def

text \<open>The CRUD words are parsed case-insensitively; every other word is kept as written.\<close>

lemma verb_parse_named:
  "to_ascii_lowercase s \<notin> {''read'', ''create'', ''update'', ''delete''} \<Longrightarrow> verb_parse s = NamedAction s"
  by (simp add: verb_parse_def verb_action_def Let_def)

lemma verb_parse_case:
  assumes "to_ascii_lowercase s = to_ascii_lowercase t"
  shows "verb_parse s = verb_parse t \<or> verb_parse s = NamedAction s \<and> verb_parse t = NamedAction t"
  using assms by (simp add: verb_parse_def verb_action_def Let_def)

end
