(* ===== verification/Policy.thy ===== *)
theory Policy
  imports Models
begin

text \<open>
  The policy engine, \<^verbatim>\<open>policy/src/lib.rs\<close>: \<open>decide\<close> and the facets of a rule it consults.
  Rules are scanned in order, the first whose four facets all hold decides, and no match is a
  denial. The segment-wise glob is refined against an inductive specification, and the scan
  against the first-match interface \<open>first_match\<close> that the service router shares.
\<close>

section \<open>Field conditions\<close>

fun lookup_path :: "json \<Rightarrow> string list \<Rightarrow> json option" where
  "lookup_path cur [] = Some cur"
| "lookup_path cur (seg # segs) =
     do { m \<leftarrow> as_object cur; v \<leftarrow> map_of m seg; lookup_path v segs }"

definition lookup :: "json \<Rightarrow> string \<Rightarrow> json option" where
  "lookup fs path = lookup_path fs (split_on (CHR ''.'') path)"

fun condition_holds :: "condition \<Rightarrow> json \<Rightarrow> bool" where
  "condition_holds (Equals field v) fs = (lookup fs field = Some v)"
| "condition_holds (OneOf field vs) fs =
     (case lookup fs field of None \<Rightarrow> False | Some v \<Rightarrow> v \<in> set vs)"
| "condition_holds (Exists field) fs =
     (case lookup fs field of None \<Rightarrow> False | Some v \<Rightarrow> v \<noteq> Null)"

section \<open>Resource globs\<close>

fun segments_match :: "string list \<Rightarrow> string list \<Rightarrow> bool" where
  "segments_match [] seg = (seg = [])"
| "segments_match (head # rest) seg =
     (if head = ''**'' then list_ex (\<lambda>i. segments_match rest (drop i seg)) [0..<Suc (length seg)]
      else case seg of
        [] \<Rightarrow> False
      | shead # srest \<Rightarrow> (head = ''*'' \<or> head = shead) \<and> segments_match rest srest)"

definition glob_matches :: "string \<Rightarrow> string \<Rightarrow> bool" where
  "glob_matches pat path = segments_match (split_on (CHR ''/'') pat) (split_on (CHR ''/'') path)"

section \<open>Rules and the decision\<close>

definition target_matches :: "string list \<Rightarrow> string \<Rightarrow> bool" where
  "target_matches targets target \<longleftrightarrow> targets = [] \<or> list_ex (\<lambda>t. t = target) targets"

definition verb_matches :: "verb list \<Rightarrow> verb \<Rightarrow> bool" where
  "verb_matches verbs v \<longleftrightarrow> verbs = [] \<or> v \<in> set verbs"

definition resource_matches :: "string list \<Rightarrow> string \<Rightarrow> bool" where
  "resource_matches patterns path \<longleftrightarrow> patterns = [] \<or> list_ex (\<lambda>p. glob_matches p path) patterns"

definition rule_matches :: "rule \<Rightarrow> action \<Rightarrow> bool" where
  "rule_matches r a =
     (let m = matches r in
      target_matches (m_targets m) (a_target a)
      \<and> verb_matches (m_verbs m) (a_verb a)
      \<and> resource_matches (m_resources m) (r_path (a_resource a))
      \<and> list_all (\<lambda>c. condition_holds c (a_fields a)) (m_conditions m))"

definition verdict_for :: "rule \<Rightarrow> verdict" where
  "verdict_for r =
     (case effect r of EAllow \<Rightarrow> verdict_allow [] | EDeny \<Rightarrow> verdict_deny ExplicitDeny)"

fun decide_rules :: "action \<Rightarrow> rule list \<Rightarrow> verdict" where
  "decide_rules a [] = verdict_deny NotAllowed"
| "decide_rules a (r # rs) = (if rule_matches r a then verdict_for r else decide_rules a rs)"

definition decide :: "action \<Rightarrow> policy \<Rightarrow> verdict" where
  "decide a p = decide_rules a (rules p)"

section \<open>The specification of a glob\<close>

text \<open>
  A literal segment matches itself, \<open>*\<close> exactly one segment and \<open>**\<close> any number of segments.
\<close>

inductive glob :: "string list \<Rightarrow> string list \<Rightarrow> bool" where
  glob_Nil: "glob [] []"
| glob_lit: "p \<noteq> ''**'' \<Longrightarrow> glob ps ss \<Longrightarrow> glob (p # ps) (p # ss)"
| glob_star: "glob ps ss \<Longrightarrow> glob (''*'' # ps) (s # ss)"
| glob_stars: "glob ps ss \<Longrightarrow> glob (''**'' # ps) (ts @ ss)"

inductive_cases glob_NilE: "glob [] ss"
inductive_cases glob_ConsE: "glob (p # ps) ss"

inductive_simps glob_Nil_simp [simp]: "glob [] ss"

lemma glob_stars_iff: "glob (''**'' # ps) ss \<longleftrightarrow> (\<exists>ts us. ss = ts @ us \<and> glob ps us)"
  by (auto elim!: glob_ConsE intro: glob_stars)

lemma glob_other_iff:
  "p \<noteq> ''**'' \<Longrightarrow> glob (p # ps) ss \<longleftrightarrow> (\<exists>s us. ss = s # us \<and> (p = ''*'' \<or> p = s) \<and> glob ps us)"
  by (auto elim!: glob_ConsE intro: glob_lit glob_star)

lemma list_ex_suffix:
  "list_ex (\<lambda>i. P (drop i ss)) [0..<Suc (length ss)] \<longleftrightarrow> (\<exists>ts us. ss = ts @ us \<and> P us)"
proof
  assume "list_ex (\<lambda>i. P (drop i ss)) [0..<Suc (length ss)]"
  then obtain i where "P (drop i ss)" unfolding list_ex_iff by blast
  then show "\<exists>ts us. ss = ts @ us \<and> P us" by (metis append_take_drop_id)
next
  assume "\<exists>ts us. ss = ts @ us \<and> P us"
  then obtain ts us where "ss = ts @ us" "P us" by blast
  then have "length ts \<in> set [0..<Suc (length ss)] \<and> P (drop (length ts) ss)" by simp
  then show "list_ex (\<lambda>i. P (drop i ss)) [0..<Suc (length ss)]" unfolding list_ex_iff by blast
qed

lemma segments_match_glob: "segments_match ps ss \<longleftrightarrow> glob ps ss"
proof (induction ps arbitrary: ss)
  case (Cons p ps)
  show ?case
  proof (cases "p = ''**''")
    case True
    have "segments_match (p # ps) ss \<longleftrightarrow> list_ex (\<lambda>i. glob ps (drop i ss)) [0..<Suc (length ss)]"
      using True by (simp add: Cons.IH del: upt_Suc)
    then show ?thesis using True by (simp only: list_ex_suffix glob_stars_iff)
  next
    case False
    then show ?thesis by (auto simp: glob_other_iff Cons.IH split: list.splits)
  qed
qed auto

section \<open>First match wins\<close>

definition deciding_rule :: "action \<Rightarrow> rule list \<Rightarrow> rule option" where
  "deciding_rule a rs = List.find (\<lambda>r. rule_matches r a) rs"

interpretation rule_scan: first_match "deciding_rule a" "\<lambda>r. rule_matches r a" for a
  by unfold_locales (simp_all add: deciding_rule_def)

lemma decide_deciding_rule:
  "decide a p = (case deciding_rule a (rules p) of None \<Rightarrow> Deny NotAllowed | Some r \<Rightarrow> verdict_for r)"
proof -
  have "decide_rules a rs = (case deciding_rule a rs of None \<Rightarrow> Deny NotAllowed | Some r \<Rightarrow> verdict_for r)" for rs
    by (induction rs) (simp_all add: rule_scan.pick_Nil rule_scan.pick_Cons verdict_deny_def)
  then show ?thesis by (simp add: decide_def)
qed

lemma verdict_for_simps [simp]:
  "effect r = EAllow \<Longrightarrow> verdict_for r = Allow []"
  "effect r = EDeny \<Longrightarrow> verdict_for r = Deny ExplicitDeny"
  by (simp_all add: verdict_for_def verdict_allow_def verdict_deny_def)

lemma verdict_for_allow_iff: "is_allow (verdict_for r) \<longleftrightarrow> effect r = EAllow"
  by (cases "effect r") simp_all

lemma decide_allow_rule:
  "is_allow (decide a p) \<longleftrightarrow> (\<exists>r. deciding_rule a (rules p) = Some r \<and> effect r = EAllow)"
  by (auto simp: decide_deciding_rule verdict_for_allow_iff split: option.splits)

lemma deciding_ruleD: "deciding_rule a rs = Some r \<Longrightarrow> r \<in> set rs \<and> rule_matches r a"
  unfolding deciding_rule_def by (drule find_SomeD) simp

lemma decide_allow_exists:
  assumes "is_allow (decide a p)"
  obtains r where "r \<in> set (rules p)" "rule_matches r a" "effect r = EAllow"
  using assms by (auto simp: decide_allow_rule dest: deciding_ruleD)

lemma decide_cases: "decide a p \<in> {Allow [], Deny ExplicitDeny, Deny NotAllowed}"
proof -
  have "verdict_for r \<in> {Allow [], Deny ExplicitDeny}" for r
    by (cases "effect r") simp_all
  then show ?thesis by (auto simp: decide_deciding_rule split: option.splits)
qed

lemma is_allow_decide: "is_allow (decide a p) \<longleftrightarrow> decide a p = Allow []"
  using decide_cases [of a p] by auto

lemma target_matches_named: "ts \<noteq> [] \<Longrightarrow> target_matches ts t \<longleftrightarrow> t \<in> set ts"
  by (auto simp: target_matches_def list_ex_iff)

lemma rule_matches_target: "rule_matches r a \<Longrightarrow> target_matches (m_targets (matches r)) (a_target a)"
  by (simp add: rule_matches_def Let_def)

lemma rule_matches_verb: "rule_matches r a \<Longrightarrow> verb_matches (m_verbs (matches r)) (a_verb a)"
  by (simp add: rule_matches_def Let_def)

lemma lookup_path_append:
  "lookup_path v (xs @ ys) = Option.bind (lookup_path v xs) (\<lambda>w. lookup_path w ys)"
  by (induction v xs rule: lookup_path.induct) (auto simp: Option.bind_assoc split: Option.bind_splits)

section \<open>Properties\<close>

text \<open>C15. First match wins, default deny: a verdict of the engine is exactly the verdict of a rule
  that matches and has no matching rule before it, or, when no rule matches at all, a denial
  with reason \<open>NotAllowed\<close>.\<close>

theorem decide_first_match_wins:
  "decide a p = v \<longleftrightarrow>
     (\<exists>before r after. rules p = before @ r # after \<and> rule_matches r a
        \<and> (\<forall>q \<in> set before. \<not> rule_matches q a) \<and> v = verdict_for r)
     \<or> (\<forall>q \<in> set (rules p). \<not> rule_matches q a) \<and> v = Deny NotAllowed"
proof (cases "deciding_rule a (rules p)")
  case None
  then have "decide a p = Deny NotAllowed" by (simp add: decide_deciding_rule)
  moreover from None have "\<forall>q \<in> set (rules p). \<not> rule_matches q a"
    by (simp add: rule_scan.pick_None)
  ultimately show ?thesis by auto
next
  case (Some r)
  then have d: "decide a p = verdict_for r" by (simp add: decide_deciding_rule)
  have pick: "(\<exists>before after. rules p = before @ r' # after \<and> rule_matches r' a
      \<and> (\<forall>q \<in> set before. \<not> rule_matches q a)) \<longleftrightarrow> r' = r" for r'
    using Some rule_scan.pick_Some [of a "rules p" r'] by auto
  have "(\<exists>before r' after. rules p = before @ r' # after \<and> rule_matches r' a
        \<and> (\<forall>q \<in> set before. \<not> rule_matches q a) \<and> v = verdict_for r')
      \<longleftrightarrow> (\<exists>r'. (\<exists>before after. rules p = before @ r' # after \<and> rule_matches r' a
        \<and> (\<forall>q \<in> set before. \<not> rule_matches q a)) \<and> v = verdict_for r')" (is "?L \<longleftrightarrow> _")
    by iprover
  also have "\<dots> \<longleftrightarrow> v = verdict_for r" unfolding pick by simp
  finally have "?L \<longleftrightarrow> v = verdict_for r" .
  moreover have "\<not> (\<forall>q \<in> set (rules p). \<not> rule_matches q a)"
    using deciding_ruleD [OF Some] by blast
  ultimately show ?thesis unfolding d by (simp only: simp_thms) auto
qed

theorem decide_first_match_wins_witness:
  "decide (action_of ''github'' (Crud Create) (resource_of ''repos/o/r/pulls'' ''pull_request''))
     \<lparr> rules =
        [\<lparr> effect = EDeny, matches = \<lparr> m_targets = [], m_verbs = [Crud Create], m_resources = [], m_conditions = [] \<rparr> \<rparr>,
         \<lparr> effect = EAllow, matches = \<lparr> m_targets = [], m_verbs = [], m_resources = [], m_conditions = [] \<rparr> \<rparr>] \<rparr>
   = Deny ExplicitDeny"
  by (rule iffD2 [OF decide_first_match_wins], rule disjI1, rule exI [of _ "[]"])
    (simp add: rule_matches_def target_matches_def verb_matches_def resource_matches_def action_of_def)

text \<open>C14. Nothing is allowed without a rule that says so: an allowed action is one that an
  \<open>Allow\<close> rule of the policy matches in its target, verb, resource and conditions, with no
  matching rule before it; the verdict carries no obligation, so the engine names no credential.\<close>

theorem decide_allow_justified:
  assumes "is_allow (decide a p)"
  shows "decide a p = Allow [] \<and>
    (\<exists>before r after. rules p = before @ r # after \<and> effect r = EAllow
       \<and> (\<forall>q \<in> set before. \<not> rule_matches q a)
       \<and> (m_targets (matches r) = [] \<or> a_target a \<in> set (m_targets (matches r)))
       \<and> (m_verbs (matches r) = [] \<or> a_verb a \<in> set (m_verbs (matches r)))
       \<and> (m_resources (matches r) = []
          \<or> (\<exists>g \<in> set (m_resources (matches r)).
               glob (split_on (CHR ''/'') g) (split_on (CHR ''/'') (r_path (a_resource a)))))
       \<and> (\<forall>c \<in> set (m_conditions (matches r)). condition_holds c (a_fields a)))"
proof -
  from assms obtain r where r: "deciding_rule a (rules p) = Some r" "effect r = EAllow"
    by (auto simp: decide_allow_rule)
  then obtain before after where split: "rules p = before @ r # after" "rule_matches r a"
      "\<forall>q \<in> set before. \<not> rule_matches q a"
    by (auto simp: rule_scan.pick_Some)
  have facets: "m_targets (matches r) = [] \<or> a_target a \<in> set (m_targets (matches r))"
      "m_verbs (matches r) = [] \<or> a_verb a \<in> set (m_verbs (matches r))"
      "m_resources (matches r) = []
        \<or> (\<exists>g \<in> set (m_resources (matches r)).
             glob (split_on (CHR ''/'') g) (split_on (CHR ''/'') (r_path (a_resource a))))"
      "\<forall>c \<in> set (m_conditions (matches r)). condition_holds c (a_fields a)"
    using split(2)
    by (auto simp: rule_matches_def Let_def target_matches_def verb_matches_def resource_matches_def
        glob_matches_def segments_match_glob list_ex_iff list_all_iff)
  from assms have "decide a p = Allow []" by (simp add: is_allow_decide)
  with split facets r(2) show ?thesis by blast
qed

theorem decide_allow_justified_witness:
  "is_allow (decide (action_of ''github'' (Crud Read) (resource_of ''repos/o/r'' ''repo''))
     \<lparr> rules = [\<lparr> effect = EAllow,
        matches = \<lparr> m_targets = [''github''], m_verbs = [Crud Read], m_resources = [''repos/**''], m_conditions = [] \<rparr> \<rparr>] \<rparr>)
   \<and> decide (action_of ''github'' (Crud Read) (resource_of ''repos/o/r'' ''repo''))
     \<lparr> rules = [\<lparr> effect = EAllow,
        matches = \<lparr> m_targets = [''github''], m_verbs = [Crud Read], m_resources = [''repos/**''], m_conditions = [] \<rparr> \<rparr>] \<rparr>
     = Allow []"
proof -
  let ?a = "action_of ''github'' (Crud Read) (resource_of ''repos/o/r'' ''repo'')"
  let ?p = "\<lparr> rules = [\<lparr> effect = EAllow, matches = \<lparr> m_targets = [''github''],
    m_verbs = [Crud Read], m_resources = [''repos/**''], m_conditions = [] \<rparr> \<rparr>] \<rparr>"
  have "is_allow (decide ?a ?p)" by code_simp
  with decide_allow_justified [OF this] show ?thesis by blast
qed

text \<open>C30. The recursive glob matcher decides exactly the specified glob language: a pattern
  matches a path when their \<open>/\<close>-segments are related by the inductive relation in which a
  literal matches itself, \<open>*\<close> one segment and \<open>**\<close> any run of segments, the empty run included.\<close>

theorem glob_matches_refines_spec:
  "glob_matches pat path \<longleftrightarrow> glob (split_on (CHR ''/'') pat) (split_on (CHR ''/'') path)"
  by (simp add: glob_matches_def segments_match_glob)

text \<open>A rule that does not match an action has no influence on it: inserting or removing such
  a rule at any position leaves the verdict unchanged.\<close>

theorem decide_ignores_unmatched_rule:
  assumes "\<not> rule_matches r a"
  shows "decide a \<lparr> rules = before @ r # after \<rparr> = decide a \<lparr> rules = before @ after \<rparr>"
  using assms
  by (simp add: decide_deciding_rule rule_scan.pick_append rule_scan.pick_Cons split: option.splits)

theorem decide_ignores_unmatched_rule_witness:
  "decide (action_of ''s'' (Crud Read) (resource_of ''x'' ''x''))
     \<lparr> rules = [] @ \<lparr> effect = EAllow, matches = \<lparr> m_targets = [''t''], m_verbs = [], m_resources = [], m_conditions = [] \<rparr> \<rparr> # [] \<rparr>
   = decide (action_of ''s'' (Crud Read) (resource_of ''x'' ''x'')) \<lparr> rules = [] @ [] \<rparr>"
  by (rule decide_ignores_unmatched_rule) code_simp

text \<open>Dotted field paths: looking up \<open>p.q\<close> is looking \<open>q\<close> up in the value found at \<open>p\<close>, so a
  missing member or a traversed non-object anywhere along the path gives no value, and then
  none of the three conditions holds.\<close>

theorem lookup_compositional:
  "lookup fs (p @ ''.'' @ q) = Option.bind (lookup fs p) (\<lambda>v. lookup v q)
   \<and> (lookup fs p = None \<longrightarrow>
       \<not> condition_holds (Equals (p @ ''.'' @ q) v) fs
       \<and> \<not> condition_holds (OneOf (p @ ''.'' @ q) vs) fs
       \<and> \<not> condition_holds (Exists (p @ ''.'' @ q)) fs)"
  by (simp add: lookup_def split_on_append_gen lookup_path_append)

theorem lookup_compositional_witness:
  "lookup (Object [(''head'', Object [(''ref'', String ''feature'')])]) ''head.ref'' = Some (String ''feature'')"
  using conjunct1 [OF lookup_compositional
      [of "Object [(''head'', Object [(''ref'', String ''feature'')])]" "''head''" "''ref''"]]
  by (simp add: lookup_def)

end
