(* ===== verification/Codec.thy ===== *)
theory Codec
  imports Utf8
begin

text \<open>
  The byte-level encodings of \<^verbatim>\<open>gateway/src/sigv4.rs\<close>: SigV4 URI encoding, percent decoding,
  lower-case hex, and the constant-time comparison. Percent decoding slices the input by byte
  index; a slice that ends inside a multi-byte character panics, so the decoder returns an
  \<open>option\<close>. The round trip is stated through the interface \<open>round_trip\<close>.
\<close>

unbundle bit_operations_syntax

section \<open>Definitions\<close>

text \<open>The bytes \<^verbatim>\<open>A-Z a-z 0-9 _ - ~ .\<close> that are never escaped.\<close>

definition unreserved :: "char \<Rightarrow> bool" where
  "unreserved c \<longleftrightarrow>
     65 \<le> byte c \<and> byte c \<le> 90 \<or> 97 \<le> byte c \<and> byte c \<le> 122 \<or> 48 \<le> byte c \<and> byte c \<le> 57
     \<or> c = CHR ''_'' \<or> c = CHR ''-'' \<or> c = CHR ''~'' \<or> c = CHR ''.''"

fun uri_encode :: "bytes \<Rightarrow> bool \<Rightarrow> string" where
  "uri_encode [] encode_slash = []"
| "uri_encode (b # bs) encode_slash =
     (if unreserved b then [b]
      else if b = CHR ''/'' \<and> \<not> encode_slash then ''/''
      else CHR ''%'' # fmt_02X b) @ uri_encode bs encode_slash"

text \<open>
  The loop of \<^verbatim>\<open>percent_decode\<close> at the byte index whose remaining input is the argument. The
  slice \<^verbatim>\<open>&s[i + 1..i + 3]\<close> panics (\<open>None\<close>) unless both ends are character boundaries.
\<close>

fun percent_decode :: "string \<Rightarrow> bytes option" where
  "percent_decode [] = Some []"
| "percent_decode (c # s) =
     (if c = CHR ''%'' \<and> 2 \<le> length s then
        (if is_cont (byte (s ! 0)) \<or> 2 < length s \<and> is_cont (byte (s ! 2)) then None
         else case from_hex2 (s ! 0) (s ! 1) of
             Some b \<Rightarrow> map_option ((#) b) (percent_decode (drop 2 s))
           | None \<Rightarrow> map_option ((#) (CHR ''%'')) (percent_decode s))
      else if c = CHR ''+'' then map_option ((#) (CHR '' '')) (percent_decode s)
      else map_option ((#) c) (percent_decode s))"

fun to_hex :: "bytes \<Rightarrow> string" where
  "to_hex [] = []"
| "to_hex (b # bs) = fmt_02x b @ to_hex bs"

text \<open>The accumulator of \<^verbatim>\<open>constant_time_eq\<close>: the OR of the XOR of the bytes at equal positions.\<close>

definition constant_time_eq :: "bytes \<Rightarrow> bytes \<Rightarrow> bool" where
  "constant_time_eq a b =
     (if length a \<noteq> length b then False
      else fold (\<lambda>(x, y) diff. diff OR (of_char x XOR of_char y)) (zip a b) (0 :: u8) = 0)"

section \<open>Hex digits\<close>

lemma hex_upper_byte: "n < 16 \<Longrightarrow> byte (hex_upper n) = (if n < 10 then 48 + n else 55 + n)"
  by (auto simp: hex_upper_def)

lemma hex_lower_byte: "n < 16 \<Longrightarrow> byte (hex_lower n) = (if n < 10 then 48 + n else 87 + n)"
  by (auto simp: hex_lower_def)

lemma hex_val_upper [simp]: "n < 16 \<Longrightarrow> hex_val (hex_upper n) = Some n"
  by (simp add: hex_val_def Let_def hex_upper_byte)

lemma hex_upper_not_plus: "n < 16 \<Longrightarrow> hex_upper n \<noteq> CHR ''+''"
  using hex_upper_byte [of n] by (auto split: if_splits)

lemma byte_nibbles: "byte c div 16 < 16" "byte c mod 16 < 16"
  using byte_less [of c] by (simp_all add: div_less_iff_less_mult)

lemma from_hex2_fmt [simp]:
  "from_hex2 (hex_upper (byte c div 16)) (hex_upper (byte c mod 16)) = Some c"
proof -
  have "16 * (byte c div 16) + byte c mod 16 = byte c" by simp
  with byte_nibbles show ?thesis by (simp add: from_hex2_def hex_upper_not_plus)
qed

section \<open>URI encoding and percent decoding\<close>

text \<open>The bytes an encoding consists of.\<close>

definition uri_byte :: "char \<Rightarrow> bool" where
  "uri_byte c \<longleftrightarrow> unreserved c \<or> c = CHR ''%''"

lemma unreserved_hex_upper: "n < 16 \<Longrightarrow> unreserved (hex_upper n)"
  by (auto simp: unreserved_def hex_upper_byte)

lemma unreserved_ascii: "unreserved c \<Longrightarrow> byte c < 128"
  by (auto simp: unreserved_def)

lemma unreserved_not [simp]:
  "\<not> unreserved (CHR ''%'')" "\<not> unreserved (CHR ''+'')" "\<not> unreserved (CHR ''/'')"
  "\<not> unreserved (CHR ''&'')" "\<not> unreserved (CHR ''='')" "\<not> unreserved (CHR '' '')"
  "\<not> unreserved (CHR ''?'')"
  by (simp_all add: unreserved_def)

lemma fmt_02X_unreserved: "x \<in> set (fmt_02X c) \<Longrightarrow> unreserved x"
  using byte_nibbles [of c] by (auto simp: fmt_02X_def unreserved_hex_upper)

lemma uri_encode_bytes:
  "c \<in> set (uri_encode bs es) \<Longrightarrow> uri_byte c \<or> \<not> es \<and> c = CHR ''/''"
  by (induction bs es rule: uri_encode.induct)
    (auto simp: uri_byte_def dest: fmt_02X_unreserved split: if_splits)

lemma uri_encode_no_slash [simp]: "CHR ''/'' \<notin> set (uri_encode bs True)"
  using uri_encode_bytes [of "CHR ''/''" bs True] by (auto simp: uri_byte_def)

lemma uri_encode_ascii [simp]: "ascii (uri_encode bs es)"
  using uri_encode_bytes [of _ bs es]
  by (fastforce simp: ascii_def list_all_iff uri_byte_def dest: unreserved_ascii)

lemma uri_encode_Nil_iff [simp]: "uri_encode bs es = [] \<longleftrightarrow> bs = []"
  by (cases bs) auto

lemma uri_encode_append [simp]: "uri_encode (a @ b) es = uri_encode a es @ uri_encode b es"
  by (induction a) auto

lemma uri_encode_unreserved: "list_all unreserved s \<Longrightarrow> uri_encode s es = s"
  by (induction s) auto

lemma percent_decode_plain:
  "c \<noteq> CHR ''%'' \<Longrightarrow> c \<noteq> CHR ''+'' \<Longrightarrow> percent_decode (c # s) = map_option ((#) c) (percent_decode s)"
  by simp

lemma ascii_not_cont: "byte c < 128 \<Longrightarrow> \<not> is_cont (byte c)"
  by (simp add: is_cont_def)

lemma percent_decode_escape:
  assumes "s = [] \<or> \<not> is_cont (byte (hd s))"
  shows "percent_decode (CHR ''%'' # fmt_02X c @ s) = map_option ((#) c) (percent_decode s)"
proof -
  have "unreserved (hex_upper (byte c div 16))"
    using fmt_02X_unreserved [of _ c] by (simp add: fmt_02X_def)
  then have "\<not> is_cont (byte (hex_upper (byte c div 16)))"
    by (intro ascii_not_cont unreserved_ascii)
  with assms show ?thesis by (cases s) (simp_all add: fmt_02X_def)
qed

lemma uri_encode_hd: "s \<noteq> [] \<Longrightarrow> \<not> is_cont (byte (hd (uri_encode s es)))"
  using uri_encode_ascii [of s es]
  by (cases "uri_encode s es") (auto simp del: uri_encode_ascii dest: ascii_not_cont)

lemma percent_decode_uri_encode: "percent_decode (uri_encode s es) = Some s"
proof (induction s)
  case (Cons c s)
  consider "unreserved c" | "\<not> unreserved c" "c = CHR ''/''" "\<not> es"
    | "\<not> unreserved c" "\<not> (c = CHR ''/'' \<and> \<not> es)" by blast
  then show ?case
  proof cases
    case 1
    then have "c \<noteq> CHR ''%''" "c \<noteq> CHR ''+''" by auto
    with 1 Cons show ?thesis by (simp add: percent_decode_plain del: percent_decode.simps)
  next
    case 2
    with Cons show ?thesis by simp
  next
    case 3
    have "uri_encode s es = [] \<or> \<not> is_cont (byte (hd (uri_encode s es)))"
      using uri_encode_hd by (cases "s = []") auto
    with Cons have "percent_decode (CHR ''%'' # fmt_02X c @ uri_encode s es) = Some (c # s)"
      using percent_decode_escape [of "uri_encode s es" c] by simp
    moreover have "uri_encode (c # s) es = CHR ''%'' # fmt_02X c @ uri_encode s es"
      using 3 by auto
    ultimately show ?thesis by (simp del: percent_decode.simps uri_encode.simps)
  qed
qed simp

text \<open>The decoder does not panic on ASCII input, and its output is no longer than its input.\<close>

lemma percent_decode_ascii: "ascii s \<Longrightarrow> \<exists>bs. percent_decode s = Some bs"
proof (induction s rule: percent_decode.induct)
  case (2 c s)
  then have asc: "ascii s" by simp
  then have nc: "i < length s \<Longrightarrow> \<not> is_cont (byte (s ! i))" for i
    by (auto simp: ascii_def list_all_length dest: ascii_not_cont)
  have "ascii (drop 2 s)" using asc by (metis append_take_drop_id ascii_simps(3))
  moreover have "\<not> is_cont (byte (s ! 0))" if "2 \<le> length s" using nc [of 0] that by (cases s) simp_all
  ultimately show ?case using 2 asc nc [of 2] by (auto split: option.splits)
qed simp

lemma percent_decode_length: "percent_decode s = Some bs \<Longrightarrow> length bs \<le> length s"
proof (induction s arbitrary: bs rule: percent_decode.induct)
  case (2 c s)
  then show ?case
    by (fastforce simp: map_option_Some_iff split: if_splits option.splits)
qed simp

section \<open>Encoders with a decoder\<close>

locale round_trip =
  fixes enc :: "'a \<Rightarrow> 'b" and dec :: "'b \<Rightarrow> 'a option" and valid :: "'a \<Rightarrow> bool"
  assumes dec_enc: "valid x \<Longrightarrow> dec (enc x) = Some x"
begin

lemma enc_eq_iff: "valid x \<Longrightarrow> valid y \<Longrightarrow> enc x = enc y \<longleftrightarrow> x = y"
  using dec_enc by (metis option.inject)

lemma inj_on_enc: "inj_on enc (Collect valid)"
  by (auto simp: inj_on_def enc_eq_iff)

end

interpretation uri_codec: round_trip "\<lambda>bs. uri_encode bs es" percent_decode "\<lambda>_. True" for es
  by unfold_locales (rule percent_decode_uri_encode)

section \<open>Comparison\<close>

lemma word_or_zero_iff: "(a OR b :: u8) = 0 \<longleftrightarrow> a = 0 \<and> b = 0"
  by (metis or_eq_0_iff)

lemma of_char_eq_word: "(of_char x :: u8) = word_of_nat (byte x)"
  by (metis of_nat_of_char)

lemma of_char_word_eq: "(of_char x :: u8) = of_char y \<longleftrightarrow> x = y"
proof
  assume "(of_char x :: u8) = of_char y"
  then have "(word_of_nat (byte x) :: u8) = word_of_nat (byte y)"
    by (simp add: of_char_eq_word)
  then have "unat (word_of_nat (byte x) :: u8) = unat (word_of_nat (byte y) :: u8)" by simp
  then show "x = y" by (simp add: unsigned_of_nat take_bit_nat_eq_self)
qed simp

lemma xor_zero_iff: "(a XOR b :: u8) = 0 \<longleftrightarrow> a = b"
  by (metis bit.xor_self xor.left_neutral xor.right_neutral xor.assoc)

lemma diff_fold:
  "fold (\<lambda>(x, y) diff. diff OR (of_char x XOR of_char y)) ps (d :: u8) = 0
   \<longleftrightarrow> d = 0 \<and> (\<forall>(x, y) \<in> set ps. x = y)"
  by (induction ps arbitrary: d) (auto simp: word_or_zero_iff xor_zero_iff of_char_word_eq)

lemma constant_time_eq_iff: "constant_time_eq a b \<longleftrightarrow> a = b"
proof (cases "length a = length b")
  case True
  then have "(\<forall>(x, y) \<in> set (zip a b). x = y) \<longleftrightarrow> a = b"
    by (induction a b rule: list_induct2) auto
  with True show ?thesis by (simp add: constant_time_eq_def diff_fold)
qed (auto simp: constant_time_eq_def)

section \<open>Properties\<close>

text \<open>C31. URI encoding is undone exactly by percent decoding, whatever the bytes and whether or not
  the slash is escaped; it is therefore injective, and its output consists of unreserved bytes,
  escapes and (for path encoding) slashes only.\<close>

theorem uri_encode_round_trip:
  "percent_decode (uri_encode bs es) = Some bs
   \<and> (uri_encode bs es = uri_encode bs' es \<longleftrightarrow> bs = bs')
   \<and> set (uri_encode bs es) \<subseteq> {c. unreserved c \<or> c = CHR ''%'' \<or> \<not> es \<and> c = CHR ''/''}"
proof (intro conjI)
  show "percent_decode (uri_encode bs es) = Some bs" by (rule percent_decode_uri_encode)
  show "uri_encode bs es = uri_encode bs' es \<longleftrightarrow> bs = bs'" by (rule uri_codec.enc_eq_iff) simp_all
  show "set (uri_encode bs es) \<subseteq> {c. unreserved c \<or> c = CHR ''%'' \<or> \<not> es \<and> c = CHR ''/''}"
    using uri_encode_bytes by (auto simp: uri_byte_def)
qed

text \<open>Percent decoding returns (does not panic) on every ASCII string, and never lengthens it.
  Outside ASCII it can panic: see \<open>percent_decode_panics\<close>.\<close>

theorem percent_decode_total_ascii:
  assumes "ascii s"
  shows "\<exists>bs. percent_decode s = Some bs \<and> length bs \<le> length s"
  using percent_decode_ascii [OF assms] percent_decode_length by blast

theorem percent_decode_total_ascii_witness:
  "ascii ''a%20b+c%zz%4'' \<and> (\<exists>bs. percent_decode ''a%20b+c%zz%4'' = Some bs \<and> length bs \<le> length ''a%20b+c%zz%4'')"
proof
  show a: "ascii ''a%20b+c%zz%4''" by (simp add: ascii_def)
  show "\<exists>bs. percent_decode ''a%20b+c%zz%4'' = Some bs \<and> length bs \<le> length ''a%20b+c%zz%4''"
    by (rule percent_decode_total_ascii [OF a])
qed

text \<open>
  The slice that reads the two digits of an escape ends inside the three-byte character U+20AC,
  so the decoder panics on \<^verbatim>\<open>%a\<close> followed by it.
\<close>

lemma percent_decode_panics:
  "utf8 (''%a'' @ [chr 226, chr 130, chr 172])"
  "percent_decode (''%a'' @ [chr 226, chr 130, chr 172]) = None"
  by code_simp+

text \<open>A sign is accepted where a hexadecimal digit is expected.\<close>

lemma percent_decode_plus_digit: "percent_decode ''%+f'' = Some [chr 15]"
  by code_simp

text \<open>The comparison that reads every byte decides exactly equality of byte strings.\<close>

theorem constant_time_eq_decides_equality: "constant_time_eq a b \<longleftrightarrow> a = b"
  by (rule constant_time_eq_iff)

end
