(* ===== verification/Civil.thy ===== *)
theory Civil
  imports Codec
begin

text \<open>
  The calendar of \<^verbatim>\<open>gateway/src/sigv4.rs\<close>: the conversions between days since the Unix epoch and
  civil dates, and the SigV4 timestamps built on them. \<^verbatim>\<open>i64\<close> values are \<open>int\<close> (every
  intermediate value of these functions fits in 64 bits on the inputs they are called with);
  Rust's \<open>/\<close> truncates towards zero, which is \<open>sdiv\<close>; a cast to \<^verbatim>\<open>u32\<close> is written out.
\<close>

section \<open>Definitions\<close>

definition as_u32 :: "int \<Rightarrow> int" where
  "as_u32 i = i mod 2 ^ 32"

definition civil_from_days :: "int \<Rightarrow> int \<times> int \<times> int" where
  "civil_from_days z0 =
     (let z = z0 + 719468;
          era = (if 0 \<le> z then z else z - 146096) sdiv 146097;
          doe = z - era * 146097;
          yoe = (doe - doe sdiv 1460 + doe sdiv 36524 - doe sdiv 146096) sdiv 365;
          y = yoe + era * 400;
          doy = doe - (365 * yoe + yoe sdiv 4 - yoe sdiv 100);
          mp = (5 * doy + 2) sdiv 153;
          d = as_u32 (doy - (153 * mp + 2) sdiv 5 + 1);
          m = as_u32 (if mp < 10 then mp + 3 else mp - 9)
      in (if m \<le> 2 then y + 1 else y, m, d))"

definition days_from_civil :: "int \<Rightarrow> int \<Rightarrow> int \<Rightarrow> int" where
  "days_from_civil y0 m d =
     (let y = (if m \<le> 2 then y0 - 1 else y0);
          era = (if 0 \<le> y then y else y - 399) sdiv 400;
          yoe = y - era * 400;
          mp = (if 2 < m then m - 3 else m + 9);
          doy = (153 * mp + 2) sdiv 5 + d - 1;
          doe = yoe * 365 + yoe sdiv 4 - yoe sdiv 100 + doy
      in era * 146097 + doe - 719468)"

text \<open>The quotient by 1000 is below \<open>2 ^ 63\<close>, so its cast to \<^verbatim>\<open>i64\<close> keeps its value.\<close>

definition format_amz_datetime :: "u64 \<Rightarrow> string \<times> string" where
  "format_amz_datetime epoch_ms =
     (let secs = uint (epoch_ms div 1000);
          days = secs div 86400;
          tod = secs mod 86400;
          h = tod sdiv 3600; mi = (tod smod 3600) sdiv 60; s = tod smod 60;
          (y, m, d) = civil_from_days days;
          date = fmt_0 4 y @ fmt_0 2 m @ fmt_0 2 d
      in (date @ ''T'' @ fmt_0 2 h @ fmt_0 2 mi @ fmt_0 2 s @ ''Z'', date))"

definition parse_amz_datetime :: "string \<Rightarrow> u64 option" where
  "parse_amz_datetime s =
     (if length s \<noteq> 16 \<or> s ! 8 \<noteq> CHR ''T'' \<or> s ! 15 \<noteq> CHR ''Z'' then None
      else
        let num = (\<lambda>a z. Option.bind (str_get s a z) parse_i64) in
        do {
          y \<leftarrow> num 0 4; mo \<leftarrow> num 4 6; d \<leftarrow> num 6 8;
          h \<leftarrow> num 9 11; mi \<leftarrow> num 11 13; se \<leftarrow> num 13 15;
          if \<not> (1 \<le> mo \<and> mo \<le> 12) \<or> \<not> (1 \<le> d \<and> d \<le> 31) \<or> 23 < h \<or> 59 < mi \<or> 60 < se then None
          else
            let days = days_from_civil y (as_u32 mo) (as_u32 d);
                secs = days * 86400 + h * 3600 + mi * 60 + se
            in if 0 \<le> secs * 1000 \<and> secs * 1000 < 2 ^ 64 then Some (word_of_int (secs * 1000)) else None
        })"

section \<open>Truncating division\<close>

lemma sdiv_nonneg: "0 \<le> a \<Longrightarrow> 0 < b \<Longrightarrow> a sdiv b = a div (b :: int)"
  by (simp add: signed_divide_int_def sgn_if) 

lemma smod_nonneg: "0 \<le> a \<Longrightarrow> 0 < b \<Longrightarrow> a smod b = a mod (b :: int)"
  by (simp add: signed_modulo_int_def sgn_if)

text \<open>The adjustment before a truncating division makes it round towards minus infinity.\<close>

lemma floor_by_sdiv:
  assumes "0 < b"
  and "k = b - 1"
  shows "(if 0 \<le> z then z else z - k) sdiv b = z div (b :: int)"
proof (cases "0 \<le> z")
  case False
  have "(z - (b - 1)) sdiv b = - ((b - 1 - z) div b)"
    using False assms(1) by (simp add: signed_divide_int_def sgn_if)
  also have "\<dots> = z div b"
    using assms by (smt (verit, best) minus_div_mult_eq_mod mod_pos_pos_trivial pos_mod_bound pos_mod_sign
        int_div_pos_eq minus_mult_left mult.commute)
  finally show ?thesis using False assms(2) by simp
qed (use assms in \<open>simp add: sdiv_nonneg\<close>)

lemma as_u32_id: "0 \<le> i \<Longrightarrow> i < 2 ^ 32 \<Longrightarrow> as_u32 i = i"
  by (simp add: as_u32_def)

lemma div_upper: "0 < b \<Longrightarrow> a < c * b \<Longrightarrow> a div b < (c :: int)"
  using zdiv_mono1 [of "c * b" a b] mult_div_mod_eq [of b a] pos_mod_sign [of b a]
  by (metis linorder_not_le mult.commute mult_le_cancel_left_pos order_le_less_trans le_add_same_cancel1)

lemma div_lower: "0 < b \<Longrightarrow> c * b \<le> a \<Longrightarrow> c \<le> a div (b :: int)"
  using zdiv_mono1 [of "c * b" a b] by simp

lemma div_exact: "a = b * q + r \<Longrightarrow> 0 \<le> r \<Longrightarrow> r < b \<Longrightarrow> a div b = (q :: int)"
  by (simp add: int_div_pos_eq)

lemma div_bounds: "0 < b \<Longrightarrow> b * (a div b) \<le> a" "0 < b \<Longrightarrow> a < b * (a div b) + (b :: int)"
  using mult_div_mod_eq [of b a] pos_mod_sign [of b a] pos_mod_bound [of b a] by linarith+

lemma minus_div_mono:
  assumes "a \<le> b" "0 < n"
  shows "a - a div n \<le> b - b div (n :: int)"
proof -
  have "(b - a) * 1 \<le> (b - a) * n" using assms by (intro mult_left_mono) auto
  then have "b div n \<le> (a + (b - a) * n) div n" using assms by (intro zdiv_mono1) auto
  then show ?thesis using assms by simp
qed

section \<open>The year of an era\<close>

text \<open>
  The first day of year \<open>y\<close> of an era (years start in March), and the estimate of the year from
  the day of the era, before its division by 365.
\<close>

definition year_start :: "int \<Rightarrow> int" where
  "year_start y = 365 * y + y div 4 - y div 100"

definition year_est :: "int \<Rightarrow> int" where
  "year_est d = d - d div 1460 + d div 36524"

lemma year_est_mono: "a \<le> b \<Longrightarrow> year_est a \<le> year_est b"
proof -
  assume "a \<le> b"
  then have "a - a div 1460 \<le> b - b div 1460" by (rule minus_div_mono) simp
  moreover have "a div 36524 \<le> b div 36524" using \<open>a \<le> b\<close> by (simp add: zdiv_mono1)
  ultimately show ?thesis unfolding year_est_def by linarith
qed

lemma year_digits:
  assumes "0 \<le> y"
  obtains q u v :: int where "y = 100 * q + 4 * u + v" "0 \<le> q" "0 \<le> u" "u \<le> 24" "0 \<le> v" "v \<le> 3"
proof
  show "y = 100 * (y div 100) + 4 * (y mod 100 div 4) + y mod 100 mod 4" by simp
  show "0 \<le> y div 100" using assms by (simp add: pos_imp_zdiv_nonneg_iff)
  show "0 \<le> y mod 100 div 4" by (simp add: pos_imp_zdiv_nonneg_iff)
  show "y mod 100 div 4 \<le> 24" using div_upper [of 4 "y mod 100" 25] by simp
  show "y mod 100 mod 4 \<le> 3" using pos_mod_bound [of 4 "y mod 100"] by linarith
qed simp_all

lemma year_start_digits:
  assumes "0 \<le> u" "u \<le> 24" "0 \<le> v" "v \<le> 3"
  shows "year_start (100 * q + 4 * u + v) = 36524 * q + 1461 * u + 365 * v"
proof -
  have "(100 * q + 4 * u + v) div 4 = 25 * q + u" "(100 * q + 4 * u + v) div 100 = q"
    using assms by (auto intro!: div_exact [where r = v] div_exact [where r = "4 * u + v"])
  then show ?thesis by (simp add: year_start_def)
qed

lemma year_est_start:
  assumes "0 \<le> y" "y \<le> 399"
  shows "365 * y \<le> year_est (year_start y)" "year_est (year_start y - 1) < 365 * y"
proof -
  obtain q u v where y: "y = 100 * q + 4 * u + v" "0 \<le> q" "0 \<le> u" "u \<le> 24" "0 \<le> v" "v \<le> 3"
    using year_digits [OF assms(1)] .
  let ?d = "36524 * q + 1461 * u + 365 * v"
  have d: "year_start y = ?d" using year_start_digits [OF y(3-6)] unfolding y(1) .
  have q: "q \<le> 3" using y assms by linarith
  have "?d div 36524 = q" using y by (intro div_exact [where r = "1461 * u + 365 * v"]) auto
  moreover have "?d div 1460 < 25 * q + u + 1" using y q by (intro div_upper) auto
  ultimately show "365 * y \<le> year_est (year_start y)" unfolding d year_est_def using y(1) by linarith
  show "year_est (year_start y - 1) < 365 * y"
  proof (cases "u = 0 \<and> v = 0")
    case True
    then have "(?d - 1) div 36524 = q - 1" by (intro div_exact [where r = 36523]) auto
    moreover have "25 * q - 1 \<le> (?d - 1) div 1460" using y True by (intro div_lower) auto
    ultimately show ?thesis using True unfolding d year_est_def using y(1) by linarith
  next
    case False
    then have pos: "1 \<le> 1461 * u + 365 * v" using y by auto
    have "(?d - 1) div 36524 = q"
      using y pos by (intro div_exact [where r = "1461 * u + 365 * v - 1"]) auto
    moreover have "25 * q + u \<le> (?d - 1) div 1460" using y False by (intro div_lower) auto
    ultimately show ?thesis using y unfolding d year_est_def using y(1) by linarith
  qed
qed

lemma year_start_mono: "a \<le> b \<Longrightarrow> year_start a \<le> year_start b"
proof -
  assume "a \<le> b"
  then have "a - a div 100 \<le> b - b div 100" by (rule minus_div_mono) simp
  moreover have "a div 4 \<le> b div 4" using \<open>a \<le> b\<close> by (simp add: zdiv_mono1)
  ultimately show ?thesis using \<open>a \<le> b\<close> unfolding year_start_def by linarith
qed

lemma year_start_ends: "year_start 0 = 0" "year_start 399 = 145731" "year_start 400 = 146096"
  by (simp_all add: year_start_def)

text \<open>The year of the era is exactly the one whose days contain the day of the era.\<close>

definition year_of_era :: "int \<Rightarrow> int" where
  "year_of_era doe = (doe - doe div 1460 + doe div 36524 - doe div 146096) div 365"

lemma year_of_era_last: "year_of_era 146096 = 399"
  by (simp add: year_of_era_def)

lemma year_of_era_est: "0 \<le> doe \<Longrightarrow> doe < 146096 \<Longrightarrow> year_of_era doe = year_est doe div 365"
  by (simp add: year_of_era_def year_est_def)

lemma year_of_era_eq:
  assumes "0 \<le> y" "y \<le> 399" "year_start y \<le> doe" "doe < year_start (y + 1) \<or> y = 399 \<and> doe = 146096"
  shows "year_of_era doe = y"
proof (cases "doe = 146096")
  case False
  have "365 * y \<le> year_est doe"
    using year_est_start(1) [OF assms(1,2)] year_est_mono [OF assms(3)] by linarith
  moreover have "year_est doe < 365 * (y + 1)"
  proof (cases "y = 399")
    case True
    then have "doe \<le> 146095" using assms(4) False by (auto simp: year_start_def)
    from year_est_mono [OF this] show ?thesis using True by (simp add: year_est_def)
  next
    case f: False
    then have "doe \<le> year_start (y + 1) - 1" using assms(4) by auto
    from year_est_mono [OF this] show ?thesis using year_est_start(2) [of "y + 1"] f assms(1,2) by auto
  qed
  moreover have "0 \<le> year_start y" using year_start_mono [OF assms(1)] by (simp add: year_start_ends)
  moreover have "doe < 146096"
    using year_start_mono [of "y + 1" 400] assms(2,4) False by (auto simp: year_start_ends)
  ultimately show ?thesis using assms(3) year_of_era_est [of doe] by (simp add: int_div_pos_eq)
next
  case True
  have "y = 399"
  proof (rule ccontr)
    assume "y \<noteq> 399"
    then have "year_start (y + 1) \<le> 146096"
      using year_start_mono [of "y + 1" 400] assms(2) by (simp add: year_start_ends)
    with assms(4) True \<open>y \<noteq> 399\<close> show False by simp
  qed
  with True year_of_era_last show ?thesis by simp
qed

lemma year_of_era_bounds:
  assumes "0 \<le> doe" "doe \<le> 146096"
  defines "y \<equiv> year_of_era doe"
  shows "0 \<le> y" "y \<le> 399" "year_start y \<le> doe" "doe < year_start (y + 1) \<or> y = 399 \<and> doe = 146096"
proof -
  have "0 \<le> y \<and> y \<le> 399 \<and> year_start y \<le> doe \<and> (doe < year_start (y + 1) \<or> y = 399 \<and> doe = 146096)"
  proof (cases "doe = 146096")
    case True
    then show ?thesis by (simp add: y_def year_of_era_last year_start_ends)
  next
    case False
    then have y: "y = year_est doe div 365" using assms by (simp add: year_of_era_est)
    have e: "365 * y \<le> year_est doe" "year_est doe < 365 * (y + 1)"
      using div_bounds [of 365 "year_est doe"] unfolding y by simp_all
    have b: "0 \<le> year_est doe" "year_est doe \<le> 145999"
      using year_est_mono [of 0 doe] year_est_mono [of doe 146095] assms False by (simp_all add: year_est_def)
    have y0: "0 \<le> y" "y \<le> 399" using e b by (simp_all add: y_def)
    have "year_start y \<le> doe"
    proof (rule ccontr)
      assume "\<not> year_start y \<le> doe"
      then have "year_est doe \<le> year_est (year_start y - 1)" by (intro year_est_mono) simp
      with year_est_start(2) [OF y0] e show False by simp
    qed
    moreover have "doe < year_start (y + 1)"
    proof (cases "y = 399")
      case True
      with assms(1,2) False show ?thesis by (simp add: year_start_ends)
    next
      case f: False
      show ?thesis
      proof (rule ccontr)
        assume "\<not> doe < year_start (y + 1)"
        then have "year_est (year_start (y + 1)) \<le> year_est doe" by (intro year_est_mono) simp
        with year_est_start(1) [of "y + 1"] y0 f e show False by simp
      qed
    qed
    ultimately show ?thesis using y0 by blast
  qed
  then show "0 \<le> y" "y \<le> 399" "year_start y \<le> doe" "doe < year_start (y + 1) \<or> y = 399 \<and> doe = 146096"
    by auto
qed

section \<open>Days and civil dates\<close>

text \<open>
  A day of the year (counted from the first of March), its month (0 is March) and its day of the
  month.
\<close>

lemma month_of_day:
  fixes doy :: int
  assumes "0 \<le> doy" "doy \<le> 365"
  defines "mp \<equiv> (5 * doy + 2) div 153"
  shows "0 \<le> mp" "mp \<le> 11" "0 \<le> doy - (153 * mp + 2) div 5" "doy - (153 * mp + 2) div 5 \<le> 30"
proof -
  show "0 \<le> mp" using assms by (simp add: mp_def pos_imp_zdiv_nonneg_iff)
  show "mp \<le> 11" using div_upper [of 153 "5 * doy + 2" 12] assms by (simp add: mp_def)
  have "153 * mp \<le> 5 * doy + 2" "5 * doy + 2 < 153 * mp + 153"
    unfolding mp_def by (intro div_bounds; simp)+
  moreover have "5 * ((153 * mp + 2) div 5) \<le> 153 * mp + 2" "153 * mp + 2 < 5 * ((153 * mp + 2) div 5) + 5"
    by (intro div_bounds; simp)+
  ultimately show "0 \<le> doy - (153 * mp + 2) div 5" "doy - (153 * mp + 2) div 5 \<le> 30"
    by linarith+
qed

text \<open>The conversions over floor division, with the day of the era and the year of the era named.\<close>

definition era_of :: "int \<Rightarrow> int" where
  "era_of z = (z + 719468) div 146097"

definition day_of_era :: "int \<Rightarrow> int" where
  "day_of_era z = (z + 719468) mod 146097"

definition day_of_year :: "int \<Rightarrow> int" where
  "day_of_year doe = doe - year_start (year_of_era doe)"

lemma day_of_era_bounds: "0 \<le> day_of_era z" "day_of_era z \<le> 146096"
  using pos_mod_bound [of 146097 "z + 719468"] by (auto simp: day_of_era_def)

lemma day_of_year_bounds:
  assumes "0 \<le> doe" "doe \<le> 146096"
  shows "0 \<le> day_of_year doe" "day_of_year doe \<le> 365"
proof -
  let ?y = "year_of_era doe"
  note b = year_of_era_bounds [OF assms]
  show "0 \<le> day_of_year doe" using b by (simp add: day_of_year_def)
  have "(?y + 1) div 4 \<le> ?y div 4 + 1" "?y div 100 \<le> (?y + 1) div 100"
    by (simp_all add: zdiv_mono1)
  then have "year_start (?y + 1) \<le> year_start ?y + 366" by (simp add: year_start_def)
  with b show "day_of_year doe \<le> 365" by (auto simp: day_of_year_def year_start_ends)
qed

lemma civil_from_days_floor:
  fixes z
  defines "doe \<equiv> day_of_era z"
  defines "mp \<equiv> (5 * day_of_year doe + 2) div 153"
  defines "y \<equiv> year_of_era doe + era_of z * 400"
  shows "civil_from_days z =
     (if mp < 10 then y else y + 1, if mp < 10 then mp + 3 else mp - 9,
      day_of_year doe - (153 * mp + 2) div 5 + 1)"
proof -
  note b = day_of_era_bounds [of z, folded doe_def]
  note yb = year_of_era_bounds [OF b]
  note db = day_of_year_bounds [OF b]
  note mb = month_of_day [OF db, folded mp_def]
  have era: "(if 0 \<le> z + 719468 then z + 719468 else z + 719468 - 146096) sdiv 146097 = era_of z"
    unfolding era_of_def by (rule floor_by_sdiv) simp_all
  have doe: "z + 719468 - era_of z * 146097 = doe"
    by (simp add: doe_def day_of_era_def era_of_def minus_div_mult_eq_mod)
  have yoe: "(doe - doe sdiv 1460 + doe sdiv 36524 - doe sdiv 146096) sdiv 365 = year_of_era doe"
  proof -
    have "0 \<le> doe - doe div 1460 + doe div 36524 - doe div 146096"
      using yb(1) unfolding year_of_era_def by (simp add: pos_imp_zdiv_nonneg_iff)
    then show ?thesis using b by (simp add: sdiv_nonneg year_of_era_def)
  qed
  have doy: "doe - (365 * year_of_era doe + year_of_era doe sdiv 4 - year_of_era doe sdiv 100)
      = day_of_year doe"
    using yb by (simp add: sdiv_nonneg day_of_year_def year_start_def)
  have mp: "(5 * day_of_year doe + 2) sdiv 153 = mp" using db by (simp add: sdiv_nonneg mp_def)
  have dd: "(153 * mp + 2) sdiv 5 = (153 * mp + 2) div 5" using mb by (simp add: sdiv_nonneg)
  show ?thesis
    unfolding civil_from_days_def Let_def era doe yoe doy mp dd
    using mb by (auto simp: as_u32_id y_def)
qed

lemma days_from_civil_floor:
  assumes "0 \<le> mp" "mp \<le> 11" "0 \<le> yoe" "yoe \<le> 399"
    and "y = (if mp < 10 then 400 * era + yoe else 400 * era + yoe + 1)"
    and "m = (if mp < 10 then mp + 3 else mp - 9)"
  shows "days_from_civil y m d = era * 146097 + year_start yoe + (153 * mp + 2) div 5 + d - 1 - 719468"
proof -
  let ?y = "400 * era + yoe"
  have m: "(m \<le> 2) = (10 \<le> mp)" "(if 2 < m then m - 3 else m + 9) = mp" using assms by auto
  have y: "(if m \<le> 2 then y - 1 else y) = ?y" using assms m(1) by auto
  have "(if 0 \<le> ?y then ?y else ?y - 399) sdiv 400 = ?y div 400"
    by (rule floor_by_sdiv) simp_all
  also have "\<dots> = era" using assms by (intro div_exact [where r = yoe]) auto
  finally have era: "(if 0 \<le> ?y then ?y else ?y - 399) sdiv 400 = era" .
  show ?thesis
    unfolding days_from_civil_def Let_def y era m(2)
    using assms by (simp add: sdiv_nonneg year_start_def)
qed

lemma civil_from_daysE:
  assumes "civil_from_days z = (y, m, d)"
  obtains mp where "mp = (5 * day_of_year (day_of_era z) + 2) div 153" "0 \<le> mp" "mp \<le> 11"
    "y = (if mp < 10 then 400 * era_of z + year_of_era (day_of_era z)
          else 400 * era_of z + year_of_era (day_of_era z) + 1)"
    "m = (if mp < 10 then mp + 3 else mp - 9)"
    "d = day_of_year (day_of_era z) - (153 * mp + 2) div 5 + 1" "1 \<le> d" "d \<le> 31"
proof -
  define mp where "mp = (5 * day_of_year (day_of_era z) + 2) div 153"
  note c = assms [unfolded civil_from_days_floor, folded mp_def]
  note b = month_of_day [OF day_of_year_bounds [OF day_of_era_bounds [of z]], folded mp_def]
  have d: "d = day_of_year (day_of_era z) - (153 * mp + 2) div 5 + 1" using c by simp
  show thesis
  proof (rule that [OF mp_def b(1,2) _ _ d])
    show "1 \<le> d" "d \<le> 31" using b(3,4) unfolding d by simp_all
  qed (use c in auto)
qed

lemma days_of_civil:
  assumes "civil_from_days z = (y, m, d)"
  shows "days_from_civil y m d = z"
proof -
  obtain mp where mp: "0 \<le> mp" "mp \<le> 11"
    "y = (if mp < 10 then 400 * era_of z + year_of_era (day_of_era z)
          else 400 * era_of z + year_of_era (day_of_era z) + 1)"
    "m = (if mp < 10 then mp + 3 else mp - 9)"
    and d: "d = day_of_year (day_of_era z) - (153 * mp + 2) div 5 + 1"
    using civil_from_daysE [OF assms] by metis
  have z: "z + 719468 = era_of z * 146097 + day_of_era z"
    unfolding era_of_def day_of_era_def by (rule div_mult_mod_eq [symmetric])
  have "days_from_civil y m d = era_of z * 146097 + year_start (year_of_era (day_of_era z))
      + (153 * mp + 2) div 5 + d - 1 - 719468"
    by (rule days_from_civil_floor [OF mp(1,2) year_of_era_bounds(1,2) [OF day_of_era_bounds] mp(3,4)])
  also have "\<dots> = era_of z * 146097 + day_of_era z - 719468"
    unfolding d day_of_year_def by simp
  finally show ?thesis using z by simp
qed

text \<open>The other direction needs a date of the calendar.\<close>

definition leap_year :: "int \<Rightarrow> bool" where
  "leap_year y \<longleftrightarrow> y mod 4 = 0 \<and> (y mod 100 \<noteq> 0 \<or> y mod 400 = 0)"

definition month_days :: "int \<Rightarrow> int \<Rightarrow> int" where
  "month_days y m =
     (if m = 2 then if leap_year y then 29 else 28
      else if m = 4 \<or> m = 6 \<or> m = 9 \<or> m = 11 then 30 else 31)"

definition civil_date :: "int \<Rightarrow> int \<Rightarrow> int \<Rightarrow> bool" where
  "civil_date y m d \<longleftrightarrow> 1 \<le> m \<and> m \<le> 12 \<and> 1 \<le> d \<and> d \<le> month_days y m"

text \<open>Month \<open>mp\<close> of a year that starts in March has at most this many days (February last).\<close>

lemma day_of_month:
  assumes "0 \<le> mp" "mp \<le> 11" "0 \<le> k" "k < month_days y (if mp < 10 then mp + 3 else mp - 9)"
  shows "(5 * ((153 * mp + 2) div 5 + k) + 2) div 153 = mp"
    "(153 * mp + 2) div 5 + k \<le> (if leap_year y then 365 else 364)"
proof -
  have "mp \<in> {0, 1, 2, 3, 4, 5, 6, 7, 8, 9, 10, 11}" using assms(1,2) by simp presburger
  then show "(5 * ((153 * mp + 2) div 5 + k) + 2) div 153 = mp"
    using assms(3,4) by (auto simp: month_days_def split: if_splits intro!: int_div_pos_eq)
  show "(153 * mp + 2) div 5 + k \<le> (if leap_year y then 365 else 364)"
    using \<open>mp \<in> _\<close> assms(3,4) by (auto simp: month_days_def split: if_splits)
qed

lemma div_succ:
  fixes b n :: int
  assumes "0 < b"
  shows "(n + 1) div b = n div b + (if (n + 1) mod b = 0 then 1 else 0)"
proof -
  let ?q = "(n + 1) div b" and ?r = "(n + 1) mod b"
  have n: "n + 1 = b * ?q + ?r" "0 \<le> ?r" "?r < b" using assms by simp_all
  show ?thesis
  proof (cases "?r = 0")
    case True
    then have "n = b * (?q - 1) + (b - 1)" using n(1) by (simp add: right_diff_distrib)
    then have "n div b = ?q - 1" using assms by (intro div_exact [where r = "b - 1"]) auto
    with True show ?thesis by simp
  next
    case False
    then have "n div b = ?q" using n by (intro div_exact [where r = "?r - 1"]) linarith+
    with False show ?thesis by simp
  qed
qed

lemma year_length:
  assumes "0 \<le> n" "n < 399"
  shows "year_start (n + 1) = year_start n + (if leap_year (400 * era + n + 1) then 366 else 365)"
proof -
  have "(400 * era + n + 1) mod 4 = (n + 1) mod 4" "(400 * era + n + 1) mod 100 = (n + 1) mod 100"
    "(400 * era + n + 1) mod 400 = (n + 1) mod 400"
    using mod_mult_self1 [of "n + 1" "100 * era" 4] mod_mult_self1 [of "n + 1" "4 * era" 100]
      mod_mult_self1 [of "n + 1" era 400] by (simp_all add: ac_simps)
  moreover have "(n + 1) mod 400 = n + 1" using assms by (intro mod_pos_pos_trivial) auto
  ultimately have l: "leap_year (400 * era + n + 1) \<longleftrightarrow> (n + 1) mod 4 = 0 \<and> (n + 1) mod 100 \<noteq> 0"
    using assms unfolding leap_year_def by simp
  have "4 dvd n + 1" if "100 dvd n + 1" using dvd_trans [of 4 100 "n + 1"] that by simp
  then have "(n + 1) mod 4 = 0" if "(n + 1) mod 100 = 0" using that by (simp only: dvd_eq_mod_eq_0 [symmetric])
  with l show ?thesis
    unfolding year_start_def div_succ [of 4 n, simplified] div_succ [of 100 n, simplified]
    by (simp split: if_split)
qed

lemma civil_of_days:
  assumes "civil_date y m d"
  shows "civil_from_days (days_from_civil y m d) = (y, m, d)"
proof -
  define mp where "mp = (if 2 < m then m - 3 else m + 9)"
  define y' where "y' = (if m \<le> 2 then y - 1 else y)"
  define era where "era = y' div 400"
  define yoe where "yoe = y' mod 400"
  define doy where "doy = (153 * mp + 2) div 5 + (d - 1)"
  have m: "1 \<le> m" "m \<le> 12" and d: "1 \<le> d" "d \<le> month_days y m"
    using assms by (auto simp: civil_date_def)
  have mp: "0 \<le> mp" "mp \<le> 11" "m = (if mp < 10 then mp + 3 else mp - 9)" "(m \<le> 2) = (10 \<le> mp)"
    using m by (auto simp: mp_def)
  have y': "y' = 400 * era + yoe" "0 \<le> yoe" "yoe \<le> 399"
    using pos_mod_bound [of 400 y'] by (auto simp: era_def yoe_def)
  have "d - 1 < month_days (y' + 1) (if mp < 10 then mp + 3 else mp - 9)"
    using d m unfolding mp(3) [symmetric] by (auto simp: month_days_def y'_def split: if_splits)
  then have dm: "(5 * doy + 2) div 153 = mp" "doy \<le> (if leap_year (y' + 1) then 365 else 364)"
    unfolding doy_def using day_of_month [OF mp(1,2), of "d - 1" "y' + 1"] d by auto
  have doy0: "0 \<le> doy" using mp d by (simp add: doy_def pos_imp_zdiv_nonneg_iff)
  have rng: "year_start yoe + doy < year_start (yoe + 1) \<or> yoe = 399 \<and> year_start yoe + doy = 146096"
    "year_start yoe + doy \<le> 146096"
  proof -
    show "year_start yoe + doy < year_start (yoe + 1) \<or> yoe = 399 \<and> year_start yoe + doy = 146096"
      using year_length [of yoe era] y' dm(2) by (cases "yoe = 399") (auto simp: year_start_ends split: if_splits)
    then show "year_start yoe + doy \<le> 146096"
      using year_start_mono [of "yoe + 1" 400] y' by (auto simp: year_start_ends)
  qed
  let ?z = "days_from_civil y m d"
  have yy: "y = (if mp < 10 then 400 * era + yoe else 400 * era + yoe + 1)"
    using mp y' by (auto simp: y'_def)
  have z: "?z + 719468 = 146097 * era + (year_start yoe + doy)"
    using days_from_civil_floor [OF mp(1,2) y'(2,3) yy mp(3), of d] by (simp add: doy_def)
  have s0: "0 \<le> year_start yoe" using year_start_mono [OF y'(2)] by (simp add: year_start_ends)
  have e: "era_of ?z = era"
    unfolding era_of_def z using s0 doy0 rng by (intro div_exact [where r = "year_start yoe + doy"]) auto
  have de: "day_of_era ?z = year_start yoe + doy"
    using z e mult_div_mod_eq [of 146097 "?z + 719468"] unfolding day_of_era_def era_of_def by linarith
  have yo: "year_of_era (year_start yoe + doy) = yoe"
    using y' doy0 rng by (intro year_of_era_eq) auto
  have dy: "day_of_year (year_start yoe + doy) = doy" by (simp add: day_of_year_def yo)
  show ?thesis
    unfolding civil_from_days_floor de dy yo e dm(1)
    using mp(3) yy by (auto simp: doy_def)
qed

section \<open>Timestamps\<close>

lemma civil_from_days_ranges:
  assumes "civil_from_days z = (y, m, d)"
  shows "1 \<le> m" "m \<le> 12" "1 \<le> d" "d \<le> 31" "400 * era_of z \<le> y" "y \<le> 400 * era_of z + 400"
proof -
  obtain mp where c: "y = (if mp < 10 then 400 * era_of z + year_of_era (day_of_era z)
          else 400 * era_of z + year_of_era (day_of_era z) + 1)"
    "m = (if mp < 10 then mp + 3 else mp - 9)" "0 \<le> mp" "mp \<le> 11"
    and "1 \<le> d" "d \<le> 31" using civil_from_daysE [OF assms] by metis
  then show "1 \<le> m" "m \<le> 12" "1 \<le> d" "d \<le> 31" by simp_all
  show "400 * era_of z \<le> y" "y \<le> 400 * era_of z + 400"
    using year_of_era_bounds(1,2) [OF day_of_era_bounds [of z]] unfolding c(1) by simp_all
qed

text \<open>The last day of the year 9999.\<close>

lemma civil_year_four_digits:
  assumes "0 \<le> z" "z \<le> 2932896" "civil_from_days z = (y, m, d)"
  shows "1000 \<le> y" "y \<le> 9999"
proof -
  have e: "4 \<le> era_of z" "era_of z \<le> 24"
    using assms(1,2) div_lower [of 146097 4 "z + 719468"] div_upper [of 146097 "z + 719468" 25]
    by (simp_all add: era_of_def)
  then show "1000 \<le> y" using civil_from_days_ranges [OF assms(3)] by linarith
  show "y \<le> 9999"
  proof (rule ccontr)
    assume "\<not> y \<le> 9999"
    with e civil_from_days_ranges [OF assms(3)] have y: "y = 10000" "era_of z = 24" by linarith+
    let ?doe = "day_of_era z"
    let ?mp = "(5 * day_of_year ?doe + 2) div 153"
    obtain mp where mp: "mp = ?mp" "y = (if mp < 10 then 400 * era_of z + year_of_era ?doe
          else 400 * era_of z + year_of_era ?doe + 1)"
      using civil_from_daysE [OF assms(3)] by metis
    have yo: "year_of_era ?doe = 399" "10 \<le> ?mp"
      using year_of_era_bounds(2) [OF day_of_era_bounds [of z]] mp(2) unfolding mp(1) [symmetric] y
      by (simp_all split: if_splits)
    have "?doe \<le> 146036"
      using mult_div_mod_eq [of 146097 "z + 719468"] y assms(2)
      unfolding day_of_era_def era_of_def by linarith
    then have "day_of_year ?doe \<le> 305" by (simp add: day_of_year_def yo year_start_ends)
    then have "?mp < 10" by (intro div_upper) auto
    with yo show False by simp
  qed
qed

text \<open>Decimal digits.\<close>

definition digit :: "nat \<Rightarrow> char" where
  "digit n = chr (48 + n)"

lemma digit_simps [simp]:
  assumes "n < 10"
  shows "byte (digit n) = 48 + n" "\<not> is_cont (byte (digit n))" "dec_val (digit n) = Some n"
    "digit n \<noteq> CHR ''+''" "digit n \<noteq> CHR ''-''"
proof -
  show b: "byte (digit n) = 48 + n" using assms by (simp add: digit_def)
  show "\<not> is_cont (byte (digit n))" "dec_val (digit n) = Some n"
    using assms unfolding b by (simp_all add: is_cont_def dec_val_def b)
  show "digit n \<noteq> CHR ''+''" "digit n \<noteq> CHR ''-''" using b by auto
qed

lemma zero_digit: "CHR ''0'' = digit 0"
  by (rule of_char_eqI [where 'a = nat]) (simp add: digit_def)

lemma fmt_0_2:
  assumes "0 \<le> i" "i < 100"
  shows "fmt_0 2 i = [digit (nat i div 10), digit (nat i mod 10)]"
proof -
  have "nat i < 100" using assms by simp
  then show ?thesis using assms
    by (cases "nat i < 10") (simp_all add: fmt_0_def pad0_def dec.simps [of "nat i"] dec.simps [of "nat i div 10"] zero_digit digit_def
        div_less_iff_less_mult numeral_2_eq_2)
qed

lemma fmt_0_4:
  assumes "1000 \<le> i" "i \<le> 9999"
  shows "fmt_0 4 i = [digit (nat i div 1000), digit (nat i div 100 mod 10), digit (nat i div 10 mod 10), digit (nat i mod 10)]"
proof -
  define n where "n = nat i"
  have n: "1000 \<le> n" "n \<le> 9999" using assms by (simp_all add: n_def)
  then have "10 \<le> n div 10" "10 \<le> n div 100" "n div 1000 < 10"
    by (simp_all add: div_less_iff_less_mult less_eq_div_iff_mult_less_eq)
  moreover have "n div 10 div 10 = n div 100" "n div 100 div 10 = n div 1000"
    by (simp_all add: div_mult2_eq [symmetric])
  ultimately have "dec n = [digit (n div 1000), digit (n div 100 mod 10), digit (n div 10 mod 10), digit (n mod 10)]"
    using n by (simp add: dec.simps [of n] dec.simps [of "n div 10"] dec.simps [of "n div 100"]
        dec.simps [of "n div 1000"] digit_def)
  with assms show ?thesis by (simp add: fmt_0_def pad0_def n_def)
qed

lemma parse_i64_2: "a < 10 \<Longrightarrow> b < 10 \<Longrightarrow> parse_i64 [digit a, digit b] = Some (int (10 * a + b))"
  by (simp add: parse_i64_def parse_nat_def)

lemma parse_i64_4:
  "a < 10 \<Longrightarrow> b < 10 \<Longrightarrow> c < 10 \<Longrightarrow> e < 10 \<Longrightarrow>
   parse_i64 [digit a, digit b, digit c, digit e] = Some (int (1000 * a + 100 * b + 10 * c + e))"
  by (simp add: parse_i64_def parse_nat_def)

lemma parse_amz_digits:
  assumes "\<forall>x \<in> {a, b, c, e, f, g, h, i, j, k, l, m, n, q}. x < 10"
    and "1 \<le> 10 * f + g" "10 * f + g \<le> 12" "1 \<le> 10 * h + i" "10 * h + i \<le> 31"
    and "10 * j + k \<le> 23" "10 * l + m \<le> 59" "10 * n + q \<le> 60"
    and secs: "secs = days_from_civil (int (1000 * a + 100 * b + 10 * c + e)) (int (10 * f + g)) (int (10 * h + i))
      * 86400 + int (10 * j + k) * 3600 + int (10 * l + m) * 60 + int (10 * n + q)"
    and "0 \<le> secs" "secs * 1000 < 2 ^ 64"
  shows "parse_amz_datetime [digit a, digit b, digit c, digit e, digit f, digit g, digit h, digit i,
     CHR ''T'', digit j, digit k, digit l, digit m, digit n, digit q, CHR ''Z''] = Some (word_of_int (secs * 1000))"
proof -
  let ?s = "[digit a, digit b, digit c, digit e, digit f, digit g, digit h, digit i,
     CHR ''T'', digit j, digit k, digit l, digit m, digit n, digit q, CHR ''Z'']"
  have "\<not> is_cont (byte (CHR ''T''))" "\<not> is_cont (byte (CHR ''Z''))" by (simp_all add: is_cont_def)
  then have g: "str_get ?s 0 4 = Some [digit a, digit b, digit c, digit e]"
    "str_get ?s 4 6 = Some [digit f, digit g]" "str_get ?s 6 8 = Some [digit h, digit i]"
    "str_get ?s 9 11 = Some [digit j, digit k]" "str_get ?s 11 13 = Some [digit l, digit m]"
    "str_get ?s 13 15 = Some [digit n, digit q]"
    using assms(1) by (simp_all add: str_get_def is_char_boundary_def is_cont_def)
  have u: "as_u32 (int (10 * f + g)) = int (10 * f + g)" "as_u32 (int (10 * h + i)) = int (10 * h + i)"
    using assms(3,5) by (simp_all add: as_u32_id)
  have r: "\<not> (\<not> (1 \<le> int (10 * f + g) \<and> int (10 * f + g) \<le> 12) \<or> \<not> (1 \<le> int (10 * h + i) \<and> int (10 * h + i) \<le> 31)
     \<or> 23 < int (10 * j + k) \<or> 59 < int (10 * l + m) \<or> 60 < int (10 * n + q))"
    using assms(2-8) by linarith
  have "0 \<le> secs * 1000 \<and> secs * 1000 < 2 ^ 64" using assms(10,11) by simp
  then show ?thesis
    using assms(1) r unfolding parse_amz_datetime_def Let_def g
    by (simp add: parse_i64_2 parse_i64_4 u secs del: of_nat_add of_nat_mult)
qed

lemma two_digits: "(0 :: int) \<le> i \<Longrightarrow> i < 100 \<Longrightarrow> int (10 * (nat i div 10) + nat i mod 10) = i"
  by simp

lemma four_digits:
  fixes i :: int
  assumes "1000 \<le> i" "i \<le> 9999"
  shows "int (1000 * (nat i div 1000) + 100 * (nat i div 100 mod 10) + 10 * (nat i div 10 mod 10) + nat i mod 10) = i"
proof -
  define n where "n = nat i"
  have "n div 100 = 10 * (n div 1000) + n div 100 mod 10" "n div 10 = 10 * (n div 100) + n div 10 mod 10"
    using mult_div_mod_eq [of 10 "n div 100"] mult_div_mod_eq [of 10 "n div 10"]
    by (simp_all add: div_mult2_eq [symmetric])
  moreover have "n = 10 * (n div 10) + n mod 10" by simp
  ultimately have "1000 * (n div 1000) + 100 * (n div 100 mod 10) + 10 * (n div 10 mod 10) + n mod 10 = n"
    by linarith
  with assms show ?thesis unfolding n_def by simp
qed

lemma four_digits_less: "i \<le> 9999 \<Longrightarrow> nat i div 1000 < 10"
  by (simp add: div_less_iff_less_mult nat_less_iff)

lemma two_digits_less: "i < 100 \<Longrightarrow> nat i div 10 < 10"
  by (simp add: div_less_iff_less_mult nat_less_iff)

text \<open>Every instant up to the end of the year 9999 prints to a timestamp that reads back as its second.\<close>

lemma parse_format_amz:
  assumes "ms < 253402300800000"
  shows "parse_amz_datetime (fst (format_amz_datetime ms)) = Some (ms div 1000 * 1000)"
proof -
  define secs where "secs = uint (ms div 1000)"
  define h where "h = secs mod 86400 sdiv 3600"
  define mi where "mi = (secs mod 86400 smod 3600) sdiv 60"
  define se where "se = secs mod 86400 smod 60"
  obtain y m d where c: "civil_from_days (secs div 86400) = (y, m, d)" by (cases "civil_from_days (secs div 86400)")
  have ms: "uint ms < 253402300800000" using assms by (simp add: word_less_def)
  have secs: "secs = uint ms div 1000" by (simp add: secs_def uint_div)
  have s: "0 \<le> secs" "secs < 253402300800"
    using ms by (simp_all add: secs pos_imp_zdiv_nonneg_iff div_upper)
  have t: "0 \<le> secs mod 86400" "secs mod 86400 < 86400" by simp_all
  have h': "h = secs mod 86400 div 3600" "mi = secs mod 86400 mod 3600 div 60" "se = secs mod 86400 mod 60"
    using t by (simp_all add: h_def mi_def se_def sdiv_nonneg smod_nonneg)
  have hr: "0 \<le> h" "h \<le> 23" "0 \<le> mi" "mi \<le> 59" "0 \<le> se" "se \<le> 59"
  proof -
    show "0 \<le> h" "0 \<le> mi" "0 \<le> se" using t by (simp_all add: h' pos_imp_zdiv_nonneg_iff)
    show "h \<le> 23" using div_upper [of 3600 "secs mod 86400" 24] t by (simp add: h')
    show "mi \<le> 59" using div_upper [of 60 "secs mod 86400 mod 3600" 60] by (simp add: h')
    show "se \<le> 59" using pos_mod_bound [of 60 "secs mod 86400"] by (simp add: h')
  qed
  have dr: "0 \<le> secs div 86400" "secs div 86400 \<le> 2932896"
    using s div_upper [of 86400 secs 2932897] by (simp_all add: pos_imp_zdiv_nonneg_iff)
  note cr = civil_from_days_ranges(1-4) [OF c] civil_year_four_digits [OF dr c]
  have mr: "0 \<le> m" "m < 100" "0 \<le> d" "d < 100" "h < 100" "mi < 100" "se < 100" using cr hr by simp_all
  have hms: "secs mod 86400 = h * 3600 + mi * 60 + se"
  proof -
    have "secs mod 86400 mod 3600 mod 60 = se" unfolding h' by (simp add: mod_mod_cancel)
    then have "secs mod 86400 mod 3600 = mi * 60 + se"
      using div_mult_mod_eq [of "secs mod 86400 mod 3600" 60] unfolding h'(2) by metis
    then show ?thesis
      using div_mult_mod_eq [of "secs mod 86400" 3600] unfolding h'(1) by (metis add.assoc)
  qed
  have fm: "fst (format_amz_datetime ms) =
      [digit (nat y div 1000), digit (nat y div 100 mod 10), digit (nat y div 10 mod 10), digit (nat y mod 10),
       digit (nat m div 10), digit (nat m mod 10), digit (nat d div 10), digit (nat d mod 10), CHR ''T'',
       digit (nat h div 10), digit (nat h mod 10), digit (nat mi div 10), digit (nat mi mod 10),
       digit (nat se div 10), digit (nat se mod 10), CHR ''Z'']"
    unfolding format_amz_datetime_def Let_def secs_def [symmetric] h_def [symmetric] mi_def [symmetric] se_def [symmetric] c
    using mr hr cr(5,6) by (simp add: fmt_0_2 fmt_0_4)
  have "secs = days_from_civil y m d * 86400 + h * 3600 + mi * 60 + se"
    using hms div_mult_mod_eq [of secs 86400] unfolding days_of_civil [OF c] by linarith
  then have "parse_amz_datetime (fst (format_amz_datetime ms)) = Some (word_of_int (secs * 1000))"
    unfolding fm using s
    by (intro parse_amz_digits)
      (simp_all only: two_digits [OF mr(1,2)] two_digits [OF mr(3,4)] two_digits [OF hr(1) mr(5)]
        two_digits [OF hr(3) mr(6)] two_digits [OF hr(5) mr(7)] four_digits [OF cr(5,6)],
       use cr hr mr in \<open>auto simp: two_digits_less four_digits_less\<close>)
  also have "word_of_int (secs * 1000) = ms div 1000 * 1000"
    by (simp add: secs_def)
  finally show ?thesis .
qed

interpretation civil_codec:
  round_trip civil_from_days "\<lambda>(y, m, d). Some (days_from_civil y m d)" "\<lambda>_. True"
  by unfold_locales (auto simp: days_of_civil split: prod.splits)

interpretation amz_codec:
  round_trip "\<lambda>ms. fst (format_amz_datetime ms)" parse_amz_datetime
    "\<lambda>ms. ms < 253402300800000 \<and> ms div 1000 * 1000 = ms"
  by unfold_locales (simp add: parse_format_amz)

section \<open>Properties\<close>

text \<open>C32. The calendar conversions are mutually inverse: every day number survives the trip to a
  civil date and back, and every date of the Gregorian calendar survives the trip to a day number
  and back; in particular distinct days have distinct dates.\<close>

theorem civil_days_inverse:
  "(case civil_from_days z of (y, m, d) \<Rightarrow> days_from_civil y m d) = z
   \<and> (civil_date y m d \<longrightarrow> civil_from_days (days_from_civil y m d) = (y, m, d))
   \<and> inj civil_from_days"
  using civil_of_days civil_codec.inj_on_enc by (auto simp: days_of_civil split: prod.splits)

theorem civil_days_inverse_witness:
  "civil_date 2024 2 29 \<and> civil_from_days (days_from_civil 2024 2 29) = (2024, 2, 29)"
proof -
  have "civil_date 2024 2 29" by (simp add: civil_date_def month_days_def leap_year_def)
  with civil_days_inverse [of 0 2024 2 29] show ?thesis by simp
qed

text \<open>A SigV4 timestamp printed for any instant before the year 10000 parses back to that
  instant truncated to the second, so within that range timestamps of different seconds differ.\<close>

theorem amz_datetime_round_trip:
  assumes "ms < 253402300800000"
  shows "parse_amz_datetime (fst (format_amz_datetime ms)) = Some (ms div 1000 * 1000)"
  using assms by (rule parse_format_amz)

theorem amz_datetime_round_trip_witness:
  "(1440938160123 :: u64) < 253402300800000
   \<and> parse_amz_datetime (fst (format_amz_datetime 1440938160123)) = Some 1440938160000"
  using amz_datetime_round_trip [of 1440938160123] by simp

text \<open>
  The parser is more lenient than the shape it describes: it accepts a signed hour, a day that
  the month does not have and a leap second.
\<close>

lemma parse_amz_lenient:
  "parse_amz_datetime ''20240231T000000Z'' = parse_amz_datetime ''20240302T000000Z''"
  "parse_amz_datetime ''20240301T-10000Z'' = parse_amz_datetime ''20240229T230000Z''"
  "parse_amz_datetime ''20240301T000060Z'' = parse_amz_datetime ''20240301T000100Z''"
  "parse_amz_datetime ''20240301T000060Z'' \<noteq> None"
  by code_simp+

end
