(* ===== verification/Externals.thy ===== *)
theory Externals
  imports Models Utf8
begin

text \<open>
  The code the repository only calls: the \<^verbatim>\<open>http\<close> crate's header types, \<^verbatim>\<open>ring\<close>'s digest and
  MAC, \<^verbatim>\<open>serde_json\<close>'s parser and \<^verbatim>\<open>uuid\<close>. Every definition that uses them takes an \<open>env\<close>, a
  record of the functions it calls; what the header types document is the predicate
  \<open>http_laws\<close>, which a theorem that relies on it assumes. The type \<open>'h\<close> stands for
  \<^verbatim>\<open>http::HeaderMap\<close>; a header value is its bytes, a header name its (lower-case) text, a method
  its token. Values of \<^verbatim>\<open>Uuid::new_v4().simple()\<close> are numbered by the draw that produced them.
\<close>

section \<open>The parameters\<close>

record 'h env =
  headers_new :: "'h"
  headers_get :: "'h \<Rightarrow> string \<Rightarrow> bytes option"
  headers_iter :: "'h \<Rightarrow> (string \<times> bytes) list"
  headers_append :: "'h \<Rightarrow> string \<Rightarrow> bytes \<Rightarrow> 'h"
  headers_insert :: "'h \<Rightarrow> string \<Rightarrow> bytes \<Rightarrow> 'h"
  value_from_str :: "string \<Rightarrow> bytes option"
  value_to_str :: "bytes \<Rightarrow> string option"
  name_from_bytes :: "bytes \<Rightarrow> string option"
  sha256 :: "bytes \<Rightarrow> bytes"
  hmac_sha256 :: "bytes \<Rightarrow> bytes \<Rightarrow> bytes"
  json_from_slice :: "bytes \<Rightarrow> json option"
  uuid_simple :: "nat \<Rightarrow> string"

section \<open>What the header types document\<close>

definition visible :: "char \<Rightarrow> bool" where
  "visible c \<longleftrightarrow> 32 \<le> byte c \<and> byte c < 127 \<or> byte c = 9"

text \<open>All values of one name, in the order of their insertion.\<close>

definition header_values :: "'h env \<Rightarrow> 'h \<Rightarrow> string \<Rightarrow> bytes list" where
  "header_values E h n = map snd (filter (\<lambda>(m, _). m = n) (headers_iter E h))"

text \<open>
  Names are lower case; \<^verbatim>\<open>get\<close> returns the first value of the (case-insensitive) name; a new map
  is empty; \<^verbatim>\<open>append\<close> adds a value to a name and \<^verbatim>\<open>insert\<close> replaces all its values;
  \<^verbatim>\<open>HeaderValue::from_str\<close> keeps the text and accepts visible ASCII; \<^verbatim>\<open>to_str\<close> returns the text of
  exactly the visible ASCII values; \<^verbatim>\<open>HeaderName::from_bytes\<close> lower-cases.
\<close>

definition http_laws :: "'h env \<Rightarrow> bool" where
  "http_laws E \<longleftrightarrow>
     (\<forall>h n v. (n, v) \<in> set (headers_iter E h) \<longrightarrow> to_ascii_lowercase n = n)
     \<and> (\<forall>h n. headers_get E h n =
          (case header_values E h (to_ascii_lowercase n) of [] \<Rightarrow> None | v # _ \<Rightarrow> Some v))
     \<and> headers_iter E (headers_new E) = []
     \<and> (\<forall>h n v m. header_values E (headers_append E h n v) m =
          (if m = to_ascii_lowercase n then header_values E h m @ [v] else header_values E h m))
     \<and> (\<forall>h n v m. header_values E (headers_insert E h n v) m =
          (if m = to_ascii_lowercase n then [v] else header_values E h m))
     \<and> (\<forall>s v. value_from_str E s = Some v \<longrightarrow> v = s)
     \<and> (\<forall>s. list_all visible s \<longrightarrow> value_from_str E s = Some s)
     \<and> (\<forall>v. value_to_str E v = (if list_all visible v then Some v else None))
     \<and> (\<forall>b n. name_from_bytes E b = Some n \<longrightarrow> n = to_ascii_lowercase b)"

lemma http_lawsD:
  assumes "http_laws E"
  shows http_iter_lower: "(n, v) \<in> set (headers_iter E h) \<Longrightarrow> to_ascii_lowercase n = n"
    and http_get: "headers_get E h n =
      (case header_values E h (to_ascii_lowercase n) of [] \<Rightarrow> None | v # _ \<Rightarrow> Some v)"
    and http_new: "headers_iter E (headers_new E) = []"
    and http_append: "header_values E (headers_append E h n v) m =
      (if m = to_ascii_lowercase n then header_values E h m @ [v] else header_values E h m)"
    and http_insert: "header_values E (headers_insert E h n v) m =
      (if m = to_ascii_lowercase n then [v] else header_values E h m)"
    and http_from_str: "value_from_str E s = Some v \<Longrightarrow> v = s"
    and http_from_str_visible: "list_all visible s \<Longrightarrow> value_from_str E s = Some s"
    and http_to_str: "value_to_str E b = (if list_all visible b then Some b else None)"
    and http_name: "name_from_bytes E b = Some n \<Longrightarrow> n = to_ascii_lowercase b"
proof -
  note L = assms [unfolded http_laws_def]
  show "(n, v) \<in> set (headers_iter E h) \<Longrightarrow> to_ascii_lowercase n = n"
    by (rule L [THEN conjunct1, rule_format])
  show "headers_get E h n =
      (case header_values E h (to_ascii_lowercase n) of [] \<Rightarrow> None | v # _ \<Rightarrow> Some v)"
    by (rule L [THEN conjunct2, THEN conjunct1, rule_format])
  show "headers_iter E (headers_new E) = []"
    by (rule L [THEN conjunct2, THEN conjunct2, THEN conjunct1, rule_format])
  show "header_values E (headers_append E h n v) m =
      (if m = to_ascii_lowercase n then header_values E h m @ [v] else header_values E h m)"
    by (rule L [THEN conjunct2, THEN conjunct2, THEN conjunct2, THEN conjunct1, rule_format])
  show "header_values E (headers_insert E h n v) m =
      (if m = to_ascii_lowercase n then [v] else header_values E h m)"
    by (rule L [THEN conjunct2, THEN conjunct2, THEN conjunct2, THEN conjunct2, THEN conjunct1, rule_format])
  show "value_from_str E s = Some v \<Longrightarrow> v = s"
    by (rule L [THEN conjunct2, THEN conjunct2, THEN conjunct2, THEN conjunct2, THEN conjunct2, THEN conjunct1, rule_format])
  show "list_all visible s \<Longrightarrow> value_from_str E s = Some s"
    by (rule L [THEN conjunct2, THEN conjunct2, THEN conjunct2, THEN conjunct2, THEN conjunct2, THEN conjunct2, THEN conjunct1, rule_format])
  show "value_to_str E b = (if list_all visible b then Some b else None)"
    by (rule L [THEN conjunct2, THEN conjunct2, THEN conjunct2, THEN conjunct2, THEN conjunct2, THEN conjunct2, THEN conjunct2, THEN conjunct1, rule_format])
  show "name_from_bytes E b = Some n \<Longrightarrow> n = to_ascii_lowercase b"
    by (rule L [THEN conjunct2, THEN conjunct2, THEN conjunct2, THEN conjunct2, THEN conjunct2, THEN conjunct2, THEN conjunct2, THEN conjunct2, rule_format])
qed

lemma header_values_Nil_iff:
  "header_values E h n = [] \<longleftrightarrow> n \<notin> fst ` set (headers_iter E h)"
  by (force simp: header_values_def filter_empty_conv)

lemma header_values_new: "http_laws E \<Longrightarrow> header_values E (headers_new E) n = []"
  by (simp add: header_values_def http_new)

text \<open>
  Copying the headers of a map that are not dropped, one by one: every name keeps all its values or
  loses them all.
\<close>

lemma copied_values:
  assumes laws: "http_laws E"
  shows "header_values E (fold (\<lambda>(n, v) out. if P n then out else headers_append E out n v)
      (headers_iter E h) (headers_new E)) n = (if P n then [] else header_values E h n)"
proof -
  have "header_values E (fold (\<lambda>(n, v) out. if P n then out else headers_append E out n v) xs out) n
      = header_values E out n @ (if P n then [] else map snd (filter (\<lambda>(m, _). m = n) xs))"
    if "\<And>m v. (m, v) \<in> set xs \<Longrightarrow> to_ascii_lowercase m = m" for xs out
    using that
  proof (induction xs arbitrary: out)
    case (Cons nv xs)
    obtain m v where nv: "nv = (m, v)" by (cases nv)
    have m: "to_ascii_lowercase m = m" using Cons.prems [of m v] nv by simp
    have xs: "\<And>m v. (m, v) \<in> set xs \<Longrightarrow> to_ascii_lowercase m = m" using Cons.prems by (meson list.set_intros(2))
    show ?case using m by (auto simp: nv Cons.IH [OF xs] http_append [OF laws])
  qed simp
  from this [of "headers_iter E h" "headers_new E"] show ?thesis
    using http_iter_lower [OF laws] header_values_new [OF laws] by (simp add: header_values_def)
qed

lemma copied_all_values:
  assumes "http_laws E"
  shows "header_values E (fold (\<lambda>(n, v) out. headers_append E out n v) (headers_iter E h) (headers_new E)) n
    = header_values E h n"
  using copied_values [OF assms, of "\<lambda>_. False" h n] by simp

section \<open>A concrete instance\<close>

text \<open>
  A list of pairs satisfies the laws. It is used to evaluate the model and to show that theorems
  which assume the laws are not vacuous; its digest is a short checksum, its JSON parser knows
  the empty object only.
\<close>

type_synonym header_list = "(string \<times> bytes) list"

definition list_env :: "header_list env" where
  "list_env =
     \<lparr> headers_new = [],
       headers_get = (\<lambda>h n. map_of (map (\<lambda>(m, v). (to_ascii_lowercase m, v)) h) (to_ascii_lowercase n)),
       headers_iter = (\<lambda>h. map (\<lambda>(m, v). (to_ascii_lowercase m, v)) h),
       headers_append = (\<lambda>h n v. h @ [(n, v)]),
       headers_insert = (\<lambda>h n v. filter (\<lambda>(m, _). to_ascii_lowercase m \<noteq> to_ascii_lowercase n) h @ [(n, v)]),
       value_from_str = (\<lambda>s. if list_all visible s then Some s else None),
       value_to_str = (\<lambda>s. if list_all visible s then Some s else None),
       name_from_bytes = (\<lambda>s. if s \<noteq> [] \<and> list_all (\<lambda>c. 32 < byte c \<and> byte c < 127) s
          then Some (to_ascii_lowercase s) else None),
       sha256 = (\<lambda>s. [chr (length s mod 256), chr (sum_list (map byte s) mod 256)]),
       hmac_sha256 = (\<lambda>k s. [chr (sum_list (map byte (k @ s)) mod 256)]),
       json_from_slice = (\<lambda>s. if s = ''{}'' then Some (Object []) else None),
       uuid_simple = (\<lambda>n. pad0 32 (dec n)) \<rparr>"

lemma map_of_values: "map_of h n = (case map snd (filter (\<lambda>(m, _). m = n) h) of [] \<Rightarrow> None | v # _ \<Rightarrow> Some v)"
  by (induction h) auto

lemma list_env_insert_values:
  "map snd (filter (\<lambda>(k, _). k = m) (map (\<lambda>(m, v). (to_ascii_lowercase m, v))
      (filter (\<lambda>(m, _). to_ascii_lowercase m \<noteq> n) h)))
   = (if m = n then [] else map snd (filter (\<lambda>(k, _). k = m) (map (\<lambda>(m, v). (to_ascii_lowercase m, v)) h)))"
  by (induction h) auto

lemma http_laws_list_env: "http_laws list_env"
  unfolding http_laws_def header_values_def list_env_def
  by (simp add: map_of_values list_env_insert_values split: prod.splits) auto

end
