(* ===== verification/SigV4.thy ===== *)
theory SigV4
  imports Civil Externals
begin

text \<open>
  \<^verbatim>\<open>gateway/src/sigv4.rs\<close>: the AWS Signature Version 4 signer and verifier over the encodings of
  theory \<open>Codec\<close> and the calendar of theory \<open>Civil\<close>. SHA-256 and HMAC are parameters. Functions
  that reach the percent decoder return an \<open>option\<close> for its panic; verification errors are
  values.
\<close>

section \<open>Definitions\<close>

definition MAX_SKEW_MS :: u64 where
  "MAX_SKEW_MS = 5 * 60 * 1000"

record creds =
  cr_access_key_id :: string
  cr_secret_access_key :: string

record signed =
  sg_authorization :: string
  sg_amz_date :: string
  sg_content_sha256 :: string

record parsed =
  p_access_key_id :: string
  p_datestamp :: string
  p_region :: string
  p_service :: string
  p_signed_headers :: "string list"
  p_signature :: string

datatype verify_error = Mismatch | Stale | MissingSignedHeader string

definition OUTBOUND_SIGNED_HEADERS :: string where
  "OUTBOUND_SIGNED_HEADERS = ''host;x-amz-content-sha256;x-amz-date''"

definition nl :: string where
  "nl = [chr 10]"

definition hmac256 :: "'h env \<Rightarrow> bytes \<Rightarrow> bytes \<Rightarrow> bytes" where
  "hmac256 E key data = hmac_sha256 E key data"

definition sha256_hex :: "'h env \<Rightarrow> bytes \<Rightarrow> string" where
  "sha256_hex E data = to_hex (sha256 E data)"

definition header_value :: "'h env \<Rightarrow> 'h \<Rightarrow> string \<Rightarrow> string option" where
  "header_value E headers name = Option.bind (headers_get E headers name) (value_to_str E)"

text \<open>The loop over the characters, with the flag that the previous one was a space.\<close>

fun collapse_spaces :: "bool \<Rightarrow> string \<Rightarrow> string" where
  "collapse_spaces prev_space [] = []"
| "collapse_spaces prev_space (c # s) =
     (if c = CHR '' '' then (if prev_space then [] else '' '') @ collapse_spaces True s
      else c # collapse_spaces False s)"

definition trim_header_value :: "string \<Rightarrow> string" where
  "trim_header_value v = collapse_spaces False (trim v)"

definition canonical_uri :: "string \<Rightarrow> bool \<Rightarrow> string" where
  "canonical_uri path double_encode =
     (let path = (if path = [] then ''/'' else path) in
      if double_encode then uri_encode path False else path)"

definition query_pair :: "string \<Rightarrow> (string \<times> string) option" where
  "query_pair pair =
     (let (k, v) = (case split_once (CHR ''='') pair of Some kv \<Rightarrow> kv | None \<Rightarrow> (pair, [])) in
      do { dk \<leftarrow> percent_decode k; dv \<leftarrow> percent_decode v;
           Some (uri_encode dk True, uri_encode dv True) })"

definition canonical_query :: "string \<Rightarrow> string option" where
  "canonical_query query =
     (if query = [] then Some []
      else do {
        pairs \<leftarrow> map_panic query_pair (filter (\<lambda>p. p \<noteq> []) (split_on (CHR ''&'') query));
        Some (join ''&'' (map (\<lambda>(k, v). k @ ''='' @ v) (sort pairs)))
      })"

definition double_encode_for :: "string \<Rightarrow> bool" where
  "double_encode_for service = (\<not> eq_ignore_ascii_case service ''s3'')"

definition derive_signing_key :: "'h env \<Rightarrow> string \<Rightarrow> string \<Rightarrow> string \<Rightarrow> string \<Rightarrow> bytes" where
  "derive_signing_key E secret datestamp region service =
     (let k_date = hmac256 E (''AWS4'' @ secret) datestamp;
          k_region = hmac256 E k_date region;
          k_service = hmac256 E k_region service
      in hmac256 E k_service ''aws4_request'')"

definition scope_of :: "string \<Rightarrow> string \<Rightarrow> string \<Rightarrow> string" where
  "scope_of datestamp region service = datestamp @ ''/'' @ region @ ''/'' @ service @ ''/aws4_request''"

definition signature_for ::
  "'h env \<Rightarrow> string \<Rightarrow> string \<Rightarrow> string \<Rightarrow> string \<Rightarrow> string \<Rightarrow> string \<Rightarrow> string" where
  "signature_for E secret region service amz_date datestamp canonical_request =
     (let scope = scope_of datestamp region service;
          string_to_sign = ''AWS4-HMAC-SHA256'' @ nl @ amz_date @ nl @ scope @ nl
            @ sha256_hex E canonical_request;
          signing_key = derive_signing_key E secret datestamp region service
      in to_hex (hmac256 E signing_key string_to_sign))"

definition canonical_request ::
  "string \<Rightarrow> string \<Rightarrow> string \<Rightarrow> (string \<times> string) list \<Rightarrow> string \<Rightarrow> string \<Rightarrow> bool \<Rightarrow> string option" where
  "canonical_request method path query headers signed_headers payload_hash double_encode =
     (let sorted_headers = sort (map (\<lambda>(n, v). (n, trim_header_value v)) headers);
          canonical_headers = concat (map (\<lambda>(n, v). n @ '':'' @ v @ nl) sorted_headers)
      in do {
        q \<leftarrow> canonical_query query;
        Some (method @ nl @ canonical_uri path double_encode @ nl @ q @ nl @ canonical_headers @ nl
          @ signed_headers @ nl @ payload_hash)
      })"

definition sign ::
  "'h env \<Rightarrow> creds \<Rightarrow> string \<Rightarrow> string \<Rightarrow> string \<Rightarrow> string \<Rightarrow> string \<Rightarrow> string \<Rightarrow> bytes \<Rightarrow> u64
   \<Rightarrow> signed option" where
  "sign E cr region service method host path query body epoch_ms =
     (let (amz_date, datestamp) = format_amz_datetime epoch_ms;
          content_sha256 = sha256_hex E body;
          headers = [(''host'', host), (''x-amz-content-sha256'', content_sha256), (''x-amz-date'', amz_date)]
      in do {
        canonical \<leftarrow> canonical_request method path query headers OUTBOUND_SIGNED_HEADERS content_sha256
          (double_encode_for service);
        let signature = signature_for E (cr_secret_access_key cr) region service amz_date datestamp canonical;
        let scope = scope_of datestamp region service;
        Some \<lparr> sg_authorization = ''AWS4-HMAC-SHA256 Credential='' @ cr_access_key_id cr @ ''/'' @ scope
                 @ '', SignedHeaders='' @ OUTBOUND_SIGNED_HEADERS @ '', Signature='' @ signature,
               sg_amz_date = amz_date, sg_content_sha256 = content_sha256 \<rparr>
      })"

text \<open>The variables the loop of \<^verbatim>\<open>parse_authorization\<close> assigns, and its body.\<close>

record auth_parts =
  ap_key :: "string option"
  ap_scope :: "(string \<times> string \<times> string) option"
  ap_headers :: "string list option"
  ap_signature :: "string option"

definition auth_part :: "string \<Rightarrow> auth_parts \<Rightarrow> auth_parts" where
  "auth_part part0 st =
     (let part = trim part0 in
      case strip_prefix ''Credential='' part of
        Some cred \<Rightarrow>
          (case splitn 5 (CHR ''/'') cred of
             [akid, date, region, service, _] \<Rightarrow>
               st\<lparr> ap_key := Some akid, ap_scope := Some (date, region, service) \<rparr>
           | _ \<Rightarrow> st)
      | None \<Rightarrow>
          (case strip_prefix ''SignedHeaders='' part of
             Some sh \<Rightarrow>
               st\<lparr> ap_headers := Some (map to_ascii_lowercase (filter (\<lambda>h. h \<noteq> []) (split_on (CHR '';'') sh))) \<rparr>
           | None \<Rightarrow>
               (case strip_prefix ''Signature='' part of
                  Some sig \<Rightarrow> st\<lparr> ap_signature := Some sig \<rparr>
                | None \<Rightarrow> st)))"

definition parse_authorization :: "string \<Rightarrow> parsed option" where
  "parse_authorization header = do {
     rest \<leftarrow> map_option trim_start (strip_prefix ''AWS4-HMAC-SHA256'' header);
     let st = fold auth_part (split_on (CHR '','') rest)
       \<lparr> ap_key = None, ap_scope = None, ap_headers = None, ap_signature = None \<rparr>;
     (date, reg, svc) \<leftarrow> ap_scope st;
     hs \<leftarrow> (case ap_headers st of Some hs \<Rightarrow> if hs \<noteq> [] then Some hs else None | None \<Rightarrow> None);
     akid \<leftarrow> ap_key st;
     sig \<leftarrow> ap_signature st;
     Some \<lparr> p_access_key_id = akid, p_datestamp = date, p_region = reg, p_service = svc,
            p_signed_headers = hs, p_signature = sig \<rparr>
   }"

text \<open>The live value of every signed header, or the first one that is absent.\<close>

fun collect_signed :: "'h env \<Rightarrow> 'h \<Rightarrow> string list \<Rightarrow> verify_error + (string \<times> string) list" where
  "collect_signed E headers [] = Inr []"
| "collect_signed E headers (n # ns) =
     (case header_value E headers n of
        None \<Rightarrow> Inl (MissingSignedHeader n)
      | Some v \<Rightarrow>
          (case collect_signed E headers ns of
             Inl e \<Rightarrow> Inl e
           | Inr vs \<Rightarrow> Inr ((n, v) # vs)))"

definition payload_hash :: "'h env \<Rightarrow> 'h \<Rightarrow> bytes \<Rightarrow> string" where
  "payload_hash E headers body =
     (case header_value E headers ''x-amz-content-sha256'' of Some v \<Rightarrow> v | None \<Rightarrow> sha256_hex E body)"

definition verify ::
  "'h env \<Rightarrow> string \<Rightarrow> parsed \<Rightarrow> string \<Rightarrow> string \<Rightarrow> string \<Rightarrow> 'h \<Rightarrow> bytes \<Rightarrow> u64
   \<Rightarrow> (verify_error + unit) option" where
  "verify E secret p method path query headers body now_ms =
     (case header_value E headers ''x-amz-date'' of
        None \<Rightarrow> Some (Inl Stale)
      | Some amz_date \<Rightarrow>
          (case parse_amz_datetime amz_date of
             None \<Rightarrow> Some (Inl Stale)
           | Some signed_ms \<Rightarrow>
               if MAX_SKEW_MS < abs_diff now_ms signed_ms then Some (Inl Stale)
               else case collect_signed E headers (p_signed_headers p) of
                   Inl e \<Rightarrow> Some (Inl e)
                 | Inr vs \<Rightarrow> do {
                     canonical \<leftarrow> canonical_request method path query vs (join '';'' (p_signed_headers p))
                       (payload_hash E headers body) (double_encode_for (p_service p));
                     let expected = signature_for E secret (p_region p) (p_service p) amz_date
                       (p_datestamp p) canonical;
                     Some (if constant_time_eq expected (p_signature p) then Inr () else Inl Mismatch)
                   }))"

section \<open>Canonical queries\<close>

lemma uri_encode_not_in [simp]:
  "CHR ''='' \<notin> set (uri_encode bs True)" "CHR ''&'' \<notin> set (uri_encode bs True)"
  using uri_encode_bytes [of "CHR ''=''" bs True] uri_encode_bytes [of "CHR ''&''" bs True]
  by (auto simp: uri_byte_def)

definition encoded_pair :: "string \<times> string \<Rightarrow> bool" where
  "encoded_pair kv \<longleftrightarrow> (\<exists>a b. kv = (uri_encode a True, uri_encode b True))"

lemma query_pair_encoded: "query_pair p = Some kv \<Longrightarrow> encoded_pair kv"
  by (auto simp: query_pair_def encoded_pair_def bind_Some_iff split: prod.splits)

lemma query_pair_fixed:
  "encoded_pair (k, v) \<Longrightarrow> query_pair (k @ ''='' @ v) = Some (k, v)"
  by (auto simp: query_pair_def encoded_pair_def percent_decode_uri_encode)

definition print_pair :: "string \<times> string \<Rightarrow> string" where
  "print_pair = (\<lambda>(k, v). k @ ''='' @ v)"

lemma print_pair_no_amp: "encoded_pair kv \<Longrightarrow> CHR ''&'' \<notin> set (print_pair kv)"
  by (auto simp: encoded_pair_def print_pair_def)

lemma map_panic_print:
  "list_all encoded_pair ps \<Longrightarrow> map_panic query_pair (map print_pair ps) = Some ps"
  using query_pair_fixed by (induction ps) (auto simp: print_pair_def)

lemma canonical_query_alt:
  "canonical_query q =
     map_option (\<lambda>ps. join ''&'' (map print_pair (sort ps)))
       (map_panic query_pair (filter (\<lambda>p. p \<noteq> []) (split_on (CHR ''&'') q)))"
  by (cases "map_panic query_pair (filter (\<lambda>p. p \<noteq> []) (split_on (CHR ''&'') q))")
    (auto simp: canonical_query_def print_pair_def)

lemma map_panic_encoded: "map_panic query_pair xs = Some ps \<Longrightarrow> list_all encoded_pair ps"
  by (induction xs arbitrary: ps) (auto simp: bind_Some_iff map_option_Some_iff dest: query_pair_encoded)

lemma canonical_query_sorted:
  assumes "list_all encoded_pair ps" "sorted ps"
  shows "canonical_query (join ''&'' (map print_pair ps)) = Some (join ''&'' (map print_pair ps))"
proof (cases "ps = []")
  case False
  have "split_on (CHR ''&'') (join ''&'' (map print_pair ps)) = map print_pair ps"
    using assms(1) False print_pair_no_amp by (intro split_join) (auto simp: list_all_iff)
  moreover have "filter (\<lambda>p. p \<noteq> []) (map print_pair ps) = map print_pair ps"
    by (rule filter_True) (auto simp: print_pair_def)
  ultimately show ?thesis using assms by (simp add: canonical_query_alt map_panic_print sort_key_id_if_sorted)
qed (simp add: canonical_query_def)

lemma canonical_query_idem:
  assumes "canonical_query q = Some c"
  shows "canonical_query c = Some c"
proof -
  obtain ps where ps: "map_panic query_pair (filter (\<lambda>p. p \<noteq> []) (split_on (CHR ''&'') q)) = Some ps"
    and c: "c = join ''&'' (map print_pair (sort ps))"
    using assms by (auto simp: canonical_query_alt map_option_Some_iff)
  have "list_all encoded_pair (sort ps)" using map_panic_encoded [OF ps] by (simp add: list_all_iff)
  then show ?thesis unfolding c by (rule canonical_query_sorted) simp
qed

lemma canonical_query_perm:
  assumes "mset (filter (\<lambda>p. p \<noteq> []) (split_on (CHR ''&'') q)) = mset (filter (\<lambda>p. p \<noteq> []) (split_on (CHR ''&'') q'))"
  shows "canonical_query q = canonical_query q'"
proof -
  note sort = sort_map_mset [OF assms, of "the \<circ> query_pair"]
  have "set (filter (\<lambda>p. p \<noteq> []) (split_on (CHR ''&'') q)) = set (filter (\<lambda>p. p \<noteq> []) (split_on (CHR ''&'') q'))"
    using assms by (metis set_mset_mset)
  with sort show ?thesis unfolding canonical_query_alt map_panic_alt by auto
qed

lemma query_pair_ascii: "ascii p \<Longrightarrow> \<exists>kv. query_pair p = Some kv"
proof -
  assume p: "ascii p"
  define kv where "kv = (case split_once (CHR ''='') p of Some kv \<Rightarrow> kv | None \<Rightarrow> (p, []))"
  have "ascii (fst kv)" "ascii (snd kv)"
    using p by (auto simp: kv_def split_once_Some_iff split: option.splits)
  then obtain a b where "percent_decode (fst kv) = Some a" "percent_decode (snd kv) = Some b"
    using percent_decode_ascii by blast
  then show ?thesis by (cases kv) (simp add: query_pair_def kv_def [symmetric])
qed

lemma canonical_query_ascii: "ascii q \<Longrightarrow> \<exists>c. canonical_query q = Some c"
proof -
  assume q: "ascii q"
  have "ascii p" if "p \<in> set (split_on (CHR ''&'') q)" for p
    using split_on_subset [OF that] q by (auto simp: ascii_def list_all_iff)
  then show ?thesis
    using query_pair_ascii by (fastforce simp: canonical_query_alt map_panic_alt)
qed

section \<open>Authorization headers\<close>

text \<open>What an access key id, a region and a service name look like: no separator of the header.\<close>

definition plain :: "string \<Rightarrow> bool" where
  "plain s \<longleftrightarrow> ascii s \<and> CHR ''/'' \<notin> set s \<and> CHR '','' \<notin> set s"

lemma hex_lower_range: "n < 16 \<Longrightarrow> 48 \<le> byte (hex_lower n) \<and> byte (hex_lower n) < 127"
  by (simp add: hex_lower_byte)

lemma to_hex_bytes: "c \<in> set (to_hex bs) \<Longrightarrow> 48 \<le> byte c \<and> byte c < 127"
  using hex_lower_range byte_nibbles by (induction bs) (auto simp: fmt_02x_def)

lemma to_hex_no_comma: "CHR '','' \<notin> set (to_hex bs)"
  using to_hex_bytes [of "CHR '',''" bs] by auto

lemma to_hex_ascii: "ascii (to_hex bs)"
  using to_hex_bytes [of _ bs] by (fastforce simp: ascii_def list_all_iff)

lemma to_hex_visible: "list_all visible (to_hex bs)"
  using to_hex_bytes [of _ bs] by (fastforce simp: list_all_iff visible_def)

lemma trim_space: "ascii s \<Longrightarrow> trim (CHR '' '' # s) = trim s"
  by (simp add: trim_ascii ascii_ws_def)

lemma dec_bytes: "c \<in> set (dec n) \<Longrightarrow> 48 \<le> byte c \<and> byte c \<le> 57"
proof (induction n rule: dec.induct)
  case (1 n)
  have "n mod 10 < 10" by simp
  with 1 show ?case by (subst (asm) dec.simps) (auto split: if_splits)
qed

lemma fmt_0_bytes: "c \<in> set (fmt_0 w i) \<Longrightarrow> c = CHR ''-'' \<or> 48 \<le> byte c \<and> byte c \<le> 57"
  using dec_bytes by (auto simp: fmt_0_def pad0_def split: if_splits)

lemma datestamp_bytes:
  "c \<in> set (snd (format_amz_datetime ms)) \<Longrightarrow> c = CHR ''-'' \<or> 48 \<le> byte c \<and> byte c \<le> 57"
  using fmt_0_bytes by (auto simp: format_amz_datetime_def Let_def split: prod.splits)

lemma amz_date_bytes:
  "c \<in> set (fst (format_amz_datetime ms)) \<Longrightarrow>
   c = CHR ''-'' \<or> c = CHR ''T'' \<or> c = CHR ''Z'' \<or> 48 \<le> byte c \<and> byte c \<le> 57"
  using fmt_0_bytes by (auto simp: format_amz_datetime_def Let_def split: prod.splits)

lemma amz_date_visible: "list_all visible (fst (format_amz_datetime ms))"
  using amz_date_bytes [of _ ms] by (fastforce simp: list_all_iff visible_def)

lemma datestamp_plain: "plain (snd (format_amz_datetime ms))"
  using datestamp_bytes [of _ ms] by (fastforce simp: plain_def ascii_def list_all_iff)

text \<open>The text of an authorization header with the given parts.\<close>

definition print_authorization :: "string \<Rightarrow> string \<Rightarrow> string \<Rightarrow> string \<Rightarrow> string \<Rightarrow> string" where
  "print_authorization akid date reg svc sig =
     ''AWS4-HMAC-SHA256 Credential='' @ akid @ ''/'' @ scope_of date reg svc
       @ '', SignedHeaders='' @ OUTBOUND_SIGNED_HEADERS @ '', Signature='' @ sig"

definition outbound_headers :: "string list" where
  "outbound_headers = [''host'', ''x-amz-content-sha256'', ''x-amz-date'']"

lemma outbound_headers_split:
  "map to_ascii_lowercase (filter (\<lambda>h. h \<noteq> []) (split_on (CHR '';'') OUTBOUND_SIGNED_HEADERS)) = outbound_headers"
  "join '';'' outbound_headers = OUTBOUND_SIGNED_HEADERS"
  by code_simp+

lemma splitn_scope:
  "plain akid \<Longrightarrow> plain date \<Longrightarrow> plain reg \<Longrightarrow> plain svc \<Longrightarrow>
   splitn 5 (CHR ''/'') (akid @ ''/'' @ scope_of date reg svc) = [akid, date, reg, svc, ''aws4_request'']"
  by (simp add: scope_of_def plain_def eval_nat_numeral)

lemma strip_prefix_Cons [simp]:
  "strip_prefix (a # p) (b # s) = (if a = b then strip_prefix p s else None)"
  "strip_prefix [] s = Some s" "strip_prefix (a # p) [] = None"
  by (auto simp: strip_prefix_def)

lemma auth_part_credential:
  assumes "plain akid" "plain date" "plain reg" "plain svc"
  shows "auth_part (''Credential='' @ akid @ ''/'' @ scope_of date reg svc) st
    = st\<lparr> ap_key := Some akid, ap_scope := Some (date, reg, svc) \<rparr>"
proof -
  have "ascii (scope_of date reg svc)" "ascii akid" using assms by (auto simp: scope_of_def plain_def)
  moreover have "last (scope_of date reg svc) = CHR ''t''" by (simp add: scope_of_def)
  moreover have "scope_of date reg svc \<noteq> []" by (simp add: scope_of_def)
  ultimately have "trim (''Credential='' @ akid @ ''/'' @ scope_of date reg svc)
    = ''Credential='' @ akid @ ''/'' @ scope_of date reg svc"
    by (intro trim_ascii_id) (auto simp: ascii_ws_def)
  then show ?thesis
    using splitn_scope [OF assms] by (simp add: auth_part_def)
qed

lemma auth_part_signed_headers:
  "auth_part ('' SignedHeaders='' @ OUTBOUND_SIGNED_HEADERS) st = st\<lparr> ap_headers := Some outbound_headers \<rparr>"
proof -
  have "trim ('' SignedHeaders='' @ OUTBOUND_SIGNED_HEADERS) = ''SignedHeaders='' @ OUTBOUND_SIGNED_HEADERS"
    by code_simp
  then show ?thesis by (simp add: auth_part_def outbound_headers_split)
qed

lemma auth_part_signature:
  assumes "ascii sig" "sig \<noteq> [] \<Longrightarrow> \<not> ascii_ws (last sig)"
  shows "auth_part ('' Signature='' @ sig) st = st\<lparr> ap_signature := Some sig \<rparr>"
proof -
  have "trim ('' Signature='' @ sig) = trim (''Signature='' @ sig)"
    using assms by (simp add: trim_space)
  also have "\<dots> = ''Signature='' @ sig"
    using assms by (intro trim_ascii_id) (auto simp: ascii_ws_def)
  finally show ?thesis by (simp add: auth_part_def)
qed

lemma parse_print_authorization:
  assumes "plain akid" "plain date" "plain reg" "plain svc" "plain sig" "sig \<noteq> [] \<Longrightarrow> \<not> ascii_ws (last sig)"
  shows "parse_authorization (print_authorization akid date reg svc sig) =
    Some \<lparr> p_access_key_id = akid, p_datestamp = date, p_region = reg, p_service = svc,
           p_signed_headers = outbound_headers, p_signature = sig \<rparr>"
proof -
  let ?c = "''Credential='' @ akid @ ''/'' @ scope_of date reg svc"
  let ?h = "'' SignedHeaders='' @ OUTBOUND_SIGNED_HEADERS" and ?s = "'' Signature='' @ sig"
  let ?rest = "?c @ CHR '','' # ?h @ CHR '','' # ?s"
  have pr: "print_authorization akid date reg svc sig = ''AWS4-HMAC-SHA256'' @ '' '' @ ?rest"
    by (simp add: print_authorization_def)
  have asc: "ascii ?rest"
    using assms by (simp add: plain_def scope_of_def OUTBOUND_SIGNED_HEADERS_def)
  then have ts: "trim_start ('' '' @ ?rest) = ?rest"
    by (simp add: trim_start_ascii ascii_ws_def)
  have cm: "CHR '','' \<notin> set ?c" "CHR '','' \<notin> set ?h" "CHR '','' \<notin> set ?s"
    using assms by (auto simp: plain_def scope_of_def OUTBOUND_SIGNED_HEADERS_def)
  have sp: "split_on (CHR '','') ?rest = [?c, ?h, ?s]"
    unfolding split_on_append [OF cm(1)] split_on_append [OF cm(2)] split_on_noop [OF cm(3)] ..
  have "map_option trim_start (strip_prefix ''AWS4-HMAC-SHA256'' (''AWS4-HMAC-SHA256'' @ '' '' @ ?rest)) = Some ?rest"
    using ts by (simp only: strip_prefix_app option.map)
  moreover have "ascii sig" using assms by (simp add: plain_def)
  ultimately show ?thesis
    unfolding parse_authorization_def pr
    using auth_part_credential [OF assms(1-4)] auth_part_signed_headers
      auth_part_signature [of sig] assms(6) sp
    by (simp add: outbound_headers_def del: append.simps append_assoc append_Cons strip_prefix_Cons)
qed

section \<open>Signing and verifying\<close>

lemma header_value_single:
  assumes "http_laws E" "header_values E h (to_ascii_lowercase n) = [v]" "list_all visible v"
  shows "header_value E h n = Some v"
  using assms by (simp add: header_value_def http_get http_to_str)

lemma collect_signed_Inr_iff:
  "collect_signed E h ns = Inr vs \<longleftrightarrow>
   map fst vs = ns \<and> (\<forall>(n, v) \<in> set vs. header_value E h n = Some v)"
proof (induction ns arbitrary: vs)
  case (Cons n ns)
  have "collect_signed E h (n # ns) = Inr vs \<longleftrightarrow>
      (\<exists>v ws. vs = (n, v) # ws \<and> header_value E h n = Some v \<and> collect_signed E h ns = Inr ws)"
    by (auto split: option.splits sum.splits)
  then show ?case by (cases vs) (auto simp: Cons.IH)
qed auto

text \<open>What a signature is accepted for: a fresh date, every signed header, and the exact MAC.\<close>

lemma verify_accepts_iff:
  "verify E secret p method path query h body now = Some (Inr ()) \<longleftrightarrow>
   (\<exists>date ms vs c.
      header_value E h ''x-amz-date'' = Some date \<and> parse_amz_datetime date = Some ms
      \<and> abs_diff now ms \<le> MAX_SKEW_MS
      \<and> (map fst vs = p_signed_headers p \<and> (\<forall>(n, v) \<in> set vs. header_value E h n = Some v))
      \<and> canonical_request method path query vs (join '';'' (p_signed_headers p)) (payload_hash E h body)
          (double_encode_for (p_service p)) = Some c
      \<and> p_signature p = signature_for E secret (p_region p) (p_service p) date (p_datestamp p) c)"
  unfolding verify_def collect_signed_Inr_iff [symmetric]
  by (auto simp: constant_time_eq_iff bind_Some_iff Let_def linorder_not_less
      split: option.splits sum.splits if_splits)

lemma sign_eq:
  "sign E cr reg svc method host path query body t = Some sg \<longleftrightarrow>
   (\<exists>c. canonical_request method path query
       [(''host'', host), (''x-amz-content-sha256'', sha256_hex E body), (''x-amz-date'', fst (format_amz_datetime t))]
       OUTBOUND_SIGNED_HEADERS (sha256_hex E body) (double_encode_for svc) = Some c
     \<and> sg = \<lparr> sg_authorization = print_authorization (cr_access_key_id cr) (snd (format_amz_datetime t)) reg svc
           (signature_for E (cr_secret_access_key cr) reg svc (fst (format_amz_datetime t)) (snd (format_amz_datetime t)) c),
         sg_amz_date = fst (format_amz_datetime t), sg_content_sha256 = sha256_hex E body \<rparr>)"
  by (auto simp: sign_def print_authorization_def Let_def bind_Some_iff split: prod.splits)

lemma signature_for_plain: "plain (signature_for E s r v d t c)" 
  "signature_for E s r v d t c \<noteq> [] \<Longrightarrow> \<not> ascii_ws (last (signature_for E s r v d t c))"
proof -
  have "CHR ''/'' \<notin> set (to_hex bs)" for bs using to_hex_bytes [of "CHR ''/''" bs] by auto
  then show "plain (signature_for E s r v d t c)"
    by (simp add: signature_for_def Let_def plain_def to_hex_ascii to_hex_no_comma)
  have "\<not> ascii_ws (last (to_hex bs))" if "to_hex bs \<noteq> []" for bs
    using to_hex_bytes [of "last (to_hex bs)" bs] that by (auto simp: ascii_ws_def)
  then show "signature_for E s r v d t c \<noteq> [] \<Longrightarrow> \<not> ascii_ws (last (signature_for E s r v d t c))"
    by (simp add: signature_for_def Let_def)
qed

lemma parse_signed:
  assumes "sign E cr reg svc method host path query body t = Some sg"
    and "plain (cr_access_key_id cr)" "plain reg" "plain svc"
  obtains p where "parse_authorization (sg_authorization sg) = Some p"
    "p_access_key_id p = cr_access_key_id cr" "p_region p = reg" "p_service p = svc"
    "p_datestamp p = snd (format_amz_datetime t)" "p_signed_headers p = outbound_headers"
    "\<exists>c. canonical_request method path query
       [(''host'', host), (''x-amz-content-sha256'', sha256_hex E body), (''x-amz-date'', fst (format_amz_datetime t))]
       OUTBOUND_SIGNED_HEADERS (sha256_hex E body) (double_encode_for svc) = Some c
     \<and> p_signature p = signature_for E (cr_secret_access_key cr) reg svc (fst (format_amz_datetime t))
         (snd (format_amz_datetime t)) c"
proof -
  from assms(1) obtain c where c: "canonical_request method path query
       [(''host'', host), (''x-amz-content-sha256'', sha256_hex E body), (''x-amz-date'', fst (format_amz_datetime t))]
       OUTBOUND_SIGNED_HEADERS (sha256_hex E body) (double_encode_for svc) = Some c"
    and sg: "sg_authorization sg = print_authorization (cr_access_key_id cr) (snd (format_amz_datetime t)) reg svc
           (signature_for E (cr_secret_access_key cr) reg svc (fst (format_amz_datetime t)) (snd (format_amz_datetime t)) c)"
    unfolding sign_eq by auto
  note parse_print_authorization [OF assms(2) datestamp_plain [of t] assms(3,4)
      signature_for_plain(1) [of E "cr_secret_access_key cr" reg svc "fst (format_amz_datetime t)" "snd (format_amz_datetime t)" c]
      signature_for_plain(2)]
  from this [folded sg] show thesis using c by (intro that) auto
qed

lemma verify_signed:
  assumes laws: "http_laws E"
    and sg: "sign E cr reg svc method host path query body t = Some sg"
    and pl: "plain (cr_access_key_id cr)" "plain reg" "plain svc"
    and h: "header_values E h ''host'' = [host]" "list_all visible host"
      "header_values E h ''x-amz-date'' = [sg_amz_date sg]"
      "header_values E h ''x-amz-content-sha256'' = [sg_content_sha256 sg]"
    and t: "t < 253402300800000" "abs_diff now (t div 1000 * 1000) \<le> MAX_SKEW_MS"
  shows "\<exists>p. parse_authorization (sg_authorization sg) = Some p
    \<and> verify E (cr_secret_access_key cr) p method path query h body' now = Some (Inr ())"
proof -
  from parse_signed [OF sg pl] obtain p c where p: "parse_authorization (sg_authorization sg) = Some p"
    "p_region p = reg" "p_service p = svc"
    "p_datestamp p = snd (format_amz_datetime t)" "p_signed_headers p = outbound_headers"
    and c: "canonical_request method path query
       [(''host'', host), (''x-amz-content-sha256'', sha256_hex E body), (''x-amz-date'', fst (format_amz_datetime t))]
       OUTBOUND_SIGNED_HEADERS (sha256_hex E body) (double_encode_for svc) = Some c"
    "p_signature p = signature_for E (cr_secret_access_key cr) reg svc (fst (format_amz_datetime t))
         (snd (format_amz_datetime t)) c"
    by metis
  have sgv: "sg_amz_date sg = fst (format_amz_datetime t)" "sg_content_sha256 sg = sha256_hex E body"
    using sg unfolding sign_eq by auto
  have low: "to_ascii_lowercase ''host'' = ''host''" "to_ascii_lowercase ''x-amz-date'' = ''x-amz-date''"
    "to_ascii_lowercase ''x-amz-content-sha256'' = ''x-amz-content-sha256''" by code_simp+
  have hv: "header_value E h ''host'' = Some host"
    "header_value E h ''x-amz-date'' = Some (fst (format_amz_datetime t))"
    "header_value E h ''x-amz-content-sha256'' = Some (sha256_hex E body)"
    using h sgv by (auto intro!: header_value_single [OF laws] simp: low amz_date_visible sha256_hex_def to_hex_visible)
  let ?vs = "[(''host'', host), (''x-amz-content-sha256'', sha256_hex E body), (''x-amz-date'', fst (format_amz_datetime t))]"
  have "verify E (cr_secret_access_key cr) p method path query h body' now = Some (Inr ())"
    unfolding verify_accepts_iff
  proof (intro exI conjI)
    show "parse_amz_datetime (fst (format_amz_datetime t)) = Some (t div 1000 * 1000)"
      using t(1) by (rule parse_format_amz)
    show "map fst ?vs = p_signed_headers p" by (simp add: p outbound_headers_def)
    show "\<forall>(n, v) \<in> set ?vs. header_value E h n = Some v" using hv by simp
    show "canonical_request method path query ?vs (join '';'' (p_signed_headers p)) (payload_hash E h body')
        (double_encode_for (p_service p)) = Some c"
      using c hv by (simp add: p payload_hash_def outbound_headers_split)
    show "p_signature p = signature_for E (cr_secret_access_key cr) (p_region p) (p_service p)
        (fst (format_amz_datetime t)) (p_datestamp p) c" using c by (simp add: p)
  qed (use hv t in simp_all)
  with p show ?thesis by blast
qed

lemma sign_total: "ascii query \<Longrightarrow> \<exists>sg. sign E cr reg svc method host path query body t = Some sg"
  using canonical_query_ascii [of query] unfolding sign_eq by (auto simp: canonical_request_def Let_def)

text \<open>
  When the request carries \<^verbatim>\<open>x-amz-content-sha256\<close>, that value is taken as the payload hash and the
  body is not looked at: the same signature is accepted for every body.
\<close>

lemma verify_body_unbound:
  "header_value E h ''x-amz-content-sha256'' = Some v \<Longrightarrow>
   verify E secret p method path query h body now = verify E secret p method path query h body' now"
proof -
  assume "header_value E h ''x-amz-content-sha256'' = Some v"
  then have eq: "payload_hash E h body = payload_hash E h body'" by (simp add: payload_hash_def)
  show ?thesis unfolding verify_def eq ..
qed

section \<open>Properties\<close>

text \<open>C9. A request signed by the gateway's signer and sent with exactly the signed headers is accepted
  by the verifier holding the same secret, at any clock reading within the skew window of the
  signing second: the authorization header it wrote is parsed back and the recomputed signature
  matches. The hypotheses are the documented behaviour of the header map, identifiers free of
  the separators, and a signing time before the year 10000.\<close>

theorem sigv4_sign_then_verify:
  assumes "http_laws E"
    and "sign E cr reg svc method host path query body t = Some sg"
    and "plain (cr_access_key_id cr)" "plain reg" "plain svc"
    and "header_values E h ''host'' = [host]" "list_all visible host"
    and "header_values E h ''x-amz-date'' = [sg_amz_date sg]"
    and "header_values E h ''x-amz-content-sha256'' = [sg_content_sha256 sg]"
    and "t < 253402300800000" "abs_diff now (t div 1000 * 1000) \<le> MAX_SKEW_MS"
  shows "\<exists>p. parse_authorization (sg_authorization sg) = Some p
    \<and> p_access_key_id p = cr_access_key_id cr
    \<and> verify E (cr_secret_access_key cr) p method path query h body now = Some (Inr ())"
  using verify_signed [OF assms] parse_signed [OF assms(2-5)] by (metis option.inject)

theorem sigv4_sign_then_verify_witness:
  "\<exists>sg p. sign list_env \<lparr> cr_access_key_id = ''AKID'', cr_secret_access_key = ''secret'' \<rparr> ''us-east-1'' ''ec2'' ''POST''
       ''ec2.amazonaws.com'' ''/a b'' ''x=1&a=%20'' ''body'' 1440938160123 = Some sg
     \<and> parse_authorization (sg_authorization sg) = Some p
     \<and> verify list_env ''secret'' p ''POST'' ''/a b'' ''x=1&a=%20''
         [(''host'', ''ec2.amazonaws.com''), (''x-amz-date'', sg_amz_date sg),
          (''x-amz-content-sha256'', sg_content_sha256 sg)] ''body'' 1440938400000 = Some (Inr ())"
proof -
  let ?cr = "\<lparr> cr_access_key_id = ''AKID'', cr_secret_access_key = ''secret'' \<rparr>"
  obtain sg where sg: "sign list_env ?cr ''us-east-1'' ''ec2'' ''POST''
       ''ec2.amazonaws.com'' ''/a b'' ''x=1&a=%20'' ''body'' 1440938160123 = Some sg"
    using sign_total [of "''x=1&a=%20''"] by (force simp: ascii_def)
  let ?h = "[(''host'', ''ec2.amazonaws.com''), (''x-amz-date'', sg_amz_date sg),
          (''x-amz-content-sha256'', sg_content_sha256 sg)]"
  have "to_ascii_lowercase ''host'' = ''host''" "to_ascii_lowercase ''x-amz-date'' = ''x-amz-date''"
    "to_ascii_lowercase ''x-amz-content-sha256'' = ''x-amz-content-sha256''" by code_simp+
  then have "header_values list_env ?h ''host'' = [''ec2.amazonaws.com'']"
    "header_values list_env ?h ''x-amz-date'' = [sg_amz_date sg]"
    "header_values list_env ?h ''x-amz-content-sha256'' = [sg_content_sha256 sg]"
    by (simp_all add: header_values_def list_env_def)
  moreover have "plain (cr_access_key_id ?cr)" "plain ''us-east-1''" "plain ''ec2''"
    by (simp_all add: plain_def)
  moreover have "list_all visible ''ec2.amazonaws.com''" by (simp add: visible_def)
  moreover have "abs_diff 1440938400000 (1440938160123 div 1000 * 1000) \<le> MAX_SKEW_MS"
    by (simp add: abs_diff_def MAX_SKEW_MS_def)
  ultimately show ?thesis
    using sigv4_sign_then_verify [OF http_laws_list_env sg, of ?h 1440938400000] sg by auto
qed

text \<open>C22. The verifier accepts exactly when the \<^verbatim>\<open>x-amz-date\<close> header is present, well formed and within
  the skew window, every header the client listed is present (its live value is what is signed),
  and the presented signature is byte for byte the MAC of the canonical request over those values.\<close>

theorem verify_accepts_exactly:
  "verify E secret p method path query h body now = Some (Inr ()) \<longleftrightarrow>
   (\<exists>date ms vs c.
      header_value E h ''x-amz-date'' = Some date \<and> parse_amz_datetime date = Some ms
      \<and> abs_diff now ms \<le> MAX_SKEW_MS
      \<and> map fst vs = p_signed_headers p \<and> list_all (\<lambda>(n, v). header_value E h n = Some v) vs
      \<and> canonical_request method path query vs (join '';'' (p_signed_headers p)) (payload_hash E h body)
          (double_encode_for (p_service p)) = Some c
      \<and> p_signature p = signature_for E secret (p_region p) (p_service p) date (p_datestamp p) c)"
  unfolding verify_accepts_iff list_all_iff conj_assoc ..

text \<open>The canonical query is a normal form: canonicalizing it again changes nothing.\<close>

theorem canonical_query_normal_form:
  assumes "canonical_query q = Some c"
  shows "canonical_query c = Some c"
  using assms by (rule canonical_query_idem)

theorem canonical_query_normal_form_witness:
  "canonical_query ''b=%7e&a&a=x y'' = Some ''a=&a=x%20y&b=~''
   \<and> canonical_query ''a=&a=x%20y&b=~'' = Some ''a=&a=x%20y&b=~''"
proof
  show c: "canonical_query ''b=%7e&a&a=x y'' = Some ''a=&a=x%20y&b=~''" by code_simp
  show "canonical_query ''a=&a=x%20y&b=~'' = Some ''a=&a=x%20y&b=~''"
    by (rule canonical_query_normal_form [OF c])
qed

text \<open>The canonical query does not depend on the order in which the client wrote the parameters,
  nor on empty parameters.\<close>

theorem canonical_query_order_irrelevant:
  assumes "mset (filter (\<lambda>p. p \<noteq> []) (split_on (CHR ''&'') q)) = mset (filter (\<lambda>p. p \<noteq> []) (split_on (CHR ''&'') q'))"
  shows "canonical_query q = canonical_query q'"
  using assms by (rule canonical_query_perm)

theorem canonical_query_order_irrelevant_witness:
  "canonical_query ''b=2&&a=1'' = canonical_query ''a=1&b=2''"
  by (rule canonical_query_order_irrelevant) simp

end
