(* ===== verification/Canonicalize.thy ===== *)
theory Canonicalize
  imports Codec
begin

text \<open>
  \<^verbatim>\<open>gateway/src/canonicalize.rs\<close>: the fold of a request path into its canonical form. The loop over
  the segments is a recursion on them with the stack as its state (the stack grows at the end,
  as the \<^verbatim>\<open>Vec\<close> does); the result is the escape error, a canonical path, or the percent decoder's
  panic.
\<close>

section \<open>Definitions\<close>

record canonical_path =
  cp_decoded :: string
  cp_encoded :: string

datatype canon_error = Escape

fun push_segments :: "string list \<Rightarrow> string list \<Rightarrow> (canon_error + string list) option" where
  "push_segments stack [] = Some (Inr stack)"
| "push_segments stack (seg # segs) = do {
     d \<leftarrow> percent_decode seg;
     let decoded = from_utf8_lossy d;
     if decoded = [] \<or> decoded = ''.'' then push_segments stack segs
     else if decoded = ''..'' then
       (if stack = [] then Some (Inl Escape) else push_segments (butlast stack) segs)
     else push_segments (stack @ [decoded]) segs
   }"

definition path_of_stack :: "string list \<Rightarrow> canonical_path" where
  "path_of_stack stack =
     \<lparr> cp_decoded = ''/'' @ join ''/'' stack,
       cp_encoded = ''/'' @ join ''/'' (map (\<lambda>s. uri_encode s True) stack) \<rparr>"

definition canonicalize :: "string \<Rightarrow> (canon_error + canonical_path) option" where
  "canonicalize raw =
     map_option (map_sum id path_of_stack)
       (push_segments [] (split_on (CHR ''/'') (trim_start_matches (CHR ''/'') raw)))"

section \<open>The stack\<close>

text \<open>A segment of a canonical path: not empty, not a dot segment, valid UTF-8.\<close>

definition good_segment :: "string \<Rightarrow> bool" where
  "good_segment s \<longleftrightarrow> s \<noteq> [] \<and> s \<noteq> ''.'' \<and> s \<noteq> ''..'' \<and> utf8 s"

lemma push_segments_good:
  assumes "push_segments stack segs = Some (Inr out)" "list_all good_segment stack"
  shows "list_all good_segment out"
  using assms
proof (induction stack segs rule: push_segments.induct)
  case (2 stack seg segs)
  then obtain d where d: "percent_decode seg = Some d" by (auto simp: bind_Some_iff)
  let ?d = "from_utf8_lossy d"
  consider "?d = [] \<or> ?d = ''.''" | "?d = ''..''" "stack \<noteq> []" | "good_segment ?d"
    using "2.prems"(1) d by (force simp: good_segment_def Let_def split: if_splits)
  then show ?case
  proof cases
    case 1
    with 2 d show ?thesis by (auto simp: Let_def)
  next
    case 2
    then have "list_all good_segment (butlast stack)"
      using \<open>list_all good_segment stack\<close> by (auto simp: list_all_iff dest: in_set_butlastD)
    with 2 "2.prems" "2.IH"(2) [OF d refl] d show ?thesis by (simp add: Let_def)
  next
    case 3
    with 2 d show ?thesis by (auto simp: good_segment_def Let_def)
  qed
qed simp

text \<open>A good segment survives encoding, so a stack of them is read back unchanged.\<close>

lemma push_segments_encoded:
  "list_all good_segment segs \<Longrightarrow>
   push_segments stack (map (\<lambda>s. uri_encode s True) segs) = Some (Inr (stack @ segs))"
  by (induction segs arbitrary: stack)
    (auto simp: percent_decode_uri_encode good_segment_def Let_def)

lemma split_encoded:
  "segs \<noteq> [] \<Longrightarrow> split_on (CHR ''/'') (join ''/'' (map (\<lambda>s. uri_encode s True) segs)) = map (\<lambda>s. uri_encode s True) segs"
  by (rule split_join) auto

lemma trim_encoded:
  assumes "list_all good_segment segs"
  shows "trim_start_matches (CHR ''/'') (''/'' @ join ''/'' (map (\<lambda>s. uri_encode s True) segs))
    = join ''/'' (map (\<lambda>s. uri_encode s True) segs)"
proof (cases segs)
  case (Cons s ss)
  then have "uri_encode s True \<noteq> []" using assms by (simp add: good_segment_def)
  then obtain c cs where c: "uri_encode s True = c # cs" by (cases "uri_encode s True") auto
  then have "c \<noteq> CHR ''/''" using uri_encode_no_slash [of s] by auto
  with c Cons show ?thesis by (cases ss) (auto simp: trim_start_matches_def)
qed (simp add: trim_start_matches_def)

lemma canonicalize_Inr:
  assumes "canonicalize raw = Some (Inr cp)"
  obtains stack where "list_all good_segment stack" "cp = path_of_stack stack"
    "push_segments [] (split_on (CHR ''/'') (trim_start_matches (CHR ''/'') raw)) = Some (Inr stack)"
proof -
  from assms obtain r where r: "push_segments [] (split_on (CHR ''/'') (trim_start_matches (CHR ''/'') raw)) = Some r"
    "map_sum id path_of_stack r = Inr cp" by (auto simp: canonicalize_def map_option_Some_iff)
  then obtain stack where "r = Inr stack" "cp = path_of_stack stack" by (cases r) auto
  with r push_segments_good [of "[]" _ stack] that show thesis by auto
qed

lemma canonicalize_encoded:
  assumes "list_all good_segment stack"
  shows "canonicalize (cp_encoded (path_of_stack stack)) = Some (Inr (path_of_stack stack))"
proof (cases "stack = []")
  case True
  then show ?thesis by (simp add: canonicalize_def path_of_stack_def trim_start_matches_def)
next
  case False
  have "split_on (CHR ''/'') (trim_start_matches (CHR ''/'') (cp_encoded (path_of_stack stack)))
      = map (\<lambda>s. uri_encode s True) stack"
    using assms trim_encoded [of stack] split_encoded [OF False] by (simp add: path_of_stack_def)
  then show ?thesis
    using push_segments_encoded [OF assms, of "[]"] by (simp add: canonicalize_def)
qed

text \<open>The dot segments, counted: an escape is a prefix with more \<^verbatim>\<open>..\<close> than pushed segments.\<close>

fun stays_below_root :: "nat \<Rightarrow> string list \<Rightarrow> bool" where
  "stays_below_root n [] = True"
| "stays_below_root n (d # ds) =
     (if d = [] \<or> d = ''.'' then stays_below_root n ds
      else if d = ''..'' then n \<noteq> 0 \<and> stays_below_root (n - 1) ds
      else stays_below_root (Suc n) ds)"

lemma push_segments_escape:
  assumes "map percent_decode segs = map Some ds"
  shows "if stays_below_root (length stack) (map from_utf8_lossy ds)
    then \<exists>out. push_segments stack segs = Some (Inr out) else push_segments stack segs = Some (Inl Escape)"
  using assms
proof (induction segs arbitrary: stack ds)
  case (Cons seg segs)
  then obtain z zs where z: "ds = z # zs" "percent_decode seg = Some z" "map percent_decode segs = map Some zs"
    by (auto simp: Cons_eq_map_conv)
  consider "from_utf8_lossy z = [] \<or> from_utf8_lossy z = ''.''" | "from_utf8_lossy z = ''..''"
    | "from_utf8_lossy z \<noteq> []" "from_utf8_lossy z \<noteq> ''.''" "from_utf8_lossy z \<noteq> ''..''" by blast
  then show ?case
  proof cases
    case 1
    with z Cons.IH [OF z(3), of stack] show ?thesis by auto
  next
    case 2
    with z Cons.IH [OF z(3), of "butlast stack"] show ?thesis by auto
  next
    case 3
    with z Cons.IH [OF z(3), of "stack @ [from_utf8_lossy z]"] show ?thesis by simp
  qed
qed auto

lemma percent_decode_ascii_list:
  assumes "\<And>s. s \<in> set segs \<Longrightarrow> ascii s"
  obtains ds where "map percent_decode segs = map Some ds"
  using assms percent_decode_ascii
  by (metis map_panic_None_iff map_panic_Some_iff not_Some_eq)

lemma split_ascii: "ascii s \<Longrightarrow> p \<in> set (split_on d (trim_start_matches e s)) \<Longrightarrow> ascii p"
  using split_on_subset [of p d "trim_start_matches e s"] set_dropWhileD [of _ "(=) e" s]
  by (fastforce simp: ascii_def list_all_iff trim_start_matches_def)

section \<open>Properties\<close>

text \<open>C23. A canonical path is rooted, and its segments (the ones the encoded view shows the upstream)
  are neither empty nor dot segments: the encoded view splits into the slash and exactly the
  encodings of those segments, its bytes are unreserved characters, escapes and slashes, and the
  decoded view the policy sees is the same segments decoded.\<close>

theorem canonical_path_shape:
  assumes "canonicalize raw = Some (Inr cp)"
  shows "\<exists>segs. list_all good_segment segs
    \<and> cp_decoded cp = ''/'' @ join ''/'' segs
    \<and> cp_encoded cp = ''/'' @ join ''/'' (map (\<lambda>s. uri_encode s True) segs)
    \<and> set (cp_encoded cp) \<subseteq> {c. unreserved c \<or> c = CHR ''%'' \<or> c = CHR ''/''}"
proof -
  obtain segs where segs: "list_all good_segment segs" "cp = path_of_stack segs"
    using canonicalize_Inr [OF assms] by blast
  have "set (join ''/'' (map (\<lambda>s. uri_encode s True) segs)) \<subseteq> {c. unreserved c \<or> c = CHR ''%'' \<or> c = CHR ''/''}"
    using set_join [of "''/''" "map (\<lambda>s. uri_encode s True) segs"] uri_encode_bytes
    by (fastforce simp: uri_byte_def)
  with segs show ?thesis by (auto simp: path_of_stack_def)
qed

theorem canonical_path_shape_witness:
  "canonicalize ''//repos/./a%20b/x/..//%2e%2E/c/'' = Some (Inr \<lparr> cp_decoded = ''/repos/c'', cp_encoded = ''/repos/c'' \<rparr>)
   \<and> (\<exists>segs. list_all good_segment segs \<and> ''/repos/c'' = ''/'' @ join ''/'' segs)"
proof
  show c: "canonicalize ''//repos/./a%20b/x/..//%2e%2E/c/'' = Some (Inr \<lparr> cp_decoded = ''/repos/c'', cp_encoded = ''/repos/c'' \<rparr>)"
    by code_simp
  show "\<exists>segs. list_all good_segment segs \<and> ''/repos/c'' = ''/'' @ join ''/'' segs"
    using canonical_path_shape [OF c] by auto
qed

text \<open>Canonicalization is idempotent: the path that is forwarded upstream canonicalizes to itself,
  with the same decoded view, so an upstream that canonicalizes again sees the path that was decided.\<close>

theorem canonicalize_idempotent:
  assumes "canonicalize raw = Some (Inr cp)"
  shows "canonicalize (cp_encoded cp) = Some (Inr cp)"
  using assms canonicalize_encoded by (metis canonicalize_Inr)

theorem canonicalize_idempotent_witness:
  "canonicalize ''/x/../a//%2f../b+c'' = Some (Inr \<lparr> cp_decoded = ''/a//../b c'', cp_encoded = ''/a/%2F../b%20c'' \<rparr>)
   \<and> canonicalize ''/a/%2F../b%20c'' = Some (Inr \<lparr> cp_decoded = ''/a//../b c'', cp_encoded = ''/a/%2F../b%20c'' \<rparr>)"
proof -
  have c: "canonicalize ''/x/../a//%2f../b+c'' = Some (Inr \<lparr> cp_decoded = ''/a//../b c'', cp_encoded = ''/a/%2F../b%20c'' \<rparr>)"
    by code_simp
  from canonicalize_idempotent [OF this] c show ?thesis by simp
qed



text \<open>
  An encoded slash is one segment for the upstream, but the decoded view joins segments with the
  plain slash: what a policy glob splits has more segments, here even an empty and a parent one.
\<close>

lemma decoded_view_splits_encoded_slash:
  "canonicalize ''/a/%2F../b'' = Some (Inr \<lparr> cp_decoded = ''/a//../b'', cp_encoded = ''/a/%2F../b'' \<rparr>)"
  "split_on (CHR ''/'') ''a//../b'' = [''a'', [], ''..'', ''b'']"
  by code_simp+

end
