(* ===== verification/Service.thy ===== *)
theory Service
  imports Models Utf8
begin

text \<open>
  \<^verbatim>\<open>gateway/src/service.rs\<close>: the configured upstream services, the host router and the action
  catalogs. The \<^verbatim>\<open>BTreeSet\<close> of a catalog is a set, the list of services keeps its order. The
  router is a second client of the interface \<open>first_match\<close>.
\<close>

section \<open>Configuration types\<close>

datatype flavor = Github | K8s | Generic

datatype protocol = Rest | AwsQuery | AwsJson

definition protocol_parse :: "string option \<Rightarrow> protocol" where
  "protocol_parse nm =
     (case nm of
        Some n \<Rightarrow>
          if eq_ignore_ascii_case n ''aws-query'' then AwsQuery
          else if eq_ignore_ascii_case n ''aws-json'' then AwsJson
          else Rest
      | None \<Rightarrow> Rest)"

record extraction =
  x_protocol :: protocol
  x_path_template :: "string option"

definition extract_default :: extraction where
  "extract_default = \<lparr> x_protocol = Rest, x_path_template = None \<rparr>"

definition flavor_parse :: "string option \<Rightarrow> flavor" where
  "flavor_parse nm =
     (case nm of
        Some n \<Rightarrow>
          if eq_ignore_ascii_case n ''github'' then Github
          else if eq_ignore_ascii_case n ''k8s'' then K8s
          else Generic
      | None \<Rightarrow> Generic)"

fun flavor_name :: "flavor \<Rightarrow> string" where
  "flavor_name Github = ''github''"
| "flavor_name K8s = ''k8s''"
| "flavor_name Generic = ''generic''"

datatype outbound =
    Passthrough
  | Bearer string
  | Header string string
  | OutSigV4 string string string string

fun credential_id :: "outbound \<Rightarrow> string option" where
  "credential_id Passthrough = None"
| "credential_id (Bearer credential) = Some credential"
| "credential_id (Header _ credential) = Some credential"
| "credential_id (OutSigV4 credential _ _ _) = Some credential"

section \<open>Catalogs\<close>

type_synonym catalog = "string set"

definition catalog_of :: "string list \<Rightarrow> catalog" where
  "catalog_of actions = set actions"

definition METHODS :: "string list" where
  "METHODS = [''get'', ''put'', ''post'', ''delete'', ''patch'', ''head'', ''options'']"

text \<open>The action an operation object contributes.\<close>

definition operation_action :: "string \<Rightarrow> string \<Rightarrow> json \<Rightarrow> string" where
  "operation_action path meth opn =
     (case Option.bind (value_get opn ''operationId'') as_str of
        Some i \<Rightarrow> i
      | None \<Rightarrow> to_ascii_uppercase meth @ '' '' @ path)"

fun collect_methods :: "string \<Rightarrow> (string, json) assoc \<Rightarrow> string list \<Rightarrow> catalog \<Rightarrow> catalog" where
  "collect_methods path item [] actions = actions"
| "collect_methods path item (m # ms) actions =
     (case map_of item m of
        None \<Rightarrow> collect_methods path item ms actions
      | Some opn \<Rightarrow> collect_methods path item ms (insert (operation_action path m opn) actions))"

fun collect_paths :: "(string, json) assoc \<Rightarrow> catalog \<Rightarrow> catalog" where
  "collect_paths [] actions = actions"
| "collect_paths ((path, item) # paths) actions =
     (case as_object item of
        None \<Rightarrow> collect_paths paths actions
      | Some obj \<Rightarrow> collect_paths paths (collect_methods path obj METHODS actions))"

definition from_openapi :: "json \<Rightarrow> catalog" where
  "from_openapi spec =
     (case Option.bind (value_get spec ''paths'') as_object of
        None \<Rightarrow> {}
      | Some paths \<Rightarrow> collect_paths paths {})"

definition catalog_is_empty :: "catalog \<Rightarrow> bool" where
  "catalog_is_empty c = (c = {})"

definition catalog_knows :: "catalog \<Rightarrow> string \<Rightarrow> bool" where
  "catalog_knows c action = (action \<in> c)"

section \<open>Services and routing\<close>

record service =
  s_name :: string
  s_host :: string
  s_upstream_base :: string
  s_flavor :: flavor
  s_outbound :: outbound
  s_address :: string
  s_extract :: extraction

definition service_new :: "string \<Rightarrow> string \<Rightarrow> string \<Rightarrow> service" where
  "service_new nm host upstream_base =
     \<lparr> s_name = nm, s_host = host, s_upstream_base = upstream_base, s_flavor = Generic,
       s_outbound = Passthrough, s_address = [], s_extract = extract_default \<rparr>"

definition with_flavor :: "flavor \<Rightarrow> service \<Rightarrow> service" where
  "with_flavor f s = s\<lparr> s_flavor := f \<rparr>"

definition with_outbound :: "outbound \<Rightarrow> service \<Rightarrow> service" where
  "with_outbound out s = s\<lparr> s_outbound := out \<rparr>"

definition with_address :: "string \<Rightarrow> service \<Rightarrow> service" where
  "with_address a s = s\<lparr> s_address := a \<rparr>"

definition with_extract :: "extraction \<Rightarrow> service \<Rightarrow> service" where
  "with_extract x s = s\<lparr> s_extract := x \<rparr>"

definition is_ascii_digit :: "char \<Rightarrow> bool" where
  "is_ascii_digit c \<longleftrightarrow> 48 \<le> byte c \<and> byte c \<le> 57"

definition normalize_host :: "string \<Rightarrow> string" where
  "normalize_host h0 =
     (let host = to_ascii_lowercase (trim h0) in
      case rsplit_once (CHR '':'') host of
        Some (h, port) \<Rightarrow> if port \<noteq> [] \<and> list_all is_ascii_digit port then h else host
      | None \<Rightarrow> host)"

definition host_matches :: "string \<Rightarrow> string \<Rightarrow> bool" where
  "host_matches pattern0 host =
     (let pattern = to_ascii_lowercase (trim pattern0) in
      if pattern = ''*'' then True
      else case strip_prefix ''*.'' pattern of
          Some sfx \<Rightarrow> host = sfx \<or> ends_with (''.'' @ sfx) host
        | None \<Rightarrow> pattern = host)"

definition route :: "service list \<Rightarrow> string \<Rightarrow> service option" where
  "route services host = List.find (\<lambda>s. host_matches (s_host s) (normalize_host host)) services"

section \<open>Lemmas\<close>

interpretation router_scan: first_match "\<lambda>services. route services host"
    "\<lambda>s. host_matches (s_host s) (normalize_host host)" for host
  by unfold_locales (simp_all add: route_def)

lemma routeD: "route services host = Some s \<Longrightarrow> s \<in> set services"
  by (auto simp: route_def dest: find_SomeD)

text \<open>A host name as it stands in a request: ASCII, no white space, no port.\<close>

definition hostname :: "string \<Rightarrow> bool" where
  "hostname h \<longleftrightarrow> ascii h \<and> list_all (\<lambda>c. \<not> ascii_ws c \<and> c \<noteq> CHR '':'') h"

lemma to_lower_colon: "to_lower c = CHR '':'' \<longleftrightarrow> c = CHR '':''"
  by (auto simp: to_lower_def byte_eq_iff [symmetric] simp del: of_char_eq_iff)

lemma hostname_lower: "hostname h \<Longrightarrow> CHR '':'' \<notin> set (to_ascii_lowercase h)"
  using to_lower_colon by (fastforce simp: hostname_def to_ascii_lowercase_def list_all_iff)

lemma trim_no_ws: "ascii s \<Longrightarrow> list_all (\<lambda>c. \<not> ascii_ws c) s \<Longrightarrow> trim s = s"
  by (rule trim_ascii_id) (auto simp: list_all_iff)

lemma digit_lower: "is_ascii_digit c \<Longrightarrow> to_lower c = c"
  by (auto simp: is_ascii_digit_def to_lower_def)

lemma digits_lower: "list_all is_ascii_digit p \<Longrightarrow> to_ascii_lowercase p = p"
  unfolding to_ascii_lowercase_def list_all_iff using digit_lower by (intro map_idI) auto

lemma digits_no_colon: "list_all is_ascii_digit p \<Longrightarrow> CHR '':'' \<notin> set p"
  by (auto simp: list_all_iff is_ascii_digit_def)

lemma normalize_hostname: "hostname h \<Longrightarrow> normalize_host h = to_ascii_lowercase h"
proof -
  assume h: "hostname h"
  then have "trim h = h" by (intro trim_no_ws) (auto simp: hostname_def list_all_iff)
  moreover have "rsplit_once (CHR '':'') (to_ascii_lowercase h) = None"
    using hostname_lower [OF h] by (simp add: rsplit_once_None_iff)
  ultimately show ?thesis by (simp add: normalize_host_def)
qed

lemma normalize_host_port:
  assumes "hostname h" "port \<noteq> []" "list_all is_ascii_digit port"
  shows "normalize_host (h @ '':'' @ port) = to_ascii_lowercase h"
proof -
  have "list_all (\<lambda>c. byte c < 128 \<and> \<not> ascii_ws c) port"
    using assms(3) by (auto simp: list_all_iff is_ascii_digit_def ascii_ws_def)
  then have "trim (h @ '':'' @ port) = h @ '':'' @ port"
    using assms(1) by (intro trim_no_ws) (auto simp: hostname_def ascii_def list_all_iff ascii_ws_def)
  moreover have "to_lower (CHR '':'') = CHR '':''" by (simp add: to_lower_colon)
  moreover have "rsplit_once (CHR '':'') (to_ascii_lowercase h @ CHR '':'' # port) = Some (to_ascii_lowercase h, port)"
    using digits_no_colon [OF assms(3)] by (simp add: rsplit_once_Some_iff)
  ultimately show ?thesis
    using assms digits_lower [OF assms(3)]
    by (simp add: normalize_host_def) (simp add: to_ascii_lowercase_def)
qed

section \<open>Catalog contents\<close>

lemma collect_methods_iff:
  "a \<in> collect_methods path item ms actions \<longleftrightarrow>
   a \<in> actions \<or> (\<exists>m opn. m \<in> set ms \<and> map_of item m = Some opn \<and> a = operation_action path m opn)"
  by (induction ms arbitrary: actions) (auto split: option.splits)

definition declares :: "string \<Rightarrow> string \<times> json \<Rightarrow> bool" where
  "declares a pp \<longleftrightarrow> (\<exists>obj m opn. as_object (snd pp) = Some obj \<and> m \<in> set METHODS
     \<and> map_of obj m = Some opn \<and> a = operation_action (fst pp) m opn)"

lemma collect_paths_iff: "a \<in> collect_paths paths actions \<longleftrightarrow> a \<in> actions \<or> (\<exists>pp \<in> set paths. declares a pp)"
proof (induction paths arbitrary: actions)
  case (Cons kv paths)
  obtain path item where kv: "kv = (path, item)" by (cases kv)
  have "a \<in> collect_paths (kv # paths) actions \<longleftrightarrow>
      a \<in> actions \<or> declares a kv \<or> (\<exists>pp \<in> set paths. declares a pp)"
    unfolding kv by (auto simp: Cons.IH declares_def collect_methods_iff split: option.splits)
  then show ?case by simp
qed simp

section \<open>Properties\<close>

text \<open>A host is routed to the first service, in configuration order, whose pattern matches its
  normalized form; no other service can be chosen, and no service is chosen exactly when none
  matches.\<close>

theorem route_first_matching_service:
  "(route services host = Some s \<longleftrightarrow>
     (\<exists>before after. services = before @ s # after \<and> host_matches (s_host s) (normalize_host host)
        \<and> list_all (\<lambda>q. \<not> host_matches (s_host q) (normalize_host host)) before))
   \<and> (route services host = None \<longleftrightarrow> list_all (\<lambda>q. \<not> host_matches (s_host q) (normalize_host host)) services)"
  unfolding list_all_iff using router_scan.pick_Some router_scan.pick_None by blast

text \<open>What a host pattern means: the star matches every host; \<^verbatim>\<open>*.suffix\<close> matches the suffix
  itself and hosts that end in a dot and the suffix (a wildcard never matches across a label
  boundary, so \<^verbatim>\<open>*.ex.com\<close> does not match \<^verbatim>\<open>evilex.com\<close>); any other pattern matches one host.\<close>

theorem host_pattern_meaning:
  "host_matches pat host \<longleftrightarrow>
     (let p = to_ascii_lowercase (trim pat) in
      p = ''*''
      \<or> (\<exists>sfx. p = ''*.'' @ sfx \<and> (host = sfx \<or> (\<exists>sub. host = sub @ ''.'' @ sfx)))
      \<or> p = host \<and> (\<nexists>sfx. p = ''*.'' @ sfx))"
  by (auto simp: host_matches_def Let_def ends_with_iff strip_prefix_Some_iff strip_prefix_None_iff
      split: option.splits)

text \<open>Routing ignores the letter case of the request's host and a numeric port: both spellings
  reach the same service.\<close>

theorem route_ignores_case_and_port:
  assumes "hostname h" "hostname h'" "eq_ignore_ascii_case h h'"
    and "port \<noteq> []" "list_all is_ascii_digit port"
  shows "route services (h @ '':'' @ port) = route services h'"
  using normalize_host_port [OF assms(1,4,5)] normalize_hostname [OF assms(2)] assms(3)
  by (simp add: route_def eq_ignore_ascii_case_def)

theorem route_ignores_case_and_port_witness:
  "route [service_new ''gh'' ''*.github.com'' ''https://api.github.com''] ''API.GitHub.com:8443''
   = route [service_new ''gh'' ''*.github.com'' ''https://api.github.com''] ''api.github.com''"
proof -
  have h: "hostname ''API.GitHub.com''" "hostname ''api.github.com''" "list_all is_ascii_digit ''8443''"
    "eq_ignore_ascii_case ''API.GitHub.com'' ''api.github.com''" by code_simp+
  from route_ignores_case_and_port [OF h(1,2,4) _ h(3)] show ?thesis by simp
qed

text \<open>A catalog ingested from an OpenAPI document knows exactly the operations of the document:
  for each path object and each of the seven methods it declares, the \<^verbatim>\<open>operationId\<close> when that is a
  string, else the upper-case method and the path.\<close>

theorem from_openapi_knows_operations:
  "catalog_knows (from_openapi spec) a \<longleftrightarrow>
   (\<exists>paths path item obj m opn. Option.bind (value_get spec ''paths'') as_object = Some paths
      \<and> (path, item) \<in> set paths \<and> as_object item = Some obj \<and> m \<in> set METHODS
      \<and> map_of obj m = Some opn \<and> a = operation_action path m opn)"
proof (cases "Option.bind (value_get spec ''paths'') as_object")
  case (Some paths)
  then show ?thesis
    by (force simp: from_openapi_def catalog_knows_def collect_paths_iff declares_def)
qed (simp add: from_openapi_def catalog_knows_def)

end
