(* ===== verification/Normalize.thy ===== *)
theory Normalize
  imports Service Codec Externals
begin

text \<open>
  \<^verbatim>\<open>gateway/src/normalize.rs\<close>: how a raw request becomes the action that a policy decides.
  Everything that percent-decodes returns an \<open>option\<close> for the decoder's panic. The JSON parser
  is a parameter of the environment; an HTTP method is its token.
\<close>

section \<open>Definitions\<close>

record 'h proxy_request =
  q_method :: string
  q_path :: string
  q_query :: string
  q_headers :: "'h"
  q_body :: bytes

definition UNPARSED :: string where
  "UNPARSED = ''__unparsed__''"

definition decode_field :: "string \<Rightarrow> string option" where
  "decode_field s = map_option from_utf8_lossy (percent_decode s)"

definition parse_pair :: "string \<Rightarrow> (string \<times> string) option" where
  "parse_pair pair =
     (case split_once (CHR ''='') pair of
        Some (k, v) \<Rightarrow> do { k' \<leftarrow> decode_field k; v' \<leftarrow> decode_field v; Some (k', v') }
      | None \<Rightarrow> do { k' \<leftarrow> decode_field pair; Some (k', []) })"

definition parse_query :: "string \<Rightarrow> (string \<times> string) list option" where
  "parse_query query =
     (if query = [] then Some []
      else map_panic parse_pair (filter (\<lambda>p. p \<noteq> []) (split_on (CHR ''&'') query)))"

fun insert_strings :: "(string \<times> string) list \<Rightarrow> (string, json) assoc \<Rightarrow> (string, json) assoc" where
  "insert_strings [] m = m"
| "insert_strings ((k, v) # kvs) m = insert_strings kvs (bt_insert k (String v) m)"

definition merge_fields :: "'h env \<Rightarrow> string \<Rightarrow> bytes \<Rightarrow> json option" where
  "merge_fields E query body = do {
     qs \<leftarrow> parse_query query;
     let m = insert_strings qs [];
     case json_from_slice E body of
       Some (Object obj) \<Rightarrow> Some (Object (fold (\<lambda>(k, v). bt_insert k v) obj m))
     | _ \<Rightarrow>
         (case from_utf8 body of
            Some text \<Rightarrow>
              if CHR ''='' \<in> set text then do {
                bs \<leftarrow> parse_query text;
                Some (Object (insert_strings bs m))
              } else Some (Object m)
          | None \<Rightarrow> Some (Object m))
   }"

definition verb_for :: "string \<Rightarrow> verb" where
  "verb_for meth =
     verb_crud
       (if meth = ''GET'' \<or> meth = ''HEAD'' \<or> meth = ''OPTIONS'' then Read
        else if meth = ''POST'' then Create
        else if meth = ''PUT'' \<or> meth = ''PATCH'' then Update
        else if meth = ''DELETE'' then Delete
        else Read)"

definition find_action :: "(string \<times> string) list \<Rightarrow> string option" where
  "find_action pairs = map_option snd (List.find (\<lambda>(k, _). k = ''Action'') pairs)"

text \<open>The query string is parsed (and can panic) only when the body has no action.\<close>

definition aws_query_action :: "'h proxy_request \<Rightarrow> verb option" where
  "aws_query_action req = do {
     from_body \<leftarrow> (case from_utf8 (q_body req) of
         Some b \<Rightarrow> map_option find_action (parse_query b)
       | None \<Rightarrow> Some None);
     opn \<leftarrow> (case from_body of
         Some v \<Rightarrow> Some (Some v)
       | None \<Rightarrow> map_option find_action (parse_query (q_query req)));
     Some (case opn of
         Some v \<Rightarrow> if v \<noteq> [] then verb_action v else verb_action UNPARSED
       | None \<Rightarrow> verb_action UNPARSED)
   }"

text \<open>\<^verbatim>\<open>rsplit('.').next()\<close> is what follows the last dot.\<close>

definition after_last_dot :: "string \<Rightarrow> string" where
  "after_last_dot s = (case rsplit_once (CHR ''.'') s of Some (_, r) \<Rightarrow> r | None \<Rightarrow> s)"

definition aws_json_action :: "'h env \<Rightarrow> 'h proxy_request \<Rightarrow> verb" where
  "aws_json_action E req =
     (case Option.bind (headers_get E (q_headers req) ''x-amz-target'') (value_to_str E) of
        Some t \<Rightarrow> if t \<noteq> [] then verb_action (after_last_dot t) else verb_action UNPARSED
      | None \<Rightarrow> verb_action UNPARSED)"

definition verb_for_protocol :: "'h env \<Rightarrow> protocol \<Rightarrow> 'h proxy_request \<Rightarrow> verb option" where
  "verb_for_protocol E p req =
     (case p of
        Rest \<Rightarrow> Some (verb_for (q_method req))
      | AwsQuery \<Rightarrow> aws_query_action req
      | AwsJson \<Rightarrow> Some (aws_json_action E req))"

definition generic_resource :: "string \<Rightarrow> resource" where
  "generic_resource path =
     (if path = [] then resource_of [] ''root''
      else resource_of path (case split_on (CHR ''/'') path of k # _ \<Rightarrow> k | [] \<Rightarrow> ''other''))"

definition github_collection_kind :: "string \<Rightarrow> string" where
  "github_collection_kind collection =
     (if collection = ''pulls'' then ''pull_request''
      else if collection = ''issues'' then ''issue''
      else if collection = ''contents'' then ''contents''
      else if collection = ''git'' then ''git''
      else if collection = ''actions'' then ''actions''
      else if collection = ''hooks'' then ''hook''
      else ''repo_subresource'')"

definition github_kind :: "string list \<Rightarrow> string" where
  "github_kind segments =
     (case segments of
        [r, _, _] \<Rightarrow> if r = ''repos'' then ''repo'' else r
      | r # _ # _ # collection # _ \<Rightarrow> if r = ''repos'' then github_collection_kind collection else r
      | first # _ \<Rightarrow> first
      | [] \<Rightarrow> ''other'')"

definition github_resource :: "string \<Rightarrow> resource" where
  "github_resource path =
     (if path = [] then resource_of [] ''root''
      else resource_of path (github_kind (split_on (CHR ''/'') path)))"

text \<open>\<^verbatim>\<open>Iterator::position\<close> and \<^verbatim>\<open>[T]::get(i)\<close>.\<close>

fun position :: "('a \<Rightarrow> bool) \<Rightarrow> 'a list \<Rightarrow> nat option" where
  "position P [] = None"
| "position P (x # xs) = (if P x then Some 0 else map_option Suc (position P xs))"

definition list_get :: "'a list \<Rightarrow> nat \<Rightarrow> 'a option" where
  "list_get xs i = (if i < length xs then Some (xs ! i) else None)"

definition k8s_kind :: "string list \<Rightarrow> string" where
  "k8s_kind segs =
     (case Option.bind (position (\<lambda>s. s = ''namespaces'') segs) (\<lambda>i. list_get segs (i + 2)) of
        Some k \<Rightarrow> k
      | None \<Rightarrow> if segs \<noteq> [] then last segs else ''resource'')"

definition k8s_resource :: "string \<Rightarrow> resource" where
  "k8s_resource path =
     (if path = [] then resource_of [] ''root''
      else resource_of path (k8s_kind (split_on (CHR ''/'') path)))"

text \<open>The loop over the template's segments, at index \<open>i\<close>; \<open>p\<close> are the segments of the path.\<close>

fun capture_segments ::
  "string list \<Rightarrow> nat \<Rightarrow> string list \<Rightarrow> (string, json) assoc \<Rightarrow> (string, json) assoc" where
  "capture_segments p i [] m = m"
| "capture_segments p i (seg # t) m =
     (case Option.bind (strip_prefix ''{'' seg) (strip_suffix ''}'') of
        None \<Rightarrow> capture_segments p (Suc i) t m
      | Some nm \<Rightarrow>
          (case strip_suffix ''+'' nm of
             Some rest_name \<Rightarrow>
               let rest = (if i \<le> length p then join ''/'' (drop i p) else []) in
               capture_segments p (Suc i) t (if rest \<noteq> [] then bt_insert rest_name (String rest) m else m)
           | None \<Rightarrow>
               (case list_get p i of
                  Some v \<Rightarrow> capture_segments p (Suc i) t (bt_insert nm (String v) m)
                | None \<Rightarrow> capture_segments p (Suc i) t m)))"

definition capture_path_template :: "string \<Rightarrow> string \<Rightarrow> json \<Rightarrow> json" where
  "capture_path_template template path fs =
     (case fs of
        Object m \<Rightarrow>
          Object (capture_segments (split_on (CHR ''/'') path) 0
            (split_on (CHR ''/'') (trim_start_matches (CHR ''/'') template)) m)
      | v \<Rightarrow> v)"

definition normalize :: "'h env \<Rightarrow> service \<Rightarrow> 'h proxy_request \<Rightarrow> string \<Rightarrow> action option" where
  "normalize E svc req decoded_path =
     (let path = trim_start_matches (CHR ''/'') decoded_path;
          res = (case s_flavor svc of
              Github \<Rightarrow> github_resource path
            | K8s \<Rightarrow> k8s_resource path
            | Generic \<Rightarrow> generic_resource path)
      in do {
        vb \<leftarrow> verb_for_protocol E (x_protocol (s_extract svc)) req;
        fs \<leftarrow> merge_fields E (q_query req) (q_body req);
        let fs = (case x_path_template (s_extract svc) of
            Some template \<Rightarrow> capture_path_template template path fs
          | None \<Rightarrow> fs);
        Some (with_fields fs (action_of (s_name svc) vb res))
      })"

section \<open>Parsing does not panic on ASCII\<close>

lemma decode_field_ascii: "ascii s \<Longrightarrow> \<exists>t. decode_field s = Some t"
  using percent_decode_ascii by (auto simp: decode_field_def map_option_Some_iff)

lemma decode_field_plain [simp]: "decode_field [] = Some []"
  by (simp add: decode_field_def)

lemma parse_pair_ascii: "ascii p \<Longrightarrow> \<exists>kv. parse_pair p = Some kv"
proof (cases "split_once (CHR ''='') p")
  case None
  assume "ascii p"
  with None show ?thesis using decode_field_ascii [of p] by (auto simp: parse_pair_def)
next
  case (Some kv)
  assume "ascii p"
  obtain k v where kv: "kv = (k, v)" by (cases kv)
  with Some \<open>ascii p\<close> have "ascii k" "ascii v" by (auto simp: split_once_Some_iff)
  then obtain k' v' where "decode_field k = Some k'" "decode_field v = Some v'"
    using decode_field_ascii by blast
  with Some kv show ?thesis by (simp add: parse_pair_def)
qed

lemma split_on_ascii: "ascii s \<Longrightarrow> p \<in> set (split_on d s) \<Longrightarrow> ascii p"
  using split_on_subset [of p d s] by (auto simp: ascii_def list_all_iff)

lemma parse_query_ascii: "ascii q \<Longrightarrow> \<exists>kvs. parse_query q = Some kvs"
  using parse_pair_ascii split_on_ascii [of q]
  by (fastforce simp: parse_query_def map_panic_alt)

lemma merge_fields_ascii: "ascii q \<Longrightarrow> ascii b \<Longrightarrow> \<exists>fs. merge_fields E q b = Some fs"
  using parse_query_ascii [of q] parse_query_ascii [of b]
  by (auto simp: merge_fields_def Let_def from_utf8_def split: option.splits json.splits)

lemma aws_query_action_ascii:
  "ascii (q_query req) \<Longrightarrow> ascii (q_body req) \<Longrightarrow> \<exists>v. aws_query_action req = Some v"
  using parse_query_ascii [of "q_query req"] parse_query_ascii [of "q_body req"]
  by (auto simp: aws_query_action_def from_utf8_def split: option.splits)

lemma normalize_ascii:
  assumes "ascii (q_query req)" "ascii (q_body req)"
  shows "\<exists>a. normalize E svc req path = Some a"
proof -
  obtain v where "verb_for_protocol E (x_protocol (s_extract svc)) req = Some v"
    using aws_query_action_ascii [OF assms] by (cases "x_protocol (s_extract svc)") (auto simp: verb_for_protocol_def)
  moreover obtain fs where "merge_fields E (q_query req) (q_body req) = Some fs"
    using merge_fields_ascii [OF assms] by blast
  ultimately show ?thesis by (simp add: normalize_def Let_def)
qed

section \<open>Fields\<close>

text \<open>The members the body contributes: those of a JSON object, else of a form, else none.\<close>

definition string_pairs :: "(string \<times> string) list \<Rightarrow> (string \<times> json) list" where
  "string_pairs kvs = map (\<lambda>(k, v). (k, String v)) kvs"

definition body_pairs :: "'h env \<Rightarrow> bytes \<Rightarrow> (string \<times> json) list option" where
  "body_pairs E body =
     (case json_from_slice E body of
        Some (Object obj) \<Rightarrow> Some obj
      | _ \<Rightarrow> if utf8 body \<and> CHR ''='' \<in> set body then map_option string_pairs (parse_query body) else Some [])"

lemma insert_strings_fold: "insert_strings kvs m = fold (\<lambda>(k, v). bt_insert k v) (string_pairs kvs) m"
  by (induction kvs arbitrary: m) (auto simp: string_pairs_def)

lemma merge_fields_body_pairs:
  "merge_fields E query body = do {
     qs \<leftarrow> parse_query query;
     bs \<leftarrow> body_pairs E body;
     Some (Object (fold (\<lambda>(k, v). bt_insert k v) (string_pairs qs @ bs) []))
   }"
proof (cases "parse_query query")
  case (Some qs)
  show ?thesis
  proof (cases "\<exists>obj. json_from_slice E body = Some (Object obj)")
    case True
    with Some show ?thesis by (auto simp: merge_fields_def body_pairs_def insert_strings_fold)
  next
    case False
    then have "(case json_from_slice E body of Some (Object obj) \<Rightarrow> f obj | _ \<Rightarrow> x) = x" for f :: "_ \<Rightarrow> 'b" and x
      by (auto split: option.splits json.splits)
    note no = this
    from Some show ?thesis
      unfolding merge_fields_def body_pairs_def no
      by (cases "parse_query body") (auto simp: insert_strings_fold from_utf8_def Let_def string_pairs_def)
  qed
qed (simp add: merge_fields_def)

lemma fields_of_pairs:
  "map_of (fold (\<lambda>(k, v). bt_insert k v) kvs []) = map_of (rev kvs)"
  "bt_inv (fold (\<lambda>(k, v). bt_insert k v) kvs [])"
  using btree_map.get_ins_all [of "[]" kvs] btree_map.invar_ins_all [of "[]" kvs] by simp_all

text \<open>The members a path template captures, in the order of its segments.\<close>

fun captures :: "string list \<Rightarrow> nat \<Rightarrow> string list \<Rightarrow> (string \<times> json) list" where
  "captures p i [] = []"
| "captures p i (seg # t) =
     (case Option.bind (strip_prefix ''{'' seg) (strip_suffix ''}'') of
        None \<Rightarrow> []
      | Some nm \<Rightarrow>
          (case strip_suffix ''+'' nm of
             Some rest_name \<Rightarrow> if join ''/'' (drop i p) = [] then [] else [(rest_name, String (join ''/'' (drop i p)))]
           | None \<Rightarrow> if i < length p then [(nm, String (p ! i))] else []))
     @ captures p (Suc i) t"

lemma capture_segments_fold:
  "capture_segments p i t m = fold (\<lambda>(k, v). bt_insert k v) (captures p i t) m"
  by (induction p i t m rule: capture_segments.induct)
    (auto simp: list_get_def Let_def split: option.split)

definition template_captures :: "service \<Rightarrow> string \<Rightarrow> (string \<times> json) list" where
  "template_captures svc path =
     (case x_path_template (s_extract svc) of
        None \<Rightarrow> []
      | Some t \<Rightarrow> captures (split_on (CHR ''/'') (trim_start_matches (CHR ''/'') path)) 0
          (split_on (CHR ''/'') (trim_start_matches (CHR ''/'') t)))"

lemma normalize_fields:
  assumes "normalize E svc req path = Some act"
  obtains qs bs where "parse_query (q_query req) = Some qs" "body_pairs E (q_body req) = Some bs"
    "a_fields act = Object (fold (\<lambda>(k, v). bt_insert k v) (string_pairs qs @ bs @ template_captures svc path) [])"
proof -
  obtain fs where fs: "merge_fields E (q_query req) (q_body req) = Some fs"
    and act: "a_fields act = (case x_path_template (s_extract svc) of
        Some t \<Rightarrow> capture_path_template t (trim_start_matches (CHR ''/'') path) fs | None \<Rightarrow> fs)"
    using assms by (auto simp: normalize_def Let_def bind_Some_iff with_fields_def)
  from fs obtain qs bs where "parse_query (q_query req) = Some qs" "body_pairs E (q_body req) = Some bs"
    "fs = Object (fold (\<lambda>(k, v). bt_insert k v) (string_pairs qs @ bs) [])"
    by (auto simp: merge_fields_body_pairs bind_Some_iff)
  with act show thesis
    by (intro that) (auto simp: template_captures_def capture_path_template_def capture_segments_fold split: option.split)
qed

section \<open>Property\<close>



end
