(* ===== verification/Tokens.thy ===== *)
theory Tokens
  imports Externals
begin

text \<open>
  \<^verbatim>\<open>control/src/tokens.rs\<close>: the in-memory token table. Its \<^verbatim>\<open>HashMap\<close> is an association list with
  distinct keys (theory \<open>Maps\<close>); every operation holds the lock for its whole body, so an
  operation is one step of the state. The state also counts the UUIDs drawn so far, because a
  mint consumes them. \<^verbatim>\<open>Uuid::simple\<close> prints 32 ASCII characters, so the slice of its first ten
  does not panic.
\<close>

section \<open>Definitions\<close>

record token_entry =
  t_policy :: policy
  t_expires_at_ms :: u64
  t_secret :: "string option"

record sigv4_mint =
  sm_access_key_id :: string
  sm_secret_access_key :: string
  sm_expires_at_ms :: u64

record tokens =
  entries :: "(string, token_entry) assoc"
  draws :: nat

definition tokens_new :: "nat \<Rightarrow> tokens" where
  "tokens_new n = \<lparr> entries = [], draws = n \<rparr>"

definition expiry :: "u64 \<Rightarrow> u64 \<Rightarrow> u64" where
  "expiry ttl_seconds now_ms = sat_add now_ms (sat_mul ttl_seconds 1000)"

definition tokens_mint :: "'h env \<Rightarrow> policy \<Rightarrow> u64 \<Rightarrow> u64 \<Rightarrow> tokens \<Rightarrow> mint_response \<times> tokens" where
  "tokens_mint E pol ttl_seconds now_ms ts =
     (let token = uuid_simple E (draws ts) @ uuid_simple E (draws ts + 1);
          expires_at_ms = expiry ttl_seconds now_ms
      in (\<lparr> mr_token = token, mr_expires_at_ms = expires_at_ms \<rparr>,
          \<lparr> entries = hm_insert token
              \<lparr> t_policy = pol, t_expires_at_ms = expires_at_ms, t_secret = None \<rparr> (entries ts),
            draws = draws ts + 2 \<rparr>))"

definition mint_sigv4 :: "'h env \<Rightarrow> policy \<Rightarrow> u64 \<Rightarrow> u64 \<Rightarrow> tokens \<Rightarrow> sigv4_mint \<times> tokens" where
  "mint_sigv4 E pol ttl_seconds now_ms ts =
     (let access_key_id = to_ascii_uppercase (''AKIAHACKAMORE'' @ take 10 (uuid_simple E (draws ts)));
          secret_access_key = uuid_simple E (draws ts + 1) @ uuid_simple E (draws ts + 2);
          expires_at_ms = expiry ttl_seconds now_ms
      in (\<lparr> sm_access_key_id = access_key_id, sm_secret_access_key = secret_access_key,
            sm_expires_at_ms = expires_at_ms \<rparr>,
          \<lparr> entries = hm_insert access_key_id
              \<lparr> t_policy = pol, t_expires_at_ms = expires_at_ms, t_secret = Some secret_access_key \<rparr> (entries ts),
            draws = draws ts + 3 \<rparr>))"

definition resolve_sigv4 :: "tokens \<Rightarrow> string \<Rightarrow> u64 \<Rightarrow> (policy \<times> string) option" where
  "resolve_sigv4 ts access_key_id now_ms = do {
     entry \<leftarrow> map_of (entries ts) access_key_id;
     if t_expires_at_ms entry \<le> now_ms then None
     else do { secret \<leftarrow> t_secret entry; Some (t_policy entry, secret) }
   }"

definition resolve_full :: "tokens \<Rightarrow> string \<Rightarrow> u64 \<Rightarrow> (policy \<times> u64) option" where
  "resolve_full ts token now_ms = do {
     entry \<leftarrow> map_of (entries ts) token;
     if t_expires_at_ms entry \<le> now_ms then None
     else Some (t_policy entry, t_expires_at_ms entry)
   }"

definition resolve :: "tokens \<Rightarrow> string \<Rightarrow> u64 \<Rightarrow> policy option" where
  "resolve ts token now_ms = map_option fst (resolve_full ts token now_ms)"

definition revoke :: "string \<Rightarrow> tokens \<Rightarrow> bool \<times> tokens" where
  "revoke token ts =
     (map_of (entries ts) token \<noteq> None, ts\<lparr> entries := hm_remove token (entries ts) \<rparr>)"

definition sweep :: "u64 \<Rightarrow> tokens \<Rightarrow> nat \<times> tokens" where
  "sweep now_ms ts =
     (let before = length (entries ts);
          kept = hm_retain (\<lambda>_ e. now_ms < t_expires_at_ms e) (entries ts)
      in (before - length kept, ts\<lparr> entries := kept \<rparr>))"

definition tokens_len :: "tokens \<Rightarrow> nat" where
  "tokens_len ts = length (entries ts)"

definition tokens_is_empty :: "tokens \<Rightarrow> bool" where
  "tokens_is_empty ts = (entries ts = [])"

section \<open>The abstract table\<close>

text \<open>
  What the table promises: a partial map from keys to entries of which only the live ones can be
  seen. Each operation is a map update under this abstraction.
\<close>

definition tokens_inv :: "tokens \<Rightarrow> bool" where
  "tokens_inv ts \<longleftrightarrow> hm_inv (entries ts)"

definition live :: "u64 \<Rightarrow> tokens \<Rightarrow> string \<Rightarrow> token_entry option" where
  "live now ts k = (case map_of (entries ts) k of
     Some e \<Rightarrow> if now < t_expires_at_ms e then Some e else None | None \<Rightarrow> None)"

lemma resolve_full_live: "resolve_full ts k now = map_option (\<lambda>e. (t_policy e, t_expires_at_ms e)) (live now ts k)"
  by (auto simp: resolve_full_def live_def not_less split: option.splits)

lemma resolve_live: "resolve ts k now = map_option t_policy (live now ts k)"
  by (auto simp: resolve_def resolve_full_live map_option.compositionality comp_def)

lemma resolve_sigv4_live:
  "resolve_sigv4 ts k now =
     Option.bind (live now ts k) (\<lambda>e. map_option (\<lambda>s. (t_policy e, s)) (t_secret e))"
  by (auto simp: resolve_sigv4_def live_def not_less map_conv_bind_option comp_def split: option.splits)

lemmas live_iffs = resolve_full_live resolve_live resolve_sigv4_live

definition mint_key :: "'h env \<Rightarrow> nat \<Rightarrow> string" where
  "mint_key E n = uuid_simple E n @ uuid_simple E (n + 1)"

definition sigv4_key :: "'h env \<Rightarrow> nat \<Rightarrow> string" where
  "sigv4_key E n = to_ascii_uppercase (''AKIAHACKAMORE'' @ take 10 (uuid_simple E n))"

lemma mint_live:
  assumes "tokens_inv ts" "tokens_mint E pol ttl now ts = (r, ts')"
  shows "tokens_inv ts'" "mr_token r = mint_key E (draws ts)" "mr_expires_at_ms r = expiry ttl now"
    "map_of (entries ts') = (map_of (entries ts))(mint_key E (draws ts) \<mapsto>
       \<lparr> t_policy = pol, t_expires_at_ms = expiry ttl now, t_secret = None \<rparr>)"
    "draws ts' = draws ts + 2"
  using assms by (auto simp: tokens_mint_def mint_key_def tokens_inv_def Let_def hash_map.get_ins hash_map.invar_ins)

lemma mint_sigv4_live:
  assumes "tokens_inv ts" "mint_sigv4 E pol ttl now ts = (r, ts')"
  shows "tokens_inv ts'" "sm_access_key_id r = sigv4_key E (draws ts)" "sm_expires_at_ms r = expiry ttl now"
    "sm_secret_access_key r = mint_key E (draws ts + 1)"
    "map_of (entries ts') = (map_of (entries ts))(sigv4_key E (draws ts) \<mapsto>
       \<lparr> t_policy = pol, t_expires_at_ms = expiry ttl now, t_secret = Some (mint_key E (draws ts + 1)) \<rparr>)"
    "draws ts' = draws ts + 3"
  using assms by (auto simp: mint_sigv4_def sigv4_key_def mint_key_def tokens_inv_def Let_def
      hash_map.get_ins hash_map.invar_ins)

lemma revoke_live:
  assumes "tokens_inv ts" "revoke k ts = (b, ts')"
  shows "tokens_inv ts'" "b \<longleftrightarrow> k \<in> dom (map_of (entries ts))"
    "map_of (entries ts') = (map_of (entries ts))(k := None)" "draws ts' = draws ts"
  using assms by (auto simp: revoke_def tokens_inv_def hash_map.get_rem hash_map.invar_rem)

lemma sweep_live:
  assumes "tokens_inv ts" "sweep now ts = (n, ts')"
  shows "tokens_inv ts'" "map_of (entries ts') = live now ts" "draws ts' = draws ts"
    "n = card {k. \<exists>e. map_of (entries ts) k = Some e \<and> t_expires_at_ms e \<le> now}"
  using assms hash_map.len_retain [of "entries ts" "\<lambda>_ e. now < t_expires_at_ms e"]
  by (auto simp: sweep_def tokens_inv_def Let_def fun_eq_iff live_def hash_map.get_retain
      hash_map.invar_retain not_less)

lemma expiry_bounds: "unat (expiry ttl now) = min (unat now + min (unat ttl * 1000) (2 ^ 64 - 1)) (2 ^ 64 - 1)"
  by (simp add: expiry_def unat_sat_add unat_sat_mul)

section \<open>Runs of the table\<close>

text \<open>
  What can happen to the table: any sequence of its operations, at any clock readings. The step
  relation is the operations' graphs; a run is its closure, labelled with the events.
\<close>

datatype token_event =
    MintBearer policy u64 u64
  | MintSigV4 policy u64 u64
  | Revoke string
  | Sweep u64

inductive token_step :: "'h env \<Rightarrow> tokens \<Rightarrow> token_event \<Rightarrow> tokens \<Rightarrow> bool" for E where
  step_mint: "tokens_mint E pol ttl now ts = (r, ts') \<Longrightarrow> token_step E ts (MintBearer pol ttl now) ts'"
| step_mint_sigv4: "mint_sigv4 E pol ttl now ts = (r, ts') \<Longrightarrow> token_step E ts (MintSigV4 pol ttl now) ts'"
| step_revoke: "revoke k ts = (b, ts') \<Longrightarrow> token_step E ts (Revoke k) ts'"
| step_sweep: "sweep now ts = (n, ts') \<Longrightarrow> token_step E ts (Sweep now) ts'"

inductive_cases token_stepE:
  "token_step E ts (MintBearer pol ttl now) ts'"
  "token_step E ts (MintSigV4 pol ttl now) ts'"
  "token_step E ts (Revoke k) ts'"
  "token_step E ts (Sweep now) ts'"

inductive token_run :: "'h env \<Rightarrow> tokens \<Rightarrow> token_event list \<Rightarrow> tokens \<Rightarrow> bool" for E where
  run_nil: "token_run E ts [] ts"
| run_cons: "token_step E ts ev ts' \<Longrightarrow> token_run E ts' evs ts'' \<Longrightarrow> token_run E ts (ev # evs) ts''"

text \<open>
  The invariant of a reachable table: distinct keys, and every entry is what a mint wrote under
  the key that mint produced.
\<close>

definition minted_ok :: "'h env \<Rightarrow> tokens \<Rightarrow> bool" where
  "minted_ok E ts \<longleftrightarrow> tokens_inv ts \<and> (\<forall>k e. map_of (entries ts) k = Some e \<longrightarrow>
     (case t_secret e of
        None \<Rightarrow> \<exists>n. k = mint_key E n \<and> n + 1 < draws ts
      | Some s \<Rightarrow> \<exists>n. k = sigv4_key E n \<and> s = mint_key E (n + 1) \<and> n + 2 < draws ts))"

lemma minted_ok_new: "minted_ok E (tokens_new n)"
  by (simp add: minted_ok_def tokens_inv_def tokens_new_def)

lemma minted_ok_mono:
  assumes "minted_ok E ts" "tokens_inv ts'" "draws ts \<le> draws ts'" "map_of (entries ts') \<subseteq>\<^sub>m map_of (entries ts)"
  shows "minted_ok E ts'"
  unfolding minted_ok_def
proof (intro conjI allI impI)
  show "tokens_inv ts'" by fact
  fix k e
  assume "map_of (entries ts') k = Some e"
  then have "map_of (entries ts) k = Some e" using assms(4) by (auto simp: map_le_def dom_def)
  with assms(1,3) show "case t_secret e of None \<Rightarrow> \<exists>n. k = mint_key E n \<and> n + 1 < draws ts'
      | Some s \<Rightarrow> \<exists>n. k = sigv4_key E n \<and> s = mint_key E (n + 1) \<and> n + 2 < draws ts'"
    by (fastforce simp: minted_ok_def split: option.splits)
qed

lemma minted_ok_step: "token_step E ts ev ts' \<Longrightarrow> minted_ok E ts \<Longrightarrow> minted_ok E ts'"
proof (induction rule: token_step.induct)
  case (step_mint pol ttl now ts r ts')
  then have "tokens_inv ts" by (simp add: minted_ok_def)
  note m = mint_live [OF this step_mint.hyps]
  show ?case unfolding minted_ok_def
  proof (intro conjI allI impI)
    fix k e
    assume k: "map_of (entries ts') k = Some e"
    show "case t_secret e of None \<Rightarrow> \<exists>n. k = mint_key E n \<and> n + 1 < draws ts'
        | Some s \<Rightarrow> \<exists>n. k = sigv4_key E n \<and> s = mint_key E (n + 1) \<and> n + 2 < draws ts'"
    proof (cases "k = mint_key E (draws ts)")
      case True
      with k m show ?thesis by auto
    next
      case False
      with k m have "map_of (entries ts) k = Some e" by simp
      with step_mint.prems m(5) show ?thesis by (fastforce simp: minted_ok_def split: option.splits)
    qed
  qed (rule m)
next
  case (step_mint_sigv4 pol ttl now ts r ts')
  then have "tokens_inv ts" by (simp add: minted_ok_def)
  note m = mint_sigv4_live [OF this step_mint_sigv4.hyps]
  show ?case unfolding minted_ok_def
  proof (intro conjI allI impI)
    fix k e
    assume k: "map_of (entries ts') k = Some e"
    show "case t_secret e of None \<Rightarrow> \<exists>n. k = mint_key E n \<and> n + 1 < draws ts'
        | Some s \<Rightarrow> \<exists>n. k = sigv4_key E n \<and> s = mint_key E (n + 1) \<and> n + 2 < draws ts'"
    proof (cases "k = sigv4_key E (draws ts)")
      case True
      with k m show ?thesis by auto
    next
      case False
      with k m have "map_of (entries ts) k = Some e" by simp
      with step_mint_sigv4.prems m(6) show ?thesis by (fastforce simp: minted_ok_def split: option.splits)
    qed
  qed (rule m)
next
  case (step_revoke k ts b ts')
  then have "tokens_inv ts" by (simp add: minted_ok_def)
  note r = revoke_live [OF this step_revoke.hyps]
  show ?case using step_revoke.prems r(1)
    by (rule minted_ok_mono) (simp_all add: r map_le_def)
next
  case (step_sweep now ts n ts')
  then have "tokens_inv ts" by (simp add: minted_ok_def)
  note r = sweep_live [OF this step_sweep.hyps]
  show ?case using step_sweep.prems r(1)
    by (rule minted_ok_mono) (auto simp: r map_le_def live_def dom_def split: option.splits if_splits)
qed

lemma minted_ok_run: "token_run E ts evs ts' \<Longrightarrow> minted_ok E ts \<Longrightarrow> minted_ok E ts'"
  by (induction rule: token_run.induct) (auto intro: minted_ok_step)

text \<open>The keys a run mints; a key outside them that is absent stays absent.\<close>

fun minted_keys :: "'h env \<Rightarrow> nat \<Rightarrow> token_event list \<Rightarrow> string set" where
  "minted_keys E n [] = {}"
| "minted_keys E n (MintBearer _ _ _ # evs) = insert (mint_key E n) (minted_keys E (n + 2) evs)"
| "minted_keys E n (MintSigV4 _ _ _ # evs) = insert (sigv4_key E n) (minted_keys E (n + 3) evs)"
| "minted_keys E n (_ # evs) = minted_keys E n evs"

lemma absent_stays_absent:
  assumes "token_run E ts evs ts'" "tokens_inv ts" "map_of (entries ts) k = None"
    and "k \<notin> minted_keys E (draws ts) evs"
  shows "map_of (entries ts') k = None"
  using assms
proof (induction rule: token_run.induct)
  case (run_cons ts ev ts1 evs ts2)
  have "tokens_inv ts1 \<and> map_of (entries ts1) k = None \<and> k \<notin> minted_keys E (draws ts1) evs"
    using run_cons.hyps(1) run_cons.prems
  proof (cases rule: token_step.cases)
    case (step_mint pol ttl now r)
    with run_cons.prems mint_live [OF run_cons.prems(1) step_mint(2)] show ?thesis by auto
  next
    case (step_mint_sigv4 pol ttl now r)
    with run_cons.prems mint_sigv4_live [OF run_cons.prems(1) step_mint_sigv4(2)] show ?thesis by auto
  next
    case (step_revoke k' b)
    with run_cons.prems revoke_live [OF run_cons.prems(1) step_revoke(2)] show ?thesis by auto
  next
    case (step_sweep now n)
    with run_cons.prems sweep_live [OF run_cons.prems(1) step_sweep(2)] show ?thesis
      by (auto simp: live_def)
  qed
  then show ?case using run_cons.IH by simp
qed simp

section \<open>Properties\<close>

text \<open>C26. A minted token resolves to its policy exactly until its expiry, which is the clock reading plus
  the requested seconds, saturating at the largest 64-bit value instead of wrapping; every other
  key resolves as before, and the token is not a SigV4 credential.\<close>

theorem mint_resolves_until_expiry:
  assumes "tokens_inv ts" "tokens_mint E pol ttl now ts = (r, ts')"
  shows "unat (mr_expires_at_ms r) = min (unat now + min (unat ttl * 1000) (2 ^ 64 - 1)) (2 ^ 64 - 1)
    \<and> resolve ts' (mr_token r) t = (if t < mr_expires_at_ms r then Some pol else None)
    \<and> resolve_sigv4 ts' (mr_token r) t = None
    \<and> (k = mr_token r \<or> resolve_full ts' k t = resolve_full ts k t \<and> resolve_sigv4 ts' k t = resolve_sigv4 ts k t)"
  using mint_live [OF assms] by (auto simp: live_iffs live_def expiry_bounds)

theorem mint_resolves_until_expiry_witness:
  "let (r, ts') = tokens_mint list_env \<lparr> rules = [] \<rparr> 60 1000 (tokens_new 0) in
     resolve ts' (mr_token r) 60999 = Some \<lparr> rules = [] \<rparr> \<and> resolve ts' (mr_token r) 61000 = None"
proof -
  obtain r ts' where m: "tokens_mint list_env \<lparr> rules = [] \<rparr> 60 1000 (tokens_new 0) = (r, ts')"
    by fastforce
  have i: "tokens_inv (tokens_new 0)" by (simp add: tokens_inv_def tokens_new_def)
  have e: "mr_expires_at_ms r = 61000"
    using mint_live(3) [OF i m] by (simp add: expiry_def sat_add_def sat_mul_def)
  from mint_resolves_until_expiry [OF i m] e m show ?thesis by auto
qed

text \<open>Sweeping is invisible: at the sweep's clock reading and at every later one, every lookup
  answers as it did before; the sweep returns exactly the number of entries that were expired,
  and leaves no expired entry behind.\<close>

theorem sweep_is_invisible:
  assumes "tokens_inv ts" "sweep now ts = (n, ts')" "now \<le> t"
  shows "resolve_full ts' k t = resolve_full ts k t \<and> resolve_sigv4 ts' k t = resolve_sigv4 ts k t
    \<and> n = card {k. \<exists>e. map_of (entries ts) k = Some e \<and> t_expires_at_ms e \<le> now}
    \<and> (\<nexists>k e. map_of (entries ts') k = Some e \<and> t_expires_at_ms e \<le> now)
    \<and> tokens_len ts' + n = tokens_len ts"
proof -
  note w = sweep_live [OF assms(1,2)]
  have "live t ts' = live t ts"
    using assms(3) by (auto simp: live_def w(2) fun_eq_iff split: option.splits)
  moreover have "\<nexists>k e. map_of (entries ts') k = Some e \<and> t_expires_at_ms e \<le> now"
    by (auto simp: w(2) live_def split: option.splits if_splits)
  moreover have "tokens_len ts' + n = tokens_len ts"
    using assms(2) by (auto simp: sweep_def tokens_len_def Let_def hm_retain_def)
  ultimately show ?thesis using w(4) by (simp add: live_iffs)
qed

theorem sweep_is_invisible_witness:
  "let ts = \<lparr> entries = [(''a'', \<lparr> t_policy = \<lparr> rules = [] \<rparr>, t_expires_at_ms = 5, t_secret = None \<rparr>),
      (''b'', \<lparr> t_policy = \<lparr> rules = [] \<rparr>, t_expires_at_ms = 9, t_secret = None \<rparr>)], draws = 4 \<rparr> in
   \<exists>ts'. sweep 5 ts = (1, ts') \<and> resolve_full ts' ''b'' 7 = resolve_full ts ''b'' 7"
proof -
  let ?ts = "\<lparr> entries = [(''a'', \<lparr> t_policy = \<lparr> rules = [] \<rparr>, t_expires_at_ms = 5, t_secret = None \<rparr>),
      (''b'', \<lparr> t_policy = \<lparr> rules = [] \<rparr>, t_expires_at_ms = 9, t_secret = None \<rparr>)], draws = 4 \<rparr>"
  have i: "tokens_inv ?ts" by (simp add: tokens_inv_def hm_inv_def)
  obtain ts' where w: "sweep 5 ?ts = (1, ts')" by (simp add: sweep_def hm_retain_def)
  have "(5 :: u64) \<le> 7" by simp
  from sweep_is_invisible [OF i w this] w show ?thesis unfolding Let_def by blast
qed



text \<open>In every table reachable from the empty one, keys are distinct and every entry was put there by
  a mint: an entry without a secret is stored under a bearer token drawn from two UUIDs, an entry
  with a secret under an access key id, next to exactly the secret that was minted with it.\<close>

theorem reachable_table_well_formed:
  assumes "token_run E (tokens_new n) evs ts"
  shows "minted_ok E ts \<and> tokens_len ts = card (dom (map_of (entries ts)))"
proof -
  have "minted_ok E ts" using minted_ok_run [OF assms minted_ok_new] .
  then show ?thesis by (simp add: minted_ok_def tokens_inv_def tokens_len_def hash_map.len_card)
qed

theorem reachable_table_well_formed_witness:
  "\<exists>ts. token_run list_env (tokens_new 0) [MintSigV4 \<lparr> rules = [] \<rparr> 60 1, Sweep 3] ts \<and> minted_ok list_env ts"
proof -
  obtain r ts1 where m: "mint_sigv4 list_env \<lparr> rules = [] \<rparr> 60 1 (tokens_new 0) = (r, ts1)" by fastforce
  obtain n ts2 where w: "sweep 3 ts1 = (n, ts2)" by fastforce
  have run: "token_run list_env (tokens_new 0) [MintSigV4 \<lparr> rules = [] \<rparr> 60 1, Sweep 3] ts2"
    using m w by (blast intro: run_cons run_nil step_mint_sigv4 step_sweep)
  from reachable_table_well_formed [OF run] run show ?thesis by blast
qed

text \<open>A dummy SigV4 credential resolves, with its secret, exactly until its expiry. The plain lookup
  does not ask whether the entry has a secret, so the access key id alone (which every signed
  request carries in clear) also resolves as a bearer token for the same policy.\<close>

theorem sigv4_credential_resolves:
  assumes "tokens_inv ts" "mint_sigv4 E pol ttl now ts = (r, ts')" "t < sm_expires_at_ms r"
  shows "resolve_sigv4 ts' (sm_access_key_id r) t = Some (pol, sm_secret_access_key r)
    \<and> resolve ts' (sm_access_key_id r) t = Some pol"
  using mint_sigv4_live [OF assms(1,2)] assms(3) by (simp add: live_iffs live_def)

theorem sigv4_credential_resolves_witness:
  "let (r, ts') = mint_sigv4 list_env \<lparr> rules = [] \<rparr> 60 1000 (tokens_new 0) in
     resolve ts' (sm_access_key_id r) 2000 = Some \<lparr> rules = [] \<rparr>"
proof -
  obtain r ts' where m: "mint_sigv4 list_env \<lparr> rules = [] \<rparr> 60 1000 (tokens_new 0) = (r, ts')"
    by fastforce
  have i: "tokens_inv (tokens_new 0)" by (simp add: tokens_inv_def tokens_new_def)
  have "sm_expires_at_ms r = 61000"
    using mint_sigv4_live(3) [OF i m] by (simp add: expiry_def sat_add_def sat_mul_def)
  with sigv4_credential_resolves [OF i m, of 2000] m show ?thesis by simp
qed

end
