(* ===== verification/Vault.thy ===== *)
theory Vault
  imports Tokens
begin

text \<open>
  The rest of the control plane's synchronous state: \<^verbatim>\<open>control/src/tenants.rs\<close>,
  \<^verbatim>\<open>control/src/credentials.rs\<close>, the caching store of \<^verbatim>\<open>control/src/providers.rs\<close>,
  \<^verbatim>\<open>control/src/audit.rs\<close> and the assembled \<^verbatim>\<open>ControlPlane\<close> of \<^verbatim>\<open>control/src/lib.rs\<close>. Both
  credential stores provide the interface \<open>keyed_store\<close>. A \<^verbatim>\<open>Secret\<close> is its text. A credential
  provider is the function its \<^verbatim>\<open>mint\<close> computes and its refresh skew; the network a provider talks
  to is inside that function. One refresher runs at a time, so a refresh is one step of the state.
\<close>

section \<open>Tenants\<close>

record tenants =
  owned_sets :: "(string, string set) assoc"

definition tenants_new :: tenants where
  "tenants_new = \<lparr> owned_sets = [] \<rparr>"

definition tenants_insert :: "string \<Rightarrow> string list \<Rightarrow> tenants \<Rightarrow> tenants" where
  "tenants_insert key targets tn = tn\<lparr> owned_sets := hm_insert key (set targets) (owned_sets tn) \<rparr>"

definition tenants_is_empty :: "tenants \<Rightarrow> bool" where
  "tenants_is_empty tn = (owned_sets tn = [])"

definition tenants_owned :: "tenants \<Rightarrow> string \<Rightarrow> string set option" where
  "tenants_owned tn key = map_of (owned_sets tn) key"

lemma tenants_owned_insert:
  "tenants_owned (tenants_insert key targets tn) = (tenants_owned tn)(key \<mapsto> set targets)"
  "\<not> tenants_is_empty (tenants_insert key targets tn)"
proof -
  show "tenants_owned (tenants_insert key targets tn) = (tenants_owned tn)(key \<mapsto> set targets)"
    by (simp add: tenants_owned_def tenants_insert_def hm_insert_def update_conv' fun_eq_iff)
  have "map_of (hm_insert key (set targets) (owned_sets tn)) key \<noteq> None"
    by (simp add: hm_insert_def update_conv')
  then show "\<not> tenants_is_empty (tenants_insert key targets tn)"
    by (auto simp: tenants_is_empty_def tenants_insert_def)
qed

section \<open>Credential stores\<close>

type_synonym secret = string

definition secret_new :: "string \<Rightarrow> secret" where
  "secret_new v = v"

definition expose :: "secret \<Rightarrow> string" where
  "expose s = s"

text \<open>\<^verbatim>\<open>Debug\<close> of a secret.\<close>

definition secret_debug :: "secret \<Rightarrow> string" where
  "secret_debug s = ''Secret(***)''"

record in_memory =
  secrets :: "(string, secret) assoc"

definition in_memory_new :: in_memory where
  "in_memory_new = \<lparr> secrets = [] \<rparr>"

definition in_memory_insert :: "string \<Rightarrow> secret \<Rightarrow> in_memory \<Rightarrow> in_memory" where
  "in_memory_insert ident s v = v\<lparr> secrets := hm_insert ident s (secrets v) \<rparr>"

definition in_memory_resolve :: "in_memory \<Rightarrow> string \<Rightarrow> secret option" where
  "in_memory_resolve v ident = map_of (secrets v) ident"

record minted_secret =
  ms_secret :: secret
  ms_expires_at_ms :: u64

record provider =
  prov_mint :: "u64 \<Rightarrow> string + minted_secret"
  prov_refresh_skew_ms :: u64

text \<open>The trait's default skew.\<close>

definition default_refresh_skew_ms :: u64 where
  "default_refresh_skew_ms = 60000"

record caching =
  static_secrets :: "(string, secret) assoc"
  providers :: "(string, provider) assoc"
  cache :: "(string, minted_secret) assoc"

definition caching_new :: "(string, secret) assoc \<Rightarrow> (string, provider) assoc \<Rightarrow> caching" where
  "caching_new statics provs = \<lparr> static_secrets = statics, providers = provs, cache = [] \<rparr>"

definition insert_static :: "string \<Rightarrow> secret \<Rightarrow> caching \<Rightarrow> caching" where
  "insert_static ident s c = c\<lparr> static_secrets := hm_insert ident s (static_secrets c) \<rparr>"

definition needs_refresh :: "caching \<Rightarrow> string \<Rightarrow> provider \<Rightarrow> u64 \<Rightarrow> bool" where
  "needs_refresh c ident p now_ms =
     (case map_of (cache c) ident of
        None \<Rightarrow> True
      | Some m \<Rightarrow> ms_expires_at_ms m \<le> sat_add now_ms (prov_refresh_skew_ms p))"

text \<open>The loop of \<^verbatim>\<open>refresh_due\<close>; its result is the list of refreshed ids and the new state.\<close>

fun refresh_loop :: "u64 \<Rightarrow> (string \<times> provider) list \<Rightarrow> caching \<Rightarrow> string list \<times> caching" where
  "refresh_loop now_ms [] c = ([], c)"
| "refresh_loop now_ms ((ident, p) # ps) c =
     (if \<not> needs_refresh c ident p now_ms then refresh_loop now_ms ps c
      else case prov_mint p now_ms of
          Inr minted \<Rightarrow>
            let (ids, c') = refresh_loop now_ms ps (c\<lparr> cache := hm_insert ident minted (cache c) \<rparr>)
            in (ident # ids, c')
        | Inl _ \<Rightarrow> refresh_loop now_ms ps c)"

definition refresh_due :: "u64 \<Rightarrow> caching \<Rightarrow> string list \<times> caching" where
  "refresh_due now_ms c = refresh_loop now_ms (providers c) c"

definition caching_resolve :: "caching \<Rightarrow> string \<Rightarrow> secret option" where
  "caching_resolve c ident =
     (case map_of (static_secrets c) ident of
        Some s \<Rightarrow> Some s
      | None \<Rightarrow> map_option ms_secret (map_of (cache c) ident))"

text \<open>The trait object the gateway holds.\<close>

datatype credential_store = InMemoryStore in_memory | CachingStore caching

fun store_resolve :: "credential_store \<Rightarrow> string \<Rightarrow> secret option" where
  "store_resolve (InMemoryStore v) ident = in_memory_resolve v ident"
| "store_resolve (CachingStore c) ident = caching_resolve c ident"

interpretation in_memory_vault: keyed_store in_memory_resolve in_memory_insert "\<lambda>_. True"
  by unfold_locales (simp_all add: in_memory_resolve_def in_memory_insert_def hm_insert_def
      update_conv' fun_eq_iff)

interpretation caching_vault: keyed_store caching_resolve insert_static "\<lambda>_. True"
  by unfold_locales (simp_all add: caching_resolve_def insert_static_def hm_insert_def
      update_conv' fun_eq_iff split: option.splits)

section \<open>Audit\<close>

record in_memory_audit =
  events_of :: "audit_event list"

definition in_memory_audit_new :: in_memory_audit where
  "in_memory_audit_new = \<lparr> events_of = [] \<rparr>"

definition in_memory_record :: "audit_event \<Rightarrow> in_memory_audit \<Rightarrow> in_memory_audit" where
  "in_memory_record ev a = a\<lparr> events_of := events_of a @ [ev] \<rparr>"

text \<open>
  The JSONL sink over the contents of its file, which opening creates or keeps: \<open>to_json\<close> is \<^verbatim>\<open>serde_json::to_string\<close> (\<open>None\<close> if it
  fails, which is logged only), \<open>from_json\<close> the parser, and \<open>write_ok\<close> whether the write succeeded
  (a failure is logged only).
\<close>

definition audit_open :: "bytes option \<Rightarrow> bytes" where
  "audit_open file = (case file of Some contents \<Rightarrow> contents | None \<Rightarrow> [])"

definition file_record :: "(audit_event \<Rightarrow> string option) \<Rightarrow> bool \<Rightarrow> audit_event \<Rightarrow> bytes \<Rightarrow> bytes" where
  "file_record to_json write_ok ev contents =
     (case to_json ev of
        None \<Rightarrow> contents
      | Some line \<Rightarrow> if write_ok then contents @ line @ [chr 10] else contents)"

definition file_read :: "(string \<Rightarrow> audit_event option) \<Rightarrow> bytes \<Rightarrow> audit_event list option" where
  "file_read from_json contents =
     map_option (\<lambda>text. List.map_filter from_json (filter (\<lambda>l. trim l \<noteq> []) (lines text))) (from_utf8 contents)"

section \<open>The control plane\<close>

record control =
  cp_tokens :: tokens
  cp_tenants :: tenants
  cp_credentials :: credential_store
  cp_audit :: in_memory_audit

text \<open>
  The audit sink of the model is the in-memory one: it keeps what any sink is given, in order.
  \<open>n\<close> is the number of UUIDs drawn before.
\<close>

definition control_new :: "nat \<Rightarrow> credential_store \<Rightarrow> in_memory_audit \<Rightarrow> control" where
  "control_new n credentials audit =
     \<lparr> cp_tokens = tokens_new n, cp_tenants = tenants_new, cp_credentials = credentials, cp_audit = audit \<rparr>"

text \<open>The defaults; the caller seeds secrets through the store that the plane holds.\<close>

definition with_defaults :: "nat \<Rightarrow> control" where
  "with_defaults n = control_new n (InMemoryStore in_memory_new) in_memory_audit_new"

text \<open>The clock: milliseconds since the epoch, and zero before it.\<close>

definition clock_ms :: "int \<Rightarrow> u64" where
  "clock_ms since_epoch = (if since_epoch < 0 then 0 else word_of_int since_epoch)"

section \<open>Refreshing\<close>

text \<open>The minted value a refresh writes for a provider, if it is due and its mint succeeds.\<close>

definition due_mint :: "u64 \<Rightarrow> caching \<Rightarrow> string \<Rightarrow> provider \<Rightarrow> minted_secret option" where
  "due_mint now c ident p =
     (if needs_refresh c ident p now then (case prov_mint p now of Inr m \<Rightarrow> Some m | Inl _ \<Rightarrow> None) else None)"

lemma needs_refresh_cong: "map_of (cache c) i = map_of (cache c') i \<Longrightarrow> needs_refresh c i p now = needs_refresh c' i p now"
  by (simp add: needs_refresh_def)

lemma due_mint_cong: "map_of (cache c) i = map_of (cache c') i \<Longrightarrow> due_mint now c i p = due_mint now c' i p"
  by (simp add: due_mint_def cong: needs_refresh_cong)

lemma refresh_loop_spec:
  assumes "refresh_loop now ps c = (ids, c')" "distinct (map fst ps)"
  shows "static_secrets c' = static_secrets c" "providers c' = providers c"
    "map_of (cache c') i = (case Option.bind (map_of ps i) (due_mint now c i) of
        Some m \<Rightarrow> Some m | None \<Rightarrow> map_of (cache c) i)"
    "ids = map fst (filter (\<lambda>(i, p). due_mint now c i p \<noteq> None) ps)"
    "hm_inv (cache c) \<Longrightarrow> hm_inv (cache c')"
proof -
  have "static_secrets c' = static_secrets c \<and> providers c' = providers c
    \<and> (\<forall>i. map_of (cache c') i = (case Option.bind (map_of ps i) (due_mint now c i) of
        Some m \<Rightarrow> Some m | None \<Rightarrow> map_of (cache c) i))
    \<and> ids = map fst (filter (\<lambda>(i, p). due_mint now c i p \<noteq> None) ps)
    \<and> (hm_inv (cache c) \<longrightarrow> hm_inv (cache c'))"
    using assms
  proof (induction ps arbitrary: c ids)
    case (Cons ip ps)
    obtain j p where jp: "ip = (j, p)" by (cases ip)
    from Cons.prems jp have fresh: "map_of ps j = None" and dist: "distinct (map fst ps)"
      by (auto simp: map_of_eq_None_iff)
    show ?case
    proof (cases "due_mint now c j p")
      case None
      then have "refresh_loop now (ip # ps) c = refresh_loop now ps c"
        by (auto simp: jp due_mint_def split: sum.splits if_splits)
      with Cons.prems have r: "refresh_loop now ps c = (ids, c')" by simp
      from Cons.IH [OF r dist] None fresh show ?thesis by (auto simp: jp)
    next
      case (Some m)
      let ?c = "c\<lparr> cache := hm_insert j m (cache c) \<rparr>"
      from Some Cons.prems(1) obtain ids' where r: "refresh_loop now ps ?c = (ids', c')" "ids = j # ids'"
        by (auto simp: jp due_mint_def split: sum.splits if_splits prod.splits)
      have upd: "map_of (cache ?c) = (map_of (cache c))(j \<mapsto> m)"
        by (simp add: hm_insert_def update_conv' fun_eq_iff)
      have same: "due_mint now ?c i q = due_mint now c i q" if "i \<noteq> j" for i q
        using upd that by (intro due_mint_cong) simp
      have filt: "filter (\<lambda>(i, p). due_mint now ?c i p \<noteq> None) ps = filter (\<lambda>(i, p). due_mint now c i p \<noteq> None) ps"
      proof (rule filter_cong [OF refl])
        fix x assume "x \<in> set ps"
        then have "fst x \<noteq> j" using fresh by (force simp: map_of_eq_None_iff)
        then show "(case x of (i, p) \<Rightarrow> due_mint now ?c i p \<noteq> None) = (case x of (i, p) \<Rightarrow> due_mint now c i p \<noteq> None)"
          using same by (simp add: split_beta)
      qed
      have bnd: "Option.bind (map_of ps i) (due_mint now ?c i) = Option.bind (map_of ps i) (due_mint now c i)" for i
        using same fresh by (cases "i = j"; cases "map_of ps i") simp_all
      from Cons.IH [OF r(1) dist] have ih: "static_secrets c' = static_secrets c" "providers c' = providers c"
        "\<And>i. map_of (cache c') i = (case Option.bind (map_of ps i) (due_mint now c i) of
            Some m \<Rightarrow> Some m | None \<Rightarrow> ((map_of (cache c))(j \<mapsto> m)) i)"
        "ids' = map fst (filter (\<lambda>(i, p). due_mint now c i p \<noteq> None) ps)"
        "hm_inv (cache ?c) \<longrightarrow> hm_inv (cache c')"
        unfolding filt bnd upd by simp_all
      have "map_of (cache c') i = (case Option.bind (map_of (ip # ps) i) (due_mint now c i) of
          Some m \<Rightarrow> Some m | None \<Rightarrow> map_of (cache c) i)" for i
        using ih(3) [of i] Some fresh by (cases "i = j") (auto simp: jp split: option.splits)
      moreover have "hm_inv (cache c) \<longrightarrow> hm_inv (cache c')"
        using ih(5) hash_map.invar_ins [of "cache c" j m] by simp
      ultimately show ?thesis using ih Some r(2) by (simp add: jp)
    qed
  qed simp
  then show "static_secrets c' = static_secrets c" "providers c' = providers c"
    "map_of (cache c') i = (case Option.bind (map_of ps i) (due_mint now c i) of
        Some m \<Rightarrow> Some m | None \<Rightarrow> map_of (cache c) i)"
    "ids = map fst (filter (\<lambda>(i, p). due_mint now c i p \<noteq> None) ps)"
    "hm_inv (cache c) \<Longrightarrow> hm_inv (cache c')" by blast+
qed

section \<open>Reachable caches\<close>

inductive cache_step :: "caching \<Rightarrow> caching \<Rightarrow> bool" where
  step_refresh: "refresh_due now c = (ids, c') \<Longrightarrow> cache_step c c'"
| step_static: "cache_step c (insert_static ident s c)"

definition only_minted :: "caching \<Rightarrow> bool" where
  "only_minted c \<longleftrightarrow> distinct (map fst (providers c)) \<and> hm_inv (cache c) \<and>
     (\<forall>i m. map_of (cache c) i = Some m \<longrightarrow> (\<exists>p now. (i, p) \<in> set (providers c) \<and> prov_mint p now = Inr m))"

lemma only_minted_new: "distinct (map fst provs) \<Longrightarrow> only_minted (caching_new statics provs)"
  by (simp add: only_minted_def caching_new_def)

lemma only_minted_step: "cache_step c c' \<Longrightarrow> only_minted c \<Longrightarrow> only_minted c'"
proof (induction rule: cache_step.induct)
  case (step_refresh now c ids c')
  then have d: "distinct (map fst (providers c))" by (simp add: only_minted_def)
  note r = refresh_loop_spec [OF step_refresh.hyps [unfolded refresh_due_def] d]
  show ?case unfolding only_minted_def
  proof (intro conjI allI impI)
    show "distinct (map fst (providers c'))" using d r by simp
    show "hm_inv (cache c')" using r(5) step_refresh.prems by (simp add: only_minted_def)
    fix i m
    assume m: "map_of (cache c') i = Some m"
    show "\<exists>p now. (i, p) \<in> set (providers c') \<and> prov_mint p now = Inr m"
    proof (cases "Option.bind (map_of (providers c) i) (due_mint now c i)")
      case None
      with m r step_refresh.prems show ?thesis by (simp add: only_minted_def)
    next
      case (Some m')
      then obtain p where p: "map_of (providers c) i = Some p" "due_mint now c i p = Some m'"
        by (auto simp: bind_Some_iff)
      moreover have "m' = m" using m r(3) [of i] Some by simp
      ultimately have "(i, p) \<in> set (providers c')" "prov_mint p now = Inr m"
        using r(2) map_of_SomeD by (auto simp: due_mint_def split: sum.splits if_splits)
      then show ?thesis by blast
    qed
  qed
next
  case (step_static c ident s)
  then show ?case by (simp add: only_minted_def insert_static_def)
qed

text \<open>
  A static secret wins over a minted one of the same id, whatever is refreshed; and a lookup does
  not look at the expiry of what it serves.
\<close>

lemma static_shadows_provider:
  assumes "map_of (static_secrets c) i = Some s" "distinct (map fst (providers c))"
    and "refresh_due now c = (ids, c')"
  shows "caching_resolve c' i = Some s"
  using refresh_loop_spec(1) [OF assms(3) [unfolded refresh_due_def] assms(2)] assms(1)
  by (simp add: caching_resolve_def)

lemma expired_secret_served:
  assumes "map_of (static_secrets c) i = None" "map_of (cache c) i = Some m"
    and "distinct (map fst (providers c))" "refresh_due now c = (ids, c')"
    and "map_of (providers c) i = Some p" "prov_mint p now = Inl e"
  shows "caching_resolve c' i = Some (ms_secret m)"
proof -
  note r = refresh_loop_spec [OF assms(4) [unfolded refresh_due_def] assms(3)]
  have "due_mint now c i p = None" using assms(6) by (simp add: due_mint_def)
  then have "map_of (cache c') i = Some m" using r(3) [of i] assms by simp
  with r(1) assms(1) show ?thesis by (simp add: caching_resolve_def)
qed

section \<open>The audit file\<close>

lemma file_round_trip:
  assumes "\<And>e. e \<in> set es \<Longrightarrow> \<exists>l. to_json e = Some l \<and> from_json l = Some e \<and> utf8 l \<and> chr 10 \<notin> set l
      \<and> strip_cr l = l \<and> trim l \<noteq> []"
  shows "file_read from_json (fold (file_record to_json True) es []) = Some es"
proof -
  define line where "line e = the (to_json e)" for e
  define doc where "doc = concat (map (\<lambda>e. line e @ [chr 10]) es)"
  have l: "to_json e = Some (line e)" "from_json (line e) = Some e" "utf8 (line e)" "chr 10 \<notin> set (line e)"
    "strip_cr (line e) = line e" "trim (line e) \<noteq> []" if "e \<in> set es" for e
    using assms [OF that] by (auto simp: line_def)
  have "fold (file_record to_json True) es c = c @ doc" for c
    unfolding doc_def using l(1)
    by (induction es arbitrary: c) (auto simp: file_record_def)
  then have f: "fold (file_record to_json True) es [] = doc" by simp
  have u: "utf8 doc" unfolding doc_def using l(3)
  proof (induction es)
    case (Cons e es)
    have "utf8 ([chr 10] @ concat (map (\<lambda>e. line e @ [chr 10]) es))"
      using Cons by (simp add: utf8_ascii_Cons)
    with Cons show ?case by (simp add: utf8_append)
  qed (simp add: utf8.simps)
  have ls: "lines doc = map line es" unfolding doc_def using l(4,5)
  proof (induction es)
    case (Cons e es)
    then show ?case using lines_append [of "line e"] by simp
  qed simp
  have "filter (\<lambda>l. trim l \<noteq> []) (map line es) = map line es" using l(6) by (auto simp: filter_id_conv)
  moreover have "List.map_filter from_json (map line es) = es"
    using l(2) by (induction es) (auto simp: List.map_filter_def)
  ultimately show ?thesis unfolding file_read_def f from_utf8_def using u ls by simp
qed

section \<open>Properties\<close>

text \<open>A refresh rotates exactly what is due: afterwards a provider-backed id serves the value just
  minted when it was missing or within its skew of expiry and its mint succeeded, and otherwise
  what it served before (so one failing provider stalls neither the others nor its own cached
  value); the returned ids are exactly the rotated ones, in provider order.\<close>

theorem refresh_rotates_due_credentials:
  assumes "distinct (map fst (providers c))" "refresh_due now c = (ids, c')"
  shows "caching_resolve c' i =
      (if map_of (static_secrets c) i = None
       then case Option.bind (map_of (providers c) i) (due_mint now c i) of
           Some m \<Rightarrow> Some (ms_secret m) | None \<Rightarrow> caching_resolve c i
       else map_of (static_secrets c) i)
    \<and> ids = map fst (filter (\<lambda>(i, p). due_mint now c i p \<noteq> None) (providers c))"
  using refresh_loop_spec [OF assms(2) [unfolded refresh_due_def] assms(1)]
  by (auto simp: caching_resolve_def split: option.splits)

theorem refresh_rotates_due_credentials_witness:
  "\<exists>c'. refresh_due 0 (caching_new [(''s'', ''static'')]
       [(''ok'', \<lparr> prov_mint = (\<lambda>t. Inr \<lparr> ms_secret = ''minted'', ms_expires_at_ms = t + 900000 \<rparr>), prov_refresh_skew_ms = 60000 \<rparr>),
        (''bad'', \<lparr> prov_mint = (\<lambda>t. Inl ''down''), prov_refresh_skew_ms = 60000 \<rparr>)]) = ([''ok''], c')
     \<and> caching_resolve c' ''ok'' = Some ''minted'' \<and> caching_resolve c' ''bad'' = None"
proof -
  let ?c = "caching_new [(''s'', ''static'')]
       [(''ok'', \<lparr> prov_mint = (\<lambda>t. Inr \<lparr> ms_secret = ''minted'', ms_expires_at_ms = t + 900000 \<rparr>), prov_refresh_skew_ms = 60000 \<rparr>),
        (''bad'', \<lparr> prov_mint = (\<lambda>t. Inl ''down''), prov_refresh_skew_ms = 60000 \<rparr>)]"
  have d: "distinct (map fst (providers ?c))" by (simp add: caching_new_def)
  obtain ids c' where r: "refresh_due 0 ?c = (ids, c')" by fastforce
  note t = refresh_rotates_due_credentials [OF d r]
  have "caching_resolve c' ''ok'' = Some ''minted''" "caching_resolve c' ''bad'' = None" "ids = [''ok'']"
    using t [of "''ok''"] t [of "''bad''"]
    by (simp_all add: caching_new_def due_mint_def needs_refresh_def caching_resolve_def)
  with r show ?thesis by blast
qed

text \<open>C34. The vault fails closed: in every state reachable by refreshes and static registrations, an id
  resolves only to its static secret or to a value that its own provider returned; an id with
  neither does not resolve.\<close>

theorem vault_serves_only_configured_secrets:
  assumes "distinct (map fst provs)" "cache_step\<^sup>*\<^sup>* (caching_new statics provs) c"
    and "caching_resolve c i = Some s"
  shows "map_of (static_secrets c) i = Some s
    \<or> (\<exists>p now m. (i, p) \<in> set (providers c) \<and> prov_mint p now = Inr m \<and> ms_secret m = s)"
proof -
  have "only_minted c"
    using assms(2) only_minted_new [OF assms(1)]
    by (induction rule: rtranclp_induct) (auto intro: only_minted_step)
  with assms(3) show ?thesis
    by (fastforce simp: caching_resolve_def only_minted_def split: option.splits)
qed

theorem vault_serves_only_configured_secrets_witness:
  "\<exists>c. cache_step\<^sup>*\<^sup>* (caching_new [] []) c \<and> caching_resolve c ''k'' = Some ''v'' \<and> map_of (static_secrets c) ''k'' = Some ''v''"
proof -
  let ?c = "insert_static ''k'' ''v'' (caching_new [] [])"
  have run: "cache_step\<^sup>*\<^sup>* (caching_new [] []) ?c" by (rule r_into_rtranclp) (rule step_static)
  have r: "caching_resolve ?c ''k'' = Some ''v''"
    by (simp add: caching_resolve_def insert_static_def caching_new_def hm_insert_def)
  have d: "distinct (map fst ([] :: (string, provider) assoc))" by simp
  have "map_of (static_secrets ?c) ''k'' = Some ''v''"
    using vault_serves_only_configured_secrets [OF d run r] by (auto simp: insert_static_def caching_new_def)
  with run r show ?thesis by blast
qed

text \<open>What the JSONL sink appends is read back: after any number of successful records the log parses
  to exactly the recorded events, oldest first. The JSON library is assumed to print an event as
  one non-blank line of UTF-8 that its parser maps back to the event.\<close>

theorem audit_file_round_trip:
  assumes "\<And>e. e \<in> set es \<Longrightarrow> \<exists>l. to_json e = Some l \<and> from_json l = Some e \<and> utf8 l \<and> chr 10 \<notin> set l
      \<and> strip_cr l = l \<and> trim l \<noteq> []"
  shows "file_read from_json (fold (file_record to_json True) es []) = Some es"
  using assms by (rule file_round_trip)

theorem audit_file_round_trip_witness:
  "\<exists>e1 e2 :: audit_event. e1 \<noteq> e2 \<and>
     file_read (\<lambda>l. if l = ''{1}'' then Some e1 else Some e2)
       (fold (file_record (\<lambda>e. Some (if e = e1 then ''{1}'' else ''{2}'')) True) [e1, e2, e1] []) = Some [e1, e2, e1]"
proof -
  let ?a = "action_of ''t'' (Crud Read) (resource_of [] ''root'')"
  let ?e1 = "\<lparr> at_ms = 1, e_action = ?a, e_decision = DecAllow, e_detail = [] \<rparr>"
  let ?e2 = "\<lparr> at_ms = 2, e_action = ?a, e_decision = DecDeny, e_detail = [] \<rparr>"
  have c: "utf8 ''{1}''" "chr 10 \<notin> set ''{1}''" "strip_cr ''{1}'' = ''{1}''" "trim ''{1}'' \<noteq> []"
    "utf8 ''{2}''" "chr 10 \<notin> set ''{2}''" "strip_cr ''{2}'' = ''{2}''" "trim ''{2}'' \<noteq> []" by code_simp+
  have "file_read (\<lambda>l. if l = ''{1}'' then Some ?e1 else Some ?e2)
       (fold (file_record (\<lambda>e. Some (if e = ?e1 then ''{1}'' else ''{2}'')) True) [?e1, ?e2, ?e1] []) = Some [?e1, ?e2, ?e1]"
    by (rule audit_file_round_trip) (use c in auto)
  moreover have "?e1 \<noteq> ?e2" by simp
  ultimately show ?thesis by blast
qed

end
