(* ===== verification/Gateway.thy ===== *)
theory Gateway
  imports Policy SigV4 Canonicalize Normalize Vault
begin

text \<open>
  \<^verbatim>\<open>gateway/src/core.rs\<close>: the decision and enforcement path. A gateway operation is a function of
  the gateway's state, the clock reading it takes and its arguments; it returns its result and the
  new state. A request that panics (in the percent decoder) has the value \<open>None\<close>; no state is
  written before such a panic. HTTP status codes are numbers.
\<close>

section \<open>Types\<close>

record 'h forward_plan =
  fp_url :: string
  fp_method :: string
  fp_headers :: "'h"
  fp_body :: bytes

record rejection =
  rj_status :: nat
  rj_reason :: deny_reason
  rj_message :: string

datatype 'h outcome = Forward "'h forward_plan" | Reject rejection

record gateway =
  g_control :: control
  g_router :: "service list"
  g_catalogs :: "(string, catalog) assoc"
  g_ca :: string

datatype mint_error =
    MissingTenant
  | UnknownTenant
  | TargetNotOwned string
  | TenantWildcardTarget
  | UnknownAction string string

datatype auth_source = HackamoreHeader | AuthorizationSource | SigV4Source

definition HACKAMORE_TOKEN_HEADER :: string where
  "HACKAMORE_TOKEN_HEADER = ''x-hackamore-token''"

definition gateway_new :: "control \<Rightarrow> service list \<Rightarrow> gateway" where
  "gateway_new ctl router = \<lparr> g_control = ctl, g_router = router, g_catalogs = [], g_ca = [] \<rparr>"

definition with_catalogs :: "(string, catalog) assoc \<Rightarrow> gateway \<Rightarrow> gateway" where
  "with_catalogs cs g = g\<lparr> g_catalogs := cs \<rparr>"

definition with_ca :: "string \<Rightarrow> gateway \<Rightarrow> gateway" where
  "with_ca pem g = g\<lparr> g_ca := pem \<rparr>"

section \<open>Minting\<close>

definition gateway_mint :: "'h env \<Rightarrow> policy \<Rightarrow> u64 \<Rightarrow> u64 \<Rightarrow> gateway \<Rightarrow> mint_response \<times> gateway" where
  "gateway_mint E pol ttl_seconds now g =
     (let (r, ts) = tokens_mint E pol ttl_seconds now (cp_tokens (g_control g))
      in (r, g\<lparr> g_control := (g_control g)\<lparr> cp_tokens := ts \<rparr> \<rparr>))"

text \<open>The loops of the two validators return the error of the first offending item.\<close>

fun tenant_targets :: "string set \<Rightarrow> string list \<Rightarrow> mint_error option" where
  "tenant_targets owned [] = None"
| "tenant_targets owned (t # ts) =
     (if t \<notin> owned then Some (TargetNotOwned t) else tenant_targets owned ts)"

fun tenant_rules :: "string set \<Rightarrow> rule list \<Rightarrow> mint_error option" where
  "tenant_rules owned [] = None"
| "tenant_rules owned (r # rs) =
     (if effect r \<noteq> EAllow then tenant_rules owned rs
      else if m_targets (matches r) = [] then Some TenantWildcardTarget
      else case tenant_targets owned (m_targets (matches r)) of
          Some e \<Rightarrow> Some e
        | None \<Rightarrow> tenant_rules owned rs)"

definition validate_tenant_policy :: "policy \<Rightarrow> string set \<Rightarrow> mint_error option" where
  "validate_tenant_policy pol owned = tenant_rules owned (rules pol)"

fun catalog_targets :: "(string, catalog) assoc \<Rightarrow> string \<Rightarrow> string list \<Rightarrow> mint_error option" where
  "catalog_targets cats named [] = None"
| "catalog_targets cats named (t # ts) =
     (case map_of cats t of
        None \<Rightarrow> catalog_targets cats named ts
      | Some c \<Rightarrow>
          if \<not> catalog_is_empty c \<and> \<not> catalog_knows c named then Some (UnknownAction t named)
          else catalog_targets cats named ts)"

fun catalog_verbs :: "(string, catalog) assoc \<Rightarrow> string list \<Rightarrow> verb list \<Rightarrow> mint_error option" where
  "catalog_verbs cats targets [] = None"
| "catalog_verbs cats targets (Crud _ # vs) = catalog_verbs cats targets vs"
| "catalog_verbs cats targets (NamedAction named # vs) =
     (let nonempty = filter (\<lambda>c. \<not> catalog_is_empty c) (map snd cats) in
      if targets = [] then
        if nonempty \<noteq> [] \<and> \<not> list_ex (\<lambda>c. catalog_knows c named) nonempty
        then Some (UnknownAction ''*'' named)
        else catalog_verbs cats targets vs
      else case catalog_targets cats named targets of
          Some e \<Rightarrow> Some e
        | None \<Rightarrow> catalog_verbs cats targets vs)"

fun catalog_rules :: "(string, catalog) assoc \<Rightarrow> rule list \<Rightarrow> mint_error option" where
  "catalog_rules cats [] = None"
| "catalog_rules cats (r # rs) =
     (if effect r \<noteq> EAllow then catalog_rules cats rs
      else case catalog_verbs cats (m_targets (matches r)) (m_verbs (matches r)) of
          Some e \<Rightarrow> Some e
        | None \<Rightarrow> catalog_rules cats rs)"

definition validate_catalog :: "gateway \<Rightarrow> policy \<Rightarrow> mint_error option" where
  "validate_catalog g pol = catalog_rules (g_catalogs g) (rules pol)"

text \<open>The tenant's part of \<^verbatim>\<open>mint_checked\<close>: the error of its three early returns.\<close>

definition check_tenant :: "gateway \<Rightarrow> policy \<Rightarrow> string option \<Rightarrow> mint_error option" where
  "check_tenant g pol tenant =
     (if \<not> tenants_is_empty (cp_tenants (g_control g)) then
        (case tenant of
           None \<Rightarrow> Some MissingTenant
         | Some key \<Rightarrow>
             (case tenants_owned (cp_tenants (g_control g)) key of
                None \<Rightarrow> Some UnknownTenant
              | Some owned \<Rightarrow> validate_tenant_policy pol owned))
      else None)"

definition mint_checked ::
  "'h env \<Rightarrow> policy \<Rightarrow> u64 \<Rightarrow> string option \<Rightarrow> u64 \<Rightarrow> gateway \<Rightarrow> (mint_error + mint_response) \<times> gateway" where
  "mint_checked E pol ttl_seconds tenant now g =
     (case check_tenant g pol tenant of
        Some e \<Rightarrow> (Inl e, g)
      | None \<Rightarrow>
          (case validate_catalog g pol of
             Some e \<Rightarrow> (Inl e, g)
           | None \<Rightarrow> let (r, g') = gateway_mint E pol ttl_seconds now g in (Inr r, g')))"

fun mint_error_display :: "mint_error \<Rightarrow> string" where
  "mint_error_display MissingTenant = ''missing tenant credential''"
| "mint_error_display UnknownTenant = ''unknown tenant credential''"
| "mint_error_display (TargetNotOwned t) = ''target '' @ [chr 39] @ t @ [chr 39] @ '' is not owned by this tenant''"
| "mint_error_display TenantWildcardTarget = ''tenant allow rules must name explicit targets''"
| "mint_error_display (UnknownAction target act) =
     ''action '' @ [chr 39] @ act @ [chr 39] @ '' is not in the catalog for target '' @ [chr 39] @ target @ [chr 39]"

definition gateway_revoke :: "string \<Rightarrow> gateway \<Rightarrow> bool \<times> gateway" where
  "gateway_revoke token g =
     (let (b, ts) = revoke token (cp_tokens (g_control g))
      in (b, g\<lparr> g_control := (g_control g)\<lparr> cp_tokens := ts \<rparr> \<rparr>))"

definition sweep_expired :: "u64 \<Rightarrow> gateway \<Rightarrow> nat \<times> gateway" where
  "sweep_expired now g =
     (let (n, ts) = sweep now (cp_tokens (g_control g))
      in (n, g\<lparr> g_control := (g_control g)\<lparr> cp_tokens := ts \<rparr> \<rparr>))"

section \<open>Provisioning\<close>

definition mint_service_auth ::
  "'h env \<Rightarrow> service \<Rightarrow> string \<Rightarrow> policy \<Rightarrow> u64 \<Rightarrow> u64 \<Rightarrow> tokens \<Rightarrow> (provision_mode \<times> provision_auth) \<times> tokens" where
  "mint_service_auth E svc token pol now ttl_remaining ts =
     (case s_outbound svc of
        OutSigV4 _ _ region _ \<Rightarrow>
          let (dummy, ts') = mint_sigv4 E pol ttl_remaining now ts
          in ((Inject, SigV4Auth \<lparr> sa_access_key_id = sm_access_key_id dummy,
                 sa_secret_access_key = sm_secret_access_key dummy, sa_region = region \<rparr>), ts')
      | Passthrough \<Rightarrow> ((PassthroughMode, BearerAuth token), ts)
      | Bearer _ \<Rightarrow> ((Inject, BearerAuth token), ts)
      | Header _ _ \<Rightarrow> ((Inject, BearerAuth token), ts))"

text \<open>The first loop of \<^verbatim>\<open>provisionable_services\<close>: any-target flag and named targets of allow rules.\<close>

fun granted_targets :: "rule list \<Rightarrow> bool \<Rightarrow> string set \<Rightarrow> bool \<times> string set" where
  "granted_targets [] any_target named = (any_target, named)"
| "granted_targets (r # rs) any_target named =
     (if effect r \<noteq> EAllow then granted_targets rs any_target named
      else granted_targets rs (if m_targets (matches r) = [] then True else any_target)
        (named \<union> set (m_targets (matches r))))"

fun provision_loop ::
  "'h env \<Rightarrow> bool \<Rightarrow> string set \<Rightarrow> string \<Rightarrow> policy \<Rightarrow> u64 \<Rightarrow> u64 \<Rightarrow> service list \<Rightarrow> tokens
   \<Rightarrow> provision_service list \<times> tokens" where
  "provision_loop E any_target named token pol now ttl [] ts = ([], ts)"
| "provision_loop E any_target named token pol now ttl (s # ss) ts =
     (if \<not> (any_target \<or> s_name s \<in> named) then provision_loop E any_target named token pol now ttl ss ts
      else
        let ((mode, auth), ts') = mint_service_auth E s token pol now ttl ts;
            (out, ts'') = provision_loop E any_target named token pol now ttl ss ts'
        in (\<lparr> ps_target = s_name s, ps_flavor = flavor_name (s_flavor s), ps_address = s_address s,
              ps_mode = mode, ps_auth = auth \<rparr> # out, ts''))"

definition provisionable_services ::
  "'h env \<Rightarrow> service list \<Rightarrow> string \<Rightarrow> policy \<Rightarrow> u64 \<Rightarrow> u64 \<Rightarrow> tokens \<Rightarrow> provision_service list \<times> tokens" where
  "provisionable_services E services token pol now expires_at_ms ts =
     (let (any_target, named) = granted_targets (rules pol) False {};
          ttl_remaining = max (sat_sub expires_at_ms now div 1000) 1
      in provision_loop E any_target named token pol now ttl_remaining services ts)"

definition provision :: "'h env \<Rightarrow> string \<Rightarrow> u64 \<Rightarrow> gateway \<Rightarrow> provision_doc option \<times> gateway" where
  "provision E token now g =
     (case resolve_full (cp_tokens (g_control g)) token now of
        None \<Rightarrow> (None, g)
      | Some (pol, expires_at_ms) \<Rightarrow>
          let (svcs, ts) = provisionable_services E (g_router g) token pol now expires_at_ms (cp_tokens (g_control g))
          in (Some \<lparr> pd_token = token, pd_ca = g_ca g, pd_expires_at_ms = expires_at_ms, pd_services = svcs \<rparr>,
              g\<lparr> g_control := (g_control g)\<lparr> cp_tokens := ts \<rparr> \<rparr>))"

section \<open>Authenticating\<close>

definition reject :: "nat \<Rightarrow> deny_reason \<Rightarrow> string \<Rightarrow> 'h outcome" where
  "reject status reason message = Reject \<lparr> rj_status = status, rj_reason = reason, rj_message = message \<rparr>"

definition extract_auth :: "'h env \<Rightarrow> 'h \<Rightarrow> (string \<times> auth_source) option" where
  "extract_auth E headers =
     (let from_authorization = do {
          raw \<leftarrow> Option.bind (headers_get E headers ''authorization'') (value_to_str E);
          (scheme, v) \<leftarrow> split_once (CHR '' '') raw;
          let scheme = to_ascii_lowercase scheme;
          if (scheme = ''bearer'' \<or> scheme = ''token'') \<and> trim v \<noteq> []
          then Some (trim v, AuthorizationSource) else None
        }
      in case Option.bind (headers_get E headers HACKAMORE_TOKEN_HEADER) (value_to_str E) of
          Some v \<Rightarrow> if trim v \<noteq> [] then Some (trim v, HackamoreHeader) else from_authorization
        | None \<Rightarrow> from_authorization)"

definition token_from_headers :: "'h env \<Rightarrow> 'h \<Rightarrow> string option" where
  "token_from_headers E headers = map_option fst (extract_auth E headers)"

definition unauth_sigv4 :: "'h outcome" where
  "unauth_sigv4 = reject 401 Unauthenticated ''invalid or unknown SigV4 credential''"

definition authenticate_sigv4 ::
  "'h env \<Rightarrow> tokens \<Rightarrow> 'h proxy_request \<Rightarrow> string \<Rightarrow> u64 \<Rightarrow> ('h outcome + policy \<times> auth_source) option" where
  "authenticate_sigv4 E ts req auth now =
     (case parse_authorization auth of
        None \<Rightarrow> Some (Inl unauth_sigv4)
      | Some p \<Rightarrow>
          (case resolve_sigv4 ts (p_access_key_id p) now of
             None \<Rightarrow> Some (Inl unauth_sigv4)
           | Some (pol, secret) \<Rightarrow>
               map_option (\<lambda>r. case r of Inr () \<Rightarrow> Inr (pol, SigV4Source) | Inl _ \<Rightarrow> Inl unauth_sigv4)
                 (verify E secret p (q_method req) (q_path req) (q_query req) (q_headers req) (q_body req) now)))"

definition authenticate_token ::
  "'h env \<Rightarrow> tokens \<Rightarrow> 'h proxy_request \<Rightarrow> u64 \<Rightarrow> 'h outcome + policy \<times> auth_source" where
  "authenticate_token E ts req now =
     (case extract_auth E (q_headers req) of
        None \<Rightarrow> Inl (reject 401 Unauthenticated ''missing hackamore token'')
      | Some (token, source) \<Rightarrow>
          (case resolve ts token now of
             Some pol \<Rightarrow> Inr (pol, source)
           | None \<Rightarrow> Inl (reject 401 Unauthenticated ''unknown or expired hackamore token'')))"

definition authenticate ::
  "'h env \<Rightarrow> tokens \<Rightarrow> 'h proxy_request \<Rightarrow> u64 \<Rightarrow> ('h outcome + policy \<times> auth_source) option" where
  "authenticate E ts req now =
     (case Option.bind (headers_get E (q_headers req) ''authorization'') (value_to_str E) of
        Some auth \<Rightarrow>
          if starts_with ''AWS4-HMAC-SHA256'' auth then authenticate_sigv4 E ts req auth now
          else Some (authenticate_token E ts req now)
      | None \<Rightarrow> Some (authenticate_token E ts req now))"

section \<open>Forwarding\<close>

definition host_of :: "string \<Rightarrow> string" where
  "host_of base =
     (let no_scheme = (case split_once_str ''://'' base of Some (_, r) \<Rightarrow> r | None \<Rightarrow> base)
      in case split_on (CHR ''/'') no_scheme of h # _ \<Rightarrow> h | [] \<Rightarrow> no_scheme)"

definition set_header :: "'h env \<Rightarrow> string \<Rightarrow> string \<Rightarrow> 'h \<Rightarrow> 'h" where
  "set_header E nm v headers =
     (case value_from_str E v of Some hv \<Rightarrow> headers_insert E headers nm hv | None \<Rightarrow> headers)"

definition upstream_url :: "string \<Rightarrow> string \<Rightarrow> string \<Rightarrow> string" where
  "upstream_url base0 path query =
     (let base = trim_end_matches (CHR ''/'') base0
      in if query = [] then base @ path else base @ path @ ''?'' @ query)"

definition extract_host :: "'h env \<Rightarrow> 'h \<Rightarrow> string option" where
  "extract_host E headers = Option.bind (headers_get E headers ''host'') (value_to_str E)"

definition HOP_BY_HOP :: "string list" where
  "HOP_BY_HOP = [''connection'', ''keep-alive'', ''proxy-authenticate'', ''proxy-authorization'', ''te'',
     ''trailers'', ''transfer-encoding'', ''upgrade'']"

definition is_dropped_header :: "string \<Rightarrow> auth_source \<Rightarrow> bool" where
  "is_dropped_header nm source =
     (let n = to_ascii_lowercase nm in
      if n = HACKAMORE_TOKEN_HEADER \<or> n = ''host'' \<or> n = ''content-length'' then True
      else if n = ''authorization'' then source \<noteq> HackamoreHeader
      else if source = SigV4Source \<and> (n = ''x-amz-date'' \<or> n = ''x-amz-content-sha256'') then True
      else n \<in> set HOP_BY_HOP)"

definition sanitize_headers :: "'h env \<Rightarrow> 'h \<Rightarrow> auth_source \<Rightarrow> 'h" where
  "sanitize_headers E headers source =
     fold (\<lambda>(n, v) out. if is_dropped_header n source then out else headers_append E out n v)
       (headers_iter E headers) (headers_new E)"

definition audit :: "action \<Rightarrow> decision \<Rightarrow> string \<Rightarrow> u64 \<Rightarrow> control \<Rightarrow> control" where
  "audit act verd detail now c =
     c\<lparr> cp_audit := in_memory_record
         \<lparr> at_ms = now, e_action = act, e_decision = verd, e_detail = detail \<rparr> (cp_audit c) \<rparr>"

definition audit_raw :: "string \<Rightarrow> decision \<Rightarrow> string \<Rightarrow> u64 \<Rightarrow> control \<Rightarrow> control" where
  "audit_raw host verd detail now c =
     audit (action_of ''<unrouted>'' (verb_crud Read) (resource_of host ''host'')) verd detail now c"

definition bad_gateway :: "string \<Rightarrow> 'h outcome" where
  "bad_gateway message = reject 502 NotAllowed message"

definition not_configured :: "string \<Rightarrow> string" where
  "not_configured credential = ''credential '' @ [chr 39] @ credential @ [chr 39] @ '' not configured''"

definition resolve_header_value ::
  "'h env \<Rightarrow> action \<Rightarrow> string \<Rightarrow> string \<Rightarrow> u64 \<Rightarrow> control \<Rightarrow> ('h outcome + bytes) \<times> control" where
  "resolve_header_value E act credential pfx now c =
     (case store_resolve (cp_credentials c) credential of
        None \<Rightarrow> (Inl (bad_gateway ''required credential is not configured''),
          audit act DecDeny (not_configured credential) now c)
      | Some secret \<Rightarrow>
          (case value_from_str E (pfx @ expose secret) of
             Some v \<Rightarrow> (Inr v, c)
           | None \<Rightarrow> (Inl (bad_gateway ''credential is not header-safe''),
               audit act DecDeny ''credential not header-safe'' now c)))"

text \<open>
  The match on the service's outbound stance: an early return, or the headers to send and the audit
  detail.
\<close>

definition apply_outbound ::
  "'h env \<Rightarrow> service \<Rightarrow> action \<Rightarrow> 'h proxy_request \<Rightarrow> 'h \<Rightarrow> u64 \<Rightarrow> control
   \<Rightarrow> (('h outcome + 'h \<times> string) \<times> control) option" where
  "apply_outbound E svc act req headers now c =
     (case s_outbound svc of
        Passthrough \<Rightarrow> Some (Inr (headers, ''allowed (passthrough)''), c)
      | Bearer credential \<Rightarrow>
          Some (case resolve_header_value E act credential ''Bearer '' now c of
              (Inl out, c') \<Rightarrow> (Inl out, c')
            | (Inr v, c') \<Rightarrow> (Inr (headers_insert E headers ''authorization'' v,
                ''allowed; injected bearer ['' @ credential @ '']''), c'))
      | Header nm credential \<Rightarrow>
          Some (case name_from_bytes E nm of
              None \<Rightarrow> (Inl (bad_gateway ''configured header name is invalid''),
                audit act DecDeny ''invalid header name'' now c)
            | Some header_name \<Rightarrow>
                (case resolve_header_value E act credential [] now c of
                   (Inl out, c') \<Rightarrow> (Inl out, c')
                 | (Inr v, c') \<Rightarrow> (Inr (headers_insert E headers header_name v,
                     ''allowed; injected header '' @ nm @ '' ['' @ credential @ '']''), c')))
      | OutSigV4 credential akid rgn aws_service \<Rightarrow>
          (case store_resolve (cp_credentials c) credential of
             None \<Rightarrow> Some (Inl (bad_gateway ''required credential is not configured''),
               audit act DecDeny (not_configured credential) now c)
           | Some secret \<Rightarrow> do {
               sg \<leftarrow> sign E \<lparr> cr_access_key_id = akid, cr_secret_access_key = expose secret \<rparr> rgn aws_service
                 (q_method req) (host_of (s_upstream_base svc)) (q_path req) (q_query req) (q_body req) now;
               let headers = set_header E ''authorization'' (sg_authorization sg) headers;
               let headers = set_header E ''x-amz-date'' (sg_amz_date sg) headers;
               let headers = set_header E ''x-amz-content-sha256'' (sg_content_sha256 sg) headers;
               Some (Inr (headers, ''allowed; sigv4 re-signed ['' @ credential @ '']''), c)
             }))"

definition plan_forward ::
  "'h env \<Rightarrow> service \<Rightarrow> action \<Rightarrow> 'h proxy_request \<Rightarrow> auth_source \<Rightarrow> u64 \<Rightarrow> control
   \<Rightarrow> ('h outcome \<times> control) option" where
  "plan_forward E svc act req source now c = do {
     (r, c') \<leftarrow> apply_outbound E svc act req (sanitize_headers E (q_headers req) source) now c;
     Some (case r of
         Inl out \<Rightarrow> (out, c')
       | Inr (headers, detail) \<Rightarrow>
           (Forward \<lparr> fp_url = upstream_url (s_upstream_base svc) (q_path req) (q_query req),
              fp_method = q_method req, fp_headers = headers, fp_body = q_body req \<rparr>,
            audit act DecAllow detail now c'))
   }"

text \<open>What \<^verbatim>\<open>handle\<close> does with an authenticated request, over the control plane.\<close>

definition handle_authenticated ::
  "'h env \<Rightarrow> service list \<Rightarrow> 'h proxy_request \<Rightarrow> policy \<Rightarrow> auth_source \<Rightarrow> u64 \<Rightarrow> control
   \<Rightarrow> ('h outcome \<times> control) option" where
  "handle_authenticated E services req pol source now c =
     (let host = (case extract_host E (q_headers req) of Some h \<Rightarrow> h | None \<Rightarrow> []) in
      case route services host of
        None \<Rightarrow> Some (reject 404 UnknownTarget ''no service configured for this host'',
          audit_raw host DecDeny ''no service for host'' now c)
      | Some svc \<Rightarrow> do {
          cr \<leftarrow> canonicalize (q_path req);
          case cr of
            Inl Escape \<Rightarrow> Some (reject 400 NotAllowed ''non-canonical request path'',
              audit_raw host DecDeny ''non-canonical path'' now c)
          | Inr canonical \<Rightarrow> do {
              act \<leftarrow> normalize E svc req (cp_decoded canonical);
              let req = req\<lparr> q_path := cp_encoded canonical \<rparr>;
              case decide act pol of
                Deny reason \<Rightarrow> Some (reject 403 reason ''denied by policy'',
                  audit act DecDeny (debug_reason reason) now c)
              | Allow _ \<Rightarrow> plan_forward E svc act req source now c
            }
        })"

definition handle ::
  "'h env \<Rightarrow> 'h proxy_request \<Rightarrow> u64 \<Rightarrow> gateway \<Rightarrow> ('h outcome \<times> gateway) option" where
  "handle E req now g = do {
     a \<leftarrow> authenticate E (cp_tokens (g_control g)) req now;
     case a of
       Inl out \<Rightarrow> Some (out, g)
     | Inr (pol, source) \<Rightarrow> do {
         (out, c) \<leftarrow> handle_authenticated E (g_router g) req pol source now (g_control g);
         Some (out, g\<lparr> g_control := c \<rparr>)
       }
   }"

section \<open>Headers that reach the upstream\<close>

lemma sanitize_values:
  assumes "http_laws E"
  shows "header_values E (sanitize_headers E h source) n =
    (if is_dropped_header n source then [] else header_values E h n)"
  unfolding sanitize_headers_def by (rule copied_values [OF assms])

lemma set_header_values:
  assumes "http_laws E" "list_all visible v"
  shows "header_values E (set_header E nm v h) n =
    (if n = to_ascii_lowercase nm then [v] else header_values E h n)"
  using assms by (simp add: set_header_def http_from_str_visible http_insert)

lemma header_names_lower [simp]:
  "to_ascii_lowercase ''authorization'' = ''authorization''"
  "to_ascii_lowercase ''x-amz-date'' = ''x-amz-date''"
  "to_ascii_lowercase ''x-amz-content-sha256'' = ''x-amz-content-sha256''"
  "to_ascii_lowercase ''host'' = ''host''"
  "to_ascii_lowercase ''content-length'' = ''content-length''"
  "to_ascii_lowercase HACKAMORE_TOKEN_HEADER = HACKAMORE_TOKEN_HEADER"
  by code_simp+

section \<open>The audit trail\<close>

lemma audit_simps [simp]:
  "cp_tokens (audit a v d now c) = cp_tokens c" "cp_tenants (audit a v d now c) = cp_tenants c"
  "cp_credentials (audit a v d now c) = cp_credentials c"
  "events_of (cp_audit (audit a v d now c)) = events_of (cp_audit c)
     @ [\<lparr> at_ms = now, e_action = a, e_decision = v, e_detail = d \<rparr>]"
  by (simp_all add: audit_def in_memory_record_def)

lemma audit_raw_simps [simp]:
  "cp_tokens (audit_raw h v d now c) = cp_tokens c" "cp_tenants (audit_raw h v d now c) = cp_tenants c"
  "cp_credentials (audit_raw h v d now c) = cp_credentials c"
  "\<exists>a. events_of (cp_audit (audit_raw h v d now c)) = events_of (cp_audit c)
     @ [\<lparr> at_ms = now, e_action = a, e_decision = v, e_detail = d \<rparr>]"
  by (simp_all add: audit_raw_def)

text \<open>What a step of the request path may do to the control plane: append one event.\<close>

definition is_forward :: "'h outcome \<Rightarrow> bool" where
  "is_forward out = (case out of Forward _ \<Rightarrow> True | Reject _ \<Rightarrow> False)"

definition logged :: "u64 \<Rightarrow> bool \<Rightarrow> control \<Rightarrow> control \<Rightarrow> bool" where
  "logged now allowed c c' \<longleftrightarrow>
     cp_tokens c' = cp_tokens c \<and> cp_tenants c' = cp_tenants c \<and> cp_credentials c' = cp_credentials c
     \<and> (\<exists>ev. events_of (cp_audit c') = events_of (cp_audit c) @ [ev] \<and> at_ms ev = now
          \<and> e_decision ev = (if allowed then DecAllow else DecDeny))"

lemma logged_audit: "logged now (v = DecAllow) c (audit a v d now c)"
  by (cases v) (simp_all add: logged_def)

lemma logged_audit_raw: "logged now (v = DecAllow) c (audit_raw h v d now c)"
  unfolding audit_raw_def by (rule logged_audit)

lemma logged_deny [simp]: "logged now False c (audit a DecDeny d now c)" "logged now False c (audit_raw h DecDeny d now c)"
  and logged_allow [simp]: "logged now True c (audit a DecAllow d now c)"
  using logged_audit [of now DecDeny] logged_audit_raw [of now DecDeny] logged_audit [of now DecAllow] by simp_all

lemma forward_simps [simp]:
  "\<not> is_forward (reject a b m)" "\<not> is_forward (bad_gateway m)" "is_forward (Forward p)"
  "\<not> is_forward (unauth_sigv4 :: 'h outcome)" "reject a b m \<noteq> Forward p" "bad_gateway m \<noteq> Forward p"
  by (simp_all add: is_forward_def reject_def bad_gateway_def unauth_sigv4_def)

lemma resolve_header_value_cases:
  "resolve_header_value E act cred pfx now c = (r, c') \<Longrightarrow>
     (\<exists>s v. r = Inr v \<and> c' = c \<and> store_resolve (cp_credentials c) cred = Some s
        \<and> value_from_str E (pfx @ s) = Some v)
     \<or> (\<exists>out. r = Inl out \<and> \<not> is_forward out \<and> logged now False c c')"
  by (auto simp: resolve_header_value_def expose_def split: option.splits)

text \<open>The outcome of the outbound stance: an early reject that is logged, or headers and no effect.\<close>

definition injected :: "'h env \<Rightarrow> service \<Rightarrow> 'h proxy_request \<Rightarrow> 'h \<Rightarrow> u64 \<Rightarrow> control \<Rightarrow> 'h \<Rightarrow> bool" where
  "injected E svc req h now c h' \<longleftrightarrow>
     (case s_outbound svc of
        Passthrough \<Rightarrow> h' = h
      | Bearer cred \<Rightarrow> \<exists>s v. store_resolve (cp_credentials c) cred = Some s
          \<and> value_from_str E (''Bearer '' @ s) = Some v \<and> h' = headers_insert E h ''authorization'' v
      | Header nm cred \<Rightarrow> \<exists>s v m. store_resolve (cp_credentials c) cred = Some s \<and> name_from_bytes E nm = Some m
          \<and> value_from_str E s = Some v \<and> h' = headers_insert E h m v
      | OutSigV4 cred akid rgn aws \<Rightarrow> \<exists>s sg. store_resolve (cp_credentials c) cred = Some s
          \<and> sign E \<lparr> cr_access_key_id = akid, cr_secret_access_key = s \<rparr> rgn aws (q_method req)
              (host_of (s_upstream_base svc)) (q_path req) (q_query req) (q_body req) now = Some sg
          \<and> h' = set_header E ''x-amz-content-sha256'' (sg_content_sha256 sg)
              (set_header E ''x-amz-date'' (sg_amz_date sg) (set_header E ''authorization'' (sg_authorization sg) h)))"

lemma apply_outbound_cases:
  assumes "apply_outbound E svc act req h now c = Some (r, c')"
  shows "(\<exists>out. r = Inl out \<and> \<not> is_forward out \<and> logged now False c c')
    \<or> (\<exists>h' d. r = Inr (h', d) \<and> c' = c \<and> injected E svc req h now c h')"
proof (cases "s_outbound svc")
  case Passthrough
  with assms show ?thesis by (auto simp: apply_outbound_def injected_def)
next
  case (Bearer cred)
  obtain r1 c1 where r: "resolve_header_value E act cred ''Bearer '' now c = (r1, c1)" by fastforce
  from resolve_header_value_cases [OF r] assms Bearer r show ?thesis
    by (auto simp: apply_outbound_def injected_def)
next
  case (Header nm cred)
  obtain r1 c1 where r: "resolve_header_value E act cred [] now c = (r1, c1)" by fastforce
  from resolve_header_value_cases [OF r] assms Header r show ?thesis
    by (cases "name_from_bytes E nm") (auto simp: apply_outbound_def injected_def)
next
  case (OutSigV4 cred akid rgn aws)
  with assms show ?thesis
    by (auto simp: apply_outbound_def injected_def expose_def bind_Some_iff Let_def split: option.splits)
qed

lemma plan_forward_cases:
  assumes "plan_forward E svc act req source now c = Some (out, c')"
  shows "logged now (is_forward out) c c'"
    "out = Forward plan \<Longrightarrow> injected E svc req (sanitize_headers E (q_headers req) source) now c (fp_headers plan)
      \<and> fp_url plan = upstream_url (s_upstream_base svc) (q_path req) (q_query req)
      \<and> fp_method plan = q_method req \<and> fp_body plan = q_body req"
proof -
  obtain r c1 where r: "apply_outbound E svc act req (sanitize_headers E (q_headers req) source) now c = Some (r, c1)"
    using assms by (auto simp: plan_forward_def bind_Some_iff)
  note cs = apply_outbound_cases [OF r]
  show "logged now (is_forward out) c c'"
    using cs assms r by (auto simp: plan_forward_def)
  show "out = Forward plan \<Longrightarrow> injected E svc req (sanitize_headers E (q_headers req) source) now c (fp_headers plan)
      \<and> fp_url plan = upstream_url (s_upstream_base svc) (q_path req) (q_query req)
      \<and> fp_method plan = q_method req \<and> fp_body plan = q_body req"
    using cs assms r by (auto simp: plan_forward_def)
qed

section \<open>The request path\<close>

text \<open>Who a request was authenticated as.\<close>

definition credential_presented ::
  "'h env \<Rightarrow> tokens \<Rightarrow> 'h proxy_request \<Rightarrow> u64 \<Rightarrow> policy \<Rightarrow> auth_source \<Rightarrow> bool" where
  "credential_presented E ts req now pol source \<longleftrightarrow>
     (if source = SigV4Source
      then \<exists>auth p secret e. parse_authorization auth = Some p
        \<and> header_value E (q_headers req) ''authorization'' = Some auth
        \<and> live now ts (p_access_key_id p) = Some e \<and> t_policy e = pol \<and> t_secret e = Some secret
        \<and> verify E secret p (q_method req) (q_path req) (q_query req) (q_headers req) (q_body req) now = Some (Inr ())
      else \<exists>token e. extract_auth E (q_headers req) = Some (token, source)
        \<and> live now ts token = Some e \<and> t_policy e = pol)"

lemma extract_auth_source: "extract_auth E h = Some (t, src) \<Longrightarrow> src \<noteq> SigV4Source"
  by (auto simp: extract_auth_def Let_def bind_Some_iff split: option.splits if_splits prod.splits)

lemma authenticate_token_credential:
  "authenticate_token E ts req now = Inr (pol, source) \<Longrightarrow> credential_presented E ts req now pol source"
  by (auto simp: authenticate_token_def credential_presented_def resolve_live map_option_Some_iff
      dest: extract_auth_source split: option.splits)

lemma authenticate_sigv4_cases:
  assumes "authenticate_sigv4 E ts req auth now = Some r"
  obtains (rejected) "r = Inl unauth_sigv4"
    | (verified) p pol secret where "parse_authorization auth = Some p"
      "resolve_sigv4 ts (p_access_key_id p) now = Some (pol, secret)"
      "verify E secret p (q_method req) (q_path req) (q_query req) (q_headers req) (q_body req) now = Some (Inr ())"
      "r = Inr (pol, SigV4Source)"
proof (cases "parse_authorization auth")
  case None
  with assms show thesis by (intro rejected) (simp add: authenticate_sigv4_def)
next
  case (Some p)
  note p = Some
  show thesis
  proof (cases "resolve_sigv4 ts (p_access_key_id p) now")
    case None
    with assms p show thesis by (intro rejected) (simp add: authenticate_sigv4_def)
  next
    case (Some z)
    obtain pol secret where z: "z = (pol, secret)" by (cases z)
    obtain w where w: "verify E secret p (q_method req) (q_path req) (q_query req) (q_headers req) (q_body req) now = Some w"
      and r: "r = (case w of Inr () \<Rightarrow> Inr (pol, SigV4Source) | Inl _ \<Rightarrow> Inl unauth_sigv4)"
      using assms p Some z unfolding authenticate_sigv4_def
      by (simp only: option.case prod.case map_option_Some_iff) blast
    show thesis
    proof (cases w)
      case (Inl e)
      with r show thesis by (intro rejected) simp
    next
      case (Inr u)
      with r have "r = Inr (pol, SigV4Source)" by (simp add: case_unit_Unity)
      then show thesis using verified [OF p] Some z w Inr by simp
    qed
  qed
qed

lemma authenticate_sigv4_credential:
  assumes "authenticate_sigv4 E ts req auth now = Some (Inr (pol, source))"
    and "header_value E (q_headers req) ''authorization'' = Some auth"
  shows "credential_presented E ts req now pol source"
proof (rule authenticate_sigv4_cases [OF assms(1)])
  fix p pol' secret
  assume p: "parse_authorization auth = Some p"
    and r: "resolve_sigv4 ts (p_access_key_id p) now = Some (pol', secret)"
    and v: "verify E secret p (q_method req) (q_path req) (q_query req) (q_headers req) (q_body req) now = Some (Inr ())"
    and "Inr (pol, source) = (Inr (pol', SigV4Source) :: 'a outcome + policy \<times> auth_source)"
  then have eq: "pol = pol'" "source = SigV4Source" by simp_all
  obtain e where "live now ts (p_access_key_id p) = Some e" "t_policy e = pol'" "t_secret e = Some secret"
    using r by (auto simp: resolve_sigv4_live bind_Some_iff)
  with p v assms(2) eq show ?thesis
    unfolding credential_presented_def eq(2) if_P [OF refl] by blast
qed simp

lemma authenticate_eq:
  "authenticate E ts req now =
     (case header_value E (q_headers req) ''authorization'' of
        Some auth \<Rightarrow> if starts_with ''AWS4-HMAC-SHA256'' auth then authenticate_sigv4 E ts req auth now
                     else Some (authenticate_token E ts req now)
      | None \<Rightarrow> Some (authenticate_token E ts req now))"
  unfolding authenticate_def header_value_def ..

lemma authenticate_cases:
  assumes "authenticate E ts req now = Some r"
  obtains (sigv4) auth where "header_value E (q_headers req) ''authorization'' = Some auth"
      "authenticate_sigv4 E ts req auth now = Some r"
    | (token) "authenticate_token E ts req now = r"
proof (cases "header_value E (q_headers req) ''authorization''")
  case None
  from assms [unfolded authenticate_eq None option.case] have "authenticate_token E ts req now = r"
    by (rule option.inject [THEN iffD1])
  then show thesis by (rule token)
next
  case (Some auth)
  note eq = assms [unfolded authenticate_eq Some option.case]
  show thesis
  proof (cases "starts_with ''AWS4-HMAC-SHA256'' auth")
    case True
    show thesis by (rule sigv4 [OF Some]) (rule eq [unfolded if_P [OF True]])
  next
    case False
    show thesis by (rule token, rule option.inject [THEN iffD1]) (rule eq [unfolded if_not_P [OF False]])
  qed
qed

lemma authenticate_credential:
  assumes "authenticate E ts req now = Some (Inr (pol, source))"
  shows "credential_presented E ts req now pol source"
proof (rule authenticate_cases [OF assms])
  fix auth
  assume "header_value E (q_headers req) ''authorization'' = Some auth"
    "authenticate_sigv4 E ts req auth now = Some (Inr (pol, source))"
  then show ?thesis by (blast intro: authenticate_sigv4_credential)
qed (simp add: authenticate_token_credential)

lemma authenticate_token_reject: "authenticate_token E ts req now = Inl out \<Longrightarrow> \<not> is_forward out"
  by (auto simp: authenticate_token_def split: option.splits)

lemma authenticate_sigv4_reject: "authenticate_sigv4 E ts req auth now = Some (Inl out) \<Longrightarrow> \<not> is_forward out"
  by (erule authenticate_sigv4_cases) (simp_all add: unauth_sigv4_def)

lemma authenticate_reject:
  assumes "authenticate E ts req now = Some (Inl out)" shows "\<not> is_forward out"
  by (rule authenticate_cases [OF assms]) (rule authenticate_sigv4_reject, assumption, rule authenticate_token_reject)

text \<open>Everything that must have happened before a request is forwarded.\<close>

definition mediated ::
  "'h env \<Rightarrow> service list \<Rightarrow> 'h proxy_request \<Rightarrow> policy \<Rightarrow> auth_source \<Rightarrow> u64 \<Rightarrow> control
   \<Rightarrow> service \<Rightarrow> canonical_path \<Rightarrow> action \<Rightarrow> 'h forward_plan \<Rightarrow> bool" where
  "mediated E services req pol source now c svc cp act plan \<longleftrightarrow>
     route services (case extract_host E (q_headers req) of Some h \<Rightarrow> h | None \<Rightarrow> []) = Some svc
     \<and> canonicalize (q_path req) = Some (Inr cp)
     \<and> normalize E svc req (cp_decoded cp) = Some act
     \<and> is_allow (decide act pol)
     \<and> fp_url plan = upstream_url (s_upstream_base svc) (cp_encoded cp) (q_query req)
     \<and> fp_method plan = q_method req \<and> fp_body plan = q_body req
     \<and> injected E svc (req\<lparr> q_path := cp_encoded cp \<rparr>) (sanitize_headers E (q_headers req) source) now c (fp_headers plan)"

lemma handle_authenticated_forward:
  assumes "handle_authenticated E services req pol source now c = Some (Forward plan, c')"
  obtains svc cp act where "mediated E services req pol source now c svc cp act plan"
proof -
  define host where "host = (case extract_host E (q_headers req) of Some h \<Rightarrow> h | None \<Rightarrow> [])"
  note h = assms [unfolded handle_authenticated_def Let_def, folded host_def]
  obtain svc where svc: "route services host = Some svc" using h by (auto split: option.splits)
  obtain cp where cp: "canonicalize (q_path req) = Some (Inr cp)"
  proof -
    obtain z where z: "canonicalize (q_path req) = Some z" using h svc by (auto simp: bind_Some_iff)
    show thesis
    proof (cases z)
      case (Inl e)
      then show ?thesis using h svc z by (cases e) simp
    qed (use z that in simp)
  qed
  obtain act where act: "normalize E svc req (cp_decoded cp) = Some act"
    using h svc cp by (auto simp: bind_Some_iff)
  obtain obs where d: "decide act pol = Allow obs"
    using h svc cp act by (auto split: verdict.splits)
  have "plan_forward E svc act (req\<lparr> q_path := cp_encoded cp \<rparr>) source now c = Some (Forward plan, c')"
    using h svc cp act d by simp
  from plan_forward_cases(2) [OF this refl] svc cp act d show thesis
    by (intro that [of svc cp act]) (auto simp: mediated_def host_def)
qed

lemma handle_authenticated_logged:
  assumes "handle_authenticated E services req pol source now c = Some (out, c')"
  shows "logged now (is_forward out) c c'"
proof -
  define host where "host = (case extract_host E (q_headers req) of Some h \<Rightarrow> h | None \<Rightarrow> [])"
  note h = assms [unfolded handle_authenticated_def Let_def, folded host_def]
  show ?thesis
  proof (cases "route services host")
    case None
    with h show ?thesis by auto
  next
    case (Some svc)
    note svc = this
    obtain r where r: "canonicalize (q_path req) = Some r" using h svc by (auto simp: bind_Some_iff)
    show ?thesis
    proof (cases r)
      case (Inl e)
      then show ?thesis using h svc r by (cases e) auto
    next
      case (Inr cp)
      obtain act where act: "normalize E svc req (cp_decoded cp) = Some act"
        using h svc r Inr by (auto simp: bind_Some_iff)
      show ?thesis
      proof (cases "decide act pol")
        case (Allow obs)
        then show ?thesis using h svc r Inr act plan_forward_cases(1) by auto
      next
        case (Deny reason)
        then show ?thesis using h svc r Inr act by auto
      qed
    qed
  qed
qed

lemma handle_cases:
  assumes "handle E req now g = Some (out, g')"
  shows "(authenticate E (cp_tokens (g_control g)) req now = Some (Inl out) \<and> g' = g)
    \<or> (\<exists>pol source c. authenticate E (cp_tokens (g_control g)) req now = Some (Inr (pol, source))
        \<and> handle_authenticated E (g_router g) req pol source now (g_control g) = Some (out, c)
        \<and> g' = g\<lparr> g_control := c \<rparr>)"
proof -
  obtain a where a: "authenticate E (cp_tokens (g_control g)) req now = Some a"
    using assms by (auto simp: handle_def bind_Some_iff)
  show ?thesis
  proof (cases a)
    case (Inl o1)
    then show ?thesis using assms a by (simp add: handle_def)
  next
    case (Inr ps)
    obtain pol source where "ps = (pol, source)" by (cases ps)
    then show ?thesis using assms a Inr by (auto simp: handle_def bind_Some_iff)
  qed
qed

lemma handle_forward:
  assumes "handle E req now g = Some (Forward plan, g')"
  obtains pol source svc cp act where
    "credential_presented E (cp_tokens (g_control g)) req now pol source"
    "mediated E (g_router g) req pol source now (g_control g) svc cp act plan"
proof -
  consider "authenticate E (cp_tokens (g_control g)) req now = Some (Inl (Forward plan))"
    | pol source c where "authenticate E (cp_tokens (g_control g)) req now = Some (Inr (pol, source))"
      "handle_authenticated E (g_router g) req pol source now (g_control g) = Some (Forward plan, c)"
    using handle_cases [OF assms] by blast
  then show thesis
  proof cases
    case 1
    then show ?thesis using authenticate_reject by fastforce
  next
    case 2
    from handle_authenticated_forward [OF 2(2)] authenticate_credential [OF 2(1)] that show ?thesis by metis
  qed
qed

text \<open>The action carries the routed service's name and the canonical path.\<close>

lemma normalize_shape:
  assumes "normalize E svc req path = Some act"
  shows "a_target act = s_name svc" "r_path (a_resource act) = trim_start_matches (CHR ''/'') path"
  using assms
  by (auto simp: normalize_def Let_def bind_Some_iff with_fields_def action_of_def resource_of_def
      github_resource_def k8s_resource_def generic_resource_def split: flavor.splits)

end
