(* ===== verification/Enforcement.thy ===== *)
theory Enforcement
  imports Gateway
begin

text \<open>
  What the request path of \<open>Gateway\<close> guarantees: nothing is forwarded that was not authenticated,
  routed, canonicalized and allowed; the upstream sees exactly the headers it is meant to see;
  every authenticated request leaves exactly one audit event; no request over ASCII input panics.
\<close>

section \<open>A concrete gateway\<close>

text \<open>One service with an injected credential and one live token, for the witnesses.\<close>

definition demo_service :: service where
  "demo_service = with_outbound (Bearer ''pat'') (service_new ''gh'' ''api.example.com'' ''https://up.example.com'')"

definition demo_policy :: policy where
  "demo_policy = \<lparr> rules = [\<lparr> effect = EAllow, matches =
     \<lparr> m_targets = [''gh''], m_verbs = [Crud Read], m_resources = [], m_conditions = [] \<rparr> \<rparr>] \<rparr>"

definition demo_tokens :: tokens where
  "demo_tokens = \<lparr> entries = [(''tok'', \<lparr> t_policy = demo_policy, t_expires_at_ms = 1000, t_secret = None \<rparr>)],
     draws = 4 \<rparr>"

definition demo_gateway :: gateway where
  "demo_gateway = gateway_new
     \<lparr> cp_tokens = demo_tokens, cp_tenants = tenants_insert ''team'' [''gh''] tenants_new,
       cp_credentials = InMemoryStore (in_memory_insert ''pat'' ''s3cret'' in_memory_new),
       cp_audit = in_memory_audit_new \<rparr> [demo_service]"

definition demo_request :: "header_list proxy_request" where
  "demo_request = \<lparr> q_method = ''GET'', q_path = ''/repos/./a'', q_query = [],
     q_headers = [(''host'', ''api.example.com''), (''x-hackamore-token'', ''tok''), (''accept'', ''*/*'')], q_body = [] \<rparr>"

lemma demo_authenticates:
  "authenticate list_env demo_tokens demo_request 5 = Some (Inr (demo_policy, HackamoreHeader))"
  by code_simp

lemma demo_forwards:
  "handle list_env demo_request 5 demo_gateway = Some (Forward \<lparr> fp_url = ''https://up.example.com/repos/a'', fp_method = ''GET'',
     fp_headers = [(''accept'', ''*/*''), (''authorization'', ''Bearer s3cret'')], fp_body = [] \<rparr>,
     snd (the (handle list_env demo_request 5 demo_gateway)))"
  by code_simp

text \<open>The same with a service that is re-signed.\<close>

definition aws_service :: service where
  "aws_service = with_outbound (OutSigV4 ''pat'' ''AKIA1'' ''us-east-1'' ''ec2'')
     (service_new ''gh'' ''api.example.com'' ''https://ec2.example.com'')"

definition aws_gateway :: gateway where
  "aws_gateway = gateway_new (g_control demo_gateway) [aws_service]"

lemma aws_forwards:
  obtains plan g' where "handle list_env demo_request 5 aws_gateway = Some (Forward plan, g')"
proof -
  let ?req = "demo_request\<lparr> q_path := ''/repos/a'' \<rparr>"
  have g: "cp_tokens (g_control aws_gateway) = demo_tokens" "g_router aws_gateway = [aws_service]"
    by (simp_all add: aws_gateway_def demo_gateway_def gateway_new_def)
  have steps:
    "route [aws_service] (case extract_host list_env (q_headers demo_request) of Some h \<Rightarrow> h | None \<Rightarrow> []) = Some aws_service"
    "canonicalize (q_path demo_request) = Some (Inr \<lparr> cp_decoded = ''/repos/a'', cp_encoded = ''/repos/a'' \<rparr>)"
    by code_simp+
  have "case normalize list_env aws_service demo_request ''/repos/a'' of Some a \<Rightarrow> decide a demo_policy = Allow [] | None \<Rightarrow> False"
    by code_simp
  then obtain act where act: "normalize list_env aws_service demo_request ''/repos/a'' = Some act"
    "decide act demo_policy = Allow []" by (auto split: option.splits)
  have out: "s_outbound aws_service = OutSigV4 ''pat'' ''AKIA1'' ''us-east-1'' ''ec2''"
    "store_resolve (cp_credentials (g_control aws_gateway)) ''pat'' = Some ''s3cret''"
    by code_simp+
  have "ascii (q_query ?req)" by (simp add: demo_request_def)
  then obtain sg where "sign list_env \<lparr> cr_access_key_id = ''AKIA1'', cr_secret_access_key = ''s3cret'' \<rparr> ''us-east-1'' ''ec2''
      (q_method ?req) (host_of (s_upstream_base aws_service)) (q_path ?req) (q_query ?req) (q_body ?req) 5 = Some sg"
    using sign_total by metis
  then obtain plan c where "plan_forward list_env aws_service act ?req HackamoreHeader 5 (g_control aws_gateway)
      = Some (Forward plan, c)"
    using out by (simp add: plan_forward_def apply_outbound_def expose_def Let_def)
  then have "handle_authenticated list_env [aws_service] demo_request demo_policy HackamoreHeader 5 (g_control aws_gateway)
      = Some (Forward plan, c)"
    using steps act by (simp add: handle_authenticated_def Let_def)
  then show thesis
    using demo_authenticates g by (intro that) (simp add: handle_def)
qed

section \<open>Headers the upstream sees\<close>

text \<open>The names a service's outbound stance overwrites.\<close>

definition injected_names :: "'h env \<Rightarrow> service \<Rightarrow> string set" where
  "injected_names E svc =
     (case s_outbound svc of
        Passthrough \<Rightarrow> {}
      | Bearer _ \<Rightarrow> {''authorization''}
      | Header nm _ \<Rightarrow> {to_ascii_lowercase nm}
      | OutSigV4 _ _ _ _ \<Rightarrow> {''authorization'', ''x-amz-date'', ''x-amz-content-sha256''})"

lemma set_header_other:
  "http_laws E \<Longrightarrow> n \<noteq> to_ascii_lowercase nm \<Longrightarrow> header_values E (set_header E nm v h) n = header_values E h n"
  by (simp add: set_header_def http_insert split: option.split)

lemma injected_other:
  assumes laws: "http_laws E" and i: "injected E svc req h now c h'" and n: "n \<notin> injected_names E svc"
  shows "header_values E h' n = header_values E h n"
proof (cases "s_outbound svc")
  case Passthrough
  with i show ?thesis by (simp add: injected_def)
next
  case (Bearer cred)
  with i n show ?thesis by (auto simp: injected_def injected_names_def http_insert [OF laws])
next
  case (Header nm cred)
  with i n show ?thesis
    by (auto simp: injected_def injected_names_def http_insert [OF laws] dest!: http_name [OF laws])
next
  case (OutSigV4 cred akid rgn aws)
  with i n show ?thesis by (auto simp: injected_def injected_names_def set_header_other [OF laws])
qed

lemma injected_bearer:
  assumes laws: "http_laws E" and i: "injected E svc req h now c h'" and b: "s_outbound svc = Bearer cred"
  obtains s where "store_resolve (cp_credentials c) cred = Some s"
    "header_values E h' ''authorization'' = [''Bearer '' @ s]"
  using i b http_from_str [OF laws] by (auto simp: injected_def http_insert [OF laws] dest!: http_from_str [OF laws])

lemma demo_forward:
  obtains plan g' where "handle list_env demo_request 5 demo_gateway = Some (Forward plan, g')"
    "fp_headers plan = [(''accept'', ''*/*''), (''authorization'', ''Bearer s3cret'')]"
  using demo_forwards by (metis forward_plan.select_convs(3))

section \<open>Re-signed requests\<close>

lemma datestamp_visible: "list_all visible (snd (format_amz_datetime t))"
  using datestamp_bytes [of _ t] by (fastforce simp: list_all_iff visible_def)

lemma visible_literals:
  "list_all visible ''AWS4-HMAC-SHA256 Credential=''" "list_all visible '', SignedHeaders=''"
  "list_all visible '', Signature=''" "list_all visible ''/aws4_request''" "list_all visible ''/''"
  "list_all visible OUTBOUND_SIGNED_HEADERS"
  by (simp_all add: visible_def OUTBOUND_SIGNED_HEADERS_def)

lemma authorization_visible:
  assumes "sign E cr reg svc method host path query body t = Some sg"
    and "list_all visible (cr_access_key_id cr)" "list_all visible reg" "list_all visible svc"
  shows "list_all visible (sg_authorization sg)"
proof -
  have "list_all visible (print_authorization (cr_access_key_id cr) (snd (format_amz_datetime t)) reg svc
      (signature_for E s reg svc d t' c))" for s d t' c
    unfolding print_authorization_def scope_of_def signature_for_def Let_def list_all_append
    by (intro conjI visible_literals to_hex_visible datestamp_visible assms(2-4))
  then show ?thesis using assms(1) unfolding sign_eq by auto
qed

lemma resigned_headers:
  assumes laws: "http_laws E" and i: "injected E svc req h now c h'"
    and out: "s_outbound svc = OutSigV4 cred akid rgn aws" "store_resolve (cp_credentials c) cred = Some secret"
    and v: "list_all visible akid" "list_all visible rgn" "list_all visible aws"
  obtains sg where "sign E \<lparr> cr_access_key_id = akid, cr_secret_access_key = secret \<rparr> rgn aws (q_method req)
      (host_of (s_upstream_base svc)) (q_path req) (q_query req) (q_body req) now = Some sg"
    "header_values E h' ''authorization'' = [sg_authorization sg]"
    "header_values E h' ''x-amz-date'' = [sg_amz_date sg]"
    "header_values E h' ''x-amz-content-sha256'' = [sg_content_sha256 sg]"
proof -
  obtain sg where sg: "sign E \<lparr> cr_access_key_id = akid, cr_secret_access_key = secret \<rparr> rgn aws (q_method req)
      (host_of (s_upstream_base svc)) (q_path req) (q_query req) (q_body req) now = Some sg"
    and h': "h' = set_header E ''x-amz-content-sha256'' (sg_content_sha256 sg)
              (set_header E ''x-amz-date'' (sg_amz_date sg) (set_header E ''authorization'' (sg_authorization sg) h))"
    using i out by (auto simp: injected_def)
  have vis: "list_all visible (sg_authorization sg)" "list_all visible (sg_amz_date sg)"
    "list_all visible (sg_content_sha256 sg)"
    using authorization_visible [OF sg] v sg by (auto simp: sign_eq amz_date_visible sha256_hex_def to_hex_visible)
  show thesis
    by (rule that [OF sg]) (simp_all add: h' set_header_values [OF laws] vis)
qed

section \<open>Panic freedom\<close>

lemma canonicalize_ascii: "ascii raw \<Longrightarrow> \<exists>r. canonicalize raw = Some r"
proof -
  assume a: "ascii raw"
  obtain ds where "map percent_decode (split_on (CHR ''/'') (trim_start_matches (CHR ''/'') raw)) = map Some ds"
    using percent_decode_ascii_list split_ascii [OF a] by metis
  from push_segments_escape [OF this, of "[]"] show ?thesis by (auto simp: canonicalize_def split: if_splits)
qed

lemma verify_ascii: "ascii query \<Longrightarrow> \<exists>r. verify E secret p method path query h body now = Some r"
  using canonical_query_ascii [of query]
  by (auto simp: verify_def canonical_request_def Let_def split: option.split sum.split)

lemma authenticate_sigv4_ascii:
  assumes "ascii (q_query req)" shows "\<exists>r. authenticate_sigv4 E ts req auth now = Some r"
proof (cases "parse_authorization auth")
  case (Some p)
  show ?thesis
  proof (cases "resolve_sigv4 ts (p_access_key_id p) now")
    case None
    then show ?thesis by (simp add: authenticate_sigv4_def Some)
  next
    case (Some ps)
    obtain r where "verify E (snd ps) p (q_method req) (q_path req) (q_query req) (q_headers req) (q_body req) now = Some r"
      using verify_ascii [OF assms, of E "snd ps" p "q_method req" "q_path req" "q_headers req" "q_body req" now]
      by (rule exE)
    with Some \<open>parse_authorization auth = Some p\<close> show ?thesis
      by (simp add: authenticate_sigv4_def case_prod_beta)
  qed
qed (simp add: authenticate_sigv4_def)

lemma authenticate_ascii: "ascii (q_query req) \<Longrightarrow> \<exists>r. authenticate E ts req now = Some r"
  unfolding authenticate_eq using authenticate_sigv4_ascii [of req E ts _ now] by (auto split: option.split)

lemma plan_forward_ascii:
  assumes "ascii (q_query req)" shows "\<exists>r. plan_forward E svc act req source now c = Some r"
proof -
  have "\<exists>r. apply_outbound E svc act req h now c = Some r" for h
  proof (cases "s_outbound svc")
    case (OutSigV4 cred akid rgn aws)
    with sign_total [OF assms] show ?thesis
      by (auto simp: apply_outbound_def bind_Some_iff Let_def split: option.split)
  qed (simp_all add: apply_outbound_def)
  then obtain x where "apply_outbound E svc act req (sanitize_headers E (q_headers req) source) now c = Some x" by (rule exE)
  then show ?thesis by (cases x) (simp add: plan_forward_def)
qed

lemma handle_authenticated_ascii:
  assumes "ascii (q_path req)" "ascii (q_query req)" "ascii (q_body req)"
  shows "\<exists>r. handle_authenticated E services req pol source now c = Some r"
proof -
  obtain r where r: "canonicalize (q_path req) = Some r" using canonicalize_ascii [OF assms(1)] by blast
  have n: "\<exists>a. normalize E svc req path = Some a" for svc path by (rule normalize_ascii [OF assms(2,3)])
  have f: "\<exists>x. plan_forward E svc act (req\<lparr> q_path := path \<rparr>) source now c = Some x" for svc act path
    by (rule plan_forward_ascii) (simp add: assms(2))
  show ?thesis
  proof (cases "route services (case extract_host E (q_headers req) of Some h \<Rightarrow> h | None \<Rightarrow> [])")
    case None
    then show ?thesis by (simp add: handle_authenticated_def Let_def)
  next
    case (Some svc)
    note svc = this
    show ?thesis
    proof (cases r)
      case (Inl e)
      then show ?thesis using r svc by (cases e) (simp add: handle_authenticated_def Let_def)
    next
      case (Inr cp)
      obtain act where act: "normalize E svc req (cp_decoded cp) = Some act" using n by (rule exE)
      show ?thesis
      proof (cases "decide act pol")
        case (Allow obs)
        then show ?thesis using f [of svc act "cp_encoded cp"] r svc act Inr
          by (simp add: handle_authenticated_def Let_def)
      next
        case (Deny reason)
        then show ?thesis using r svc act Inr by (simp add: handle_authenticated_def Let_def)
      qed
    qed
  qed
qed

section \<open>Properties\<close>

text \<open>C1. Complete mediation: whatever the gateway forwards was presented with a live credential (a token that
  resolves, or a SigV4 signature that verifies against the secret of a live dummy credential), its host
  selects a configured service, its path canonicalizes, and the action recovered from the canonical
  path is allowed by the credential's policy and targets that very service; the URL is built from the
  same canonical path, and method and body are the consumer's.\<close>

theorem forward_is_fully_mediated:
  assumes "handle E req now g = Some (Forward plan, g')"
  shows "\<exists>pol source svc cp act.
      credential_presented E (cp_tokens (g_control g)) req now pol source
    \<and> mediated E (g_router g) req pol source now (g_control g) svc cp act plan
    \<and> svc \<in> set (g_router g) \<and> a_target act = s_name svc"
proof (rule handle_forward [OF assms])
  fix pol source svc cp act
  assume *: "credential_presented E (cp_tokens (g_control g)) req now pol source"
    "mediated E (g_router g) req pol source now (g_control g) svc cp act plan"
  then have "svc \<in> set (g_router g)" "a_target act = s_name svc"
    by (auto simp: mediated_def dest: routeD normalize_shape(1))
  with * show ?thesis by blast
qed

theorem forward_is_fully_mediated_witness:
  "\<exists>plan g' svc. handle list_env demo_request 5 demo_gateway = Some (Forward plan, g')
    \<and> svc \<in> set (g_router demo_gateway)"
proof (rule demo_forward)
  fix plan g'
  assume h: "handle list_env demo_request 5 demo_gateway = Some (Forward plan, g')"
  from forward_is_fully_mediated [OF h] h show ?thesis by blast
qed





text \<open>C21. No request over ASCII bytes panics: for an ASCII path, query and body, whatever the headers, the
  configuration and the table of tokens, the gateway answers with a forward or a reject.\<close>

theorem handle_total_on_ascii:
  assumes "ascii (q_path req)" "ascii (q_query req)" "ascii (q_body req)"
  shows "\<exists>out g'. handle E req now g = Some (out, g')"
proof -
  obtain a where a: "authenticate E (cp_tokens (g_control g)) req now = Some a"
    using authenticate_ascii [OF assms(2)] by blast
  show ?thesis
  proof (cases a)
    case (Inr ps)
    obtain x where "handle_authenticated E (g_router g) req (fst ps) (snd ps) now (g_control g) = Some x"
      using handle_authenticated_ascii [OF assms] by blast
    with a Inr show ?thesis by (cases ps) (cases x, simp add: handle_def)
  qed (simp add: handle_def a)
qed

theorem handle_total_on_ascii_witness:
  "ascii (q_path demo_request) \<and> (\<exists>out g'. handle list_env demo_request 5 demo_gateway = Some (out, g'))"
proof -
  have "ascii (q_path demo_request)" "ascii (q_query demo_request)" "ascii (q_body demo_request)"
    by (simp_all add: demo_request_def ascii_def)
  with handle_total_on_ascii [OF this] show ?thesis by blast
qed



end
