(* ===== verification/Minting.thy ===== *)
theory Minting
  imports Enforcement
begin

text \<open>
  What \<^verbatim>\<open>mint_checked\<close> and \<^verbatim>\<open>provision\<close> guarantee: the validation loops decide a declarative
  specification of the policies a tenant may hold, a failed mint changes nothing, a tenant's token never
  reaches a service the tenant does not own, and a provision document lists exactly the granted services,
  with credentials that stand for the same policy.
\<close>

section \<open>The specification of a mint\<close>

text \<open>A tenant's allow rules name targets, all of them its own.\<close>

definition tenant_policy_ok :: "string set \<Rightarrow> policy \<Rightarrow> bool" where
  "tenant_policy_ok owned pol \<longleftrightarrow>
     (\<forall>r\<in>set (rules pol). effect r = EAllow \<longrightarrow> m_targets (matches r) \<noteq> [] \<and> set (m_targets (matches r)) \<subseteq> owned)"

text \<open>
  A named action of an allow rule must be known: to the catalog of every named target that has a
  non-empty one, or, when the rule names no target, to one of the non-empty catalogs, if there is any.
\<close>

definition action_known :: "(string, catalog) assoc \<Rightarrow> string list \<Rightarrow> string \<Rightarrow> bool" where
  "action_known cats targets named \<longleftrightarrow>
     (if targets = [] then (\<forall>c\<in>snd ` set cats. c = {}) \<or> (\<exists>c\<in>snd ` set cats. named \<in> c)
      else \<forall>t\<in>set targets. \<forall>c. map_of cats t = Some c \<longrightarrow> c = {} \<or> named \<in> c)"

definition catalog_policy_ok :: "(string, catalog) assoc \<Rightarrow> policy \<Rightarrow> bool" where
  "catalog_policy_ok cats pol \<longleftrightarrow>
     (\<forall>r\<in>set (rules pol). effect r = EAllow \<longrightarrow>
        (\<forall>named. NamedAction named \<in> set (m_verbs (matches r)) \<longrightarrow>
           action_known cats (m_targets (matches r)) named))"

lemma tenant_targets_None: "tenant_targets owned ts = None \<longleftrightarrow> set ts \<subseteq> owned"
  by (induction ts) auto

lemma tenant_rules_None:
  "tenant_rules owned rs = None \<longleftrightarrow>
     (\<forall>r\<in>set rs. effect r = EAllow \<longrightarrow> m_targets (matches r) \<noteq> [] \<and> set (m_targets (matches r)) \<subseteq> owned)"
  unfolding tenant_targets_None [symmetric] by (induction rs) (auto split: option.split)

lemma validate_tenant_policy_None: "validate_tenant_policy pol owned = None \<longleftrightarrow> tenant_policy_ok owned pol"
  by (simp add: validate_tenant_policy_def tenant_policy_ok_def tenant_rules_None)

lemma catalog_targets_None:
  "catalog_targets cats named ts = None \<longleftrightarrow>
     (\<forall>t\<in>set ts. \<forall>c. map_of cats t = Some c \<longrightarrow> c = {} \<or> named \<in> c)"
  by (induction ts) (auto simp: catalog_is_empty_def catalog_knows_def split: option.split)

lemma catalog_verbs_None:
  "catalog_verbs cats targets vs = None \<longleftrightarrow>
     (\<forall>named. NamedAction named \<in> set vs \<longrightarrow> action_known cats targets named)"
proof (induction cats targets vs rule: catalog_verbs.induct)
  case (3 cats targets named vs)
  have one: "(\<forall>a. NamedAction a \<in> set (NamedAction named # vs) \<longrightarrow> action_known cats targets a) \<longleftrightarrow>
      action_known cats targets named \<and> (\<forall>a. NamedAction a \<in> set vs \<longrightarrow> action_known cats targets a)"
    by auto
  show ?case
  proof (cases "targets = []")
    case True
    have "action_known cats [] named \<longleftrightarrow>
        \<not> (filter (\<lambda>c. \<not> catalog_is_empty c) (map snd cats) \<noteq> []
           \<and> \<not> list_ex (\<lambda>c. catalog_knows c named) (filter (\<lambda>c. \<not> catalog_is_empty c) (map snd cats)))"
      by (auto simp: action_known_def filter_empty_conv list_ex_iff catalog_is_empty_def catalog_knows_def)
    with True 3(1) [OF refl True] show ?thesis unfolding one by (simp add: Let_def)
  next
    case False
    have "action_known cats targets named \<longleftrightarrow> catalog_targets cats named targets = None"
      using False by (simp add: action_known_def catalog_targets_None)
    with False 3(2) [OF refl False] show ?thesis unfolding one by (simp add: Let_def split: option.split)
  qed
qed auto

lemma validate_catalog_None: "validate_catalog g pol = None \<longleftrightarrow> catalog_policy_ok (g_catalogs g) pol"
proof -
  have "catalog_rules cats rs = None \<longleftrightarrow>
     (\<forall>r\<in>set rs. effect r = EAllow \<longrightarrow> catalog_verbs cats (m_targets (matches r)) (m_verbs (matches r)) = None)"
    for cats rs by (induction rs) (auto split: option.split)
  then show ?thesis by (simp add: validate_catalog_def catalog_policy_ok_def catalog_verbs_None)
qed

lemma check_tenant_None:
  "check_tenant g pol tenant = None \<longleftrightarrow> tenants_is_empty (cp_tenants (g_control g))
     \<or> (\<exists>key owned. tenant = Some key \<and> tenants_owned (cp_tenants (g_control g)) key = Some owned
          \<and> tenant_policy_ok owned pol)"
  by (auto simp: check_tenant_def validate_tenant_policy_None split: option.split)

lemma mint_checked_cases:
  "mint_checked E pol ttl tenant now g =
     (if check_tenant g pol tenant = None \<and> validate_catalog g pol = None
      then (Inr (fst (gateway_mint E pol ttl now g)), snd (gateway_mint E pol ttl now g))
      else (Inl (case check_tenant g pol tenant of Some e \<Rightarrow> e | None \<Rightarrow> the (validate_catalog g pol)), g))"
  by (auto simp: mint_checked_def split: option.split prod.split)

lemma mint_checked_Inr:
  assumes "mint_checked E pol ttl tenant now g = (Inr r, g')"
  shows "check_tenant g pol tenant = None" "validate_catalog g pol = None" "gateway_mint E pol ttl now g = (r, g')"
  using assms unfolding mint_checked_cases by (auto split: if_splits)

lemma gateway_mint_tokens:
  assumes "gateway_mint E pol ttl now g = (r, g')"
  obtains ts where "tokens_mint E pol ttl now (cp_tokens (g_control g)) = (r, ts)"
    "g' = g\<lparr> g_control := (g_control g)\<lparr> cp_tokens := ts \<rparr> \<rparr>"
  using assms by (auto simp: gateway_mint_def split: prod.splits)

text \<open>A rule that lets an owner-checked policy allow an action names the action's target.\<close>

lemma tenant_policy_allows_owned:
  assumes "tenant_policy_ok owned pol" "is_allow (decide act pol)"
  shows "a_target act \<in> owned"
proof -
  obtain r where r: "r \<in> set (rules pol)" "rule_matches r act" "effect r = EAllow"
    using decide_allow_exists [OF assms(2)] by blast
  with assms(1) have "m_targets (matches r) \<noteq> []" "set (m_targets (matches r)) \<subseteq> owned"
    by (auto simp: tenant_policy_ok_def)
  with rule_matches_target [OF r(2)] show ?thesis by (auto simp: target_matches_named)
qed

section \<open>Provisioning\<close>

definition grants :: "policy \<Rightarrow> string \<Rightarrow> bool" where
  "grants pol nm \<longleftrightarrow>
     (\<exists>r\<in>set (rules pol). effect r = EAllow \<and> (m_targets (matches r) = [] \<or> nm \<in> set (m_targets (matches r))))"

lemma granted_targets_spec:
  "granted_targets rs a ns = (a', ns') \<Longrightarrow>
     a' \<or> nm \<in> ns' \<longleftrightarrow> a \<or> nm \<in> ns
       \<or> (\<exists>r\<in>set rs. effect r = EAllow \<and> (m_targets (matches r) = [] \<or> nm \<in> set (m_targets (matches r))))"
  by (induction rs a ns rule: granted_targets.induct) (auto split: if_splits)

text \<open>The entry of a dummy credential.\<close>

definition dummy_entry :: "policy \<Rightarrow> u64 \<Rightarrow> token_entry option \<Rightarrow> bool" where
  "dummy_entry pol expt x \<longleftrightarrow>
     (\<exists>secret. x = Some \<lparr> t_policy = pol, t_expires_at_ms = expt, t_secret = Some secret \<rparr>)"

definition auth_ok :: "string \<Rightarrow> policy \<Rightarrow> u64 \<Rightarrow> tokens \<Rightarrow> provision_auth \<Rightarrow> bool" where
  "auth_ok token pol expt ts auth \<longleftrightarrow>
     (case auth of BearerAuth t \<Rightarrow> t = token
      | SigV4Auth a \<Rightarrow> dummy_entry pol expt (map_of (entries ts) (sa_access_key_id a)))"

text \<open>What a provisioning step does to the table: it only writes dummy entries.\<close>

definition only_dummies :: "policy \<Rightarrow> u64 \<Rightarrow> tokens \<Rightarrow> tokens \<Rightarrow> bool" where
  "only_dummies pol expt ts ts' \<longleftrightarrow> tokens_inv ts' \<and>
     (\<forall>k. map_of (entries ts') k = map_of (entries ts) k \<or> dummy_entry pol expt (map_of (entries ts') k))"

lemma only_dummies_trans:
  "only_dummies pol expt ts ts' \<Longrightarrow> only_dummies pol expt ts' ts'' \<Longrightarrow> only_dummies pol expt ts ts''"
  unfolding only_dummies_def by metis

lemma auth_ok_mono: "auth_ok token pol expt ts auth \<Longrightarrow> only_dummies pol expt ts ts' \<Longrightarrow> auth_ok token pol expt ts' auth"
  by (cases auth) (auto simp: auth_ok_def only_dummies_def, metis)

lemma mint_service_auth_step:
  assumes "tokens_inv ts" "mint_service_auth E svc token pol now ttl ts = ((mode, auth), ts')"
  shows "only_dummies pol (expiry ttl now) ts ts'" "auth_ok token pol (expiry ttl now) ts' auth"
proof -
  have "only_dummies pol (expiry ttl now) ts ts' \<and> auth_ok token pol (expiry ttl now) ts' auth"
  proof (cases "s_outbound svc")
    case (OutSigV4 cred akid rgn aws)
    obtain d ts1 where m: "mint_sigv4 E pol ttl now ts = (d, ts1)" by fastforce
    from assms(2) OutSigV4 m show ?thesis
      using mint_sigv4_live [OF assms(1) m]
      by (auto simp: mint_service_auth_def only_dummies_def auth_ok_def dummy_entry_def)
  qed (use assms in \<open>auto simp: mint_service_auth_def only_dummies_def auth_ok_def\<close>)
  then show "only_dummies pol (expiry ttl now) ts ts'" "auth_ok token pol (expiry ttl now) ts' auth" by auto
qed

lemma provision_loop_spec:
  assumes "tokens_inv ts" "provision_loop E any_target named token pol now ttl ss ts = (out, ts')"
  shows "map ps_target out = map s_name (filter (\<lambda>s. any_target \<or> s_name s \<in> named) ss)
    \<and> only_dummies pol (expiry ttl now) ts ts'
    \<and> list_all (\<lambda>ps. auth_ok token pol (expiry ttl now) ts' (ps_auth ps)) out"
  using assms
proof (induction ss arbitrary: ts ts' out)
  case (Cons s ss)
  show ?case
  proof (cases "any_target \<or> s_name s \<in> named")
    case False
    with Cons show ?thesis by simp
  next
    case True
    obtain mode auth ts1 where m: "mint_service_auth E s token pol now ttl ts = ((mode, auth), ts1)"
      by (metis prod.exhaust)
    obtain out2 ts2 where l: "provision_loop E any_target named token pol now ttl ss ts1 = (out2, ts2)"
      by (metis prod.exhaust)
    note step = mint_service_auth_step [OF Cons.prems(1) m]
    have "tokens_inv ts1" using step(1) by (simp add: only_dummies_def)
    from Cons.IH [OF this l] have IH: "map ps_target out2 = map s_name (filter (\<lambda>s. any_target \<or> s_name s \<in> named) ss)"
      "only_dummies pol (expiry ttl now) ts1 ts2"
      "list_all (\<lambda>ps. auth_ok token pol (expiry ttl now) ts2 (ps_auth ps)) out2" by auto
    have eq: "ts' = ts2" "out = \<lparr> ps_target = s_name s, ps_flavor = flavor_name (s_flavor s),
        ps_address = s_address s, ps_mode = mode, ps_auth = auth \<rparr> # out2"
      using Cons.prems(2) True m l by (simp_all split: if_splits)
    show ?thesis
      using IH(1,3) True only_dummies_trans [OF step(1) IH(2)] auth_ok_mono [OF step(2) IH(2)]
      unfolding eq by simp
  qed
qed (simp add: only_dummies_def)

text \<open>
  The seconds given to a dummy are the remaining whole seconds, at least one: it expires with the token, or
  less than a second later than now when less than a second was left.
\<close>

lemma dummy_expiry_bound:
  assumes "now < e"
  shows "unat (expiry (max (sat_sub e now div 1000) 1) now) \<le> max (unat e) (unat now + 1000)"
proof -
  have n: "unat now < unat e" using assms by (simp add: word_less_nat_alt)
  have d: "unat (sat_sub e now div 1000) = (unat e - unat now) div 1000"
    using n by (simp add: unat_sat_sub unat_div)
  have "unat (max (sat_sub e now div 1000) 1) = max ((unat e - unat now) div 1000) 1"
    unfolding d [symmetric] max_def word_le_nat_alt by simp
  moreover have "(unat e - unat now) div 1000 * 1000 \<le> unat e - unat now" by simp
  ultimately show ?thesis using n unfolding expiry_bounds by (auto simp: max_def min_def)
qed

lemma provision_cases:
  assumes "provision E token now g = (Some doc, g')"
  obtains pol e svcs ts where "resolve_full (cp_tokens (g_control g)) token now = Some (pol, e)"
    "provisionable_services E (g_router g) token pol now e (cp_tokens (g_control g)) = (svcs, ts)"
    "doc = \<lparr> pd_token = token, pd_ca = g_ca g, pd_expires_at_ms = e, pd_services = svcs \<rparr>"
    "g' = g\<lparr> g_control := (g_control g)\<lparr> cp_tokens := ts \<rparr> \<rparr>"
  using assms by (auto simp: provision_def split: option.splits prod.splits)

lemma provisionable_services_spec:
  assumes "tokens_inv ts" "provisionable_services E services token pol now e ts = (out, ts')"
  shows "map ps_target out = map s_name (filter (\<lambda>s. grants pol (s_name s)) services)
    \<and> only_dummies pol (expiry (max (sat_sub e now div 1000) 1) now) ts ts'
    \<and> list_all (\<lambda>ps. auth_ok token pol (expiry (max (sat_sub e now div 1000) 1) now) ts' (ps_auth ps)) out"
proof -
  obtain a ns where gt: "granted_targets (rules pol) False {} = (a, ns)" by fastforce
  have "(a \<or> nm \<in> ns) = grants pol nm" for nm
    using granted_targets_spec [OF gt, of nm] by (simp add: grants_def)
  with provision_loop_spec [OF assms(1), of E a ns token pol now "max (sat_sub e now div 1000) 1" services out ts']
    assms(2) gt show ?thesis by (simp add: provisionable_services_def)
qed

section \<open>Properties\<close>

text \<open>C16. A mint is accepted exactly when the declarative specification holds: with tenants configured, the
  request carries a known tenant key and every allow rule names only targets the tenant owns; and every
  named action of an allow rule is known to the catalogs. A rejected mint leaves the gateway as it was,
  an accepted one is the plain mint.\<close>

theorem mint_checked_decides_spec:
  "((\<exists>r. fst (mint_checked E pol ttl tenant now g) = Inr r) \<longleftrightarrow>
      (tenants_is_empty (cp_tenants (g_control g))
        \<or> (\<exists>key owned. tenant = Some key \<and> tenants_owned (cp_tenants (g_control g)) key = Some owned
             \<and> tenant_policy_ok owned pol))
      \<and> catalog_policy_ok (g_catalogs g) pol)
   \<and> ((\<exists>e. mint_checked E pol ttl tenant now g = (Inl e, g))
      \<or> mint_checked E pol ttl tenant now g
          = (Inr (fst (gateway_mint E pol ttl now g)), snd (gateway_mint E pol ttl now g)))"
  unfolding check_tenant_None [symmetric] validate_catalog_None [symmetric] mint_checked_cases by simp

text \<open>Tenant isolation, end to end: on a gateway with tenants, whatever a request is forwarded to under a
  policy that a tenant key was able to mint is a service that the tenant owns.\<close>

theorem tenant_isolation:
  assumes "\<not> tenants_is_empty (cp_tenants (g_control g))"
    and "mint_checked E pol ttl (Some key) now g = (Inr r, g1)"
    and "authenticate E (cp_tokens (g_control g2)) req t = Some (Inr (pol, source))"
    and "handle E req t g2 = Some (Forward plan, g3)"
  shows "\<exists>owned svc path. tenants_owned (cp_tenants (g_control g)) key = Some owned
    \<and> svc \<in> set (g_router g2) \<and> s_name svc \<in> owned
    \<and> fp_url plan = upstream_url (s_upstream_base svc) path (q_query req)"
proof -
  obtain owned where owned: "tenants_owned (cp_tenants (g_control g)) key = Some owned" "tenant_policy_ok owned pol"
    using mint_checked_Inr(1) [OF assms(2)] assms(1) by (auto simp: check_tenant_None)
  obtain c where "handle_authenticated E (g_router g2) req pol source t (g_control g2) = Some (Forward plan, c)"
    using handle_cases [OF assms(4)] assms(3) by auto
  then obtain svc cp act where m: "mediated E (g_router g2) req pol source t (g_control g2) svc cp act plan"
    by (rule handle_authenticated_forward)
  then have "s_name svc \<in> owned" "svc \<in> set (g_router g2)"
    "fp_url plan = upstream_url (s_upstream_base svc) (cp_encoded cp) (q_query req)"
    using tenant_policy_allows_owned [OF owned(2), of act]
    by (auto simp: mediated_def dest: routeD normalize_shape(1))
  with owned(1) show ?thesis by blast
qed

theorem tenant_isolation_witness:
  "\<exists>r g1 plan g3. mint_checked list_env demo_policy 60 (Some ''team'') 0 demo_gateway = (Inr r, g1)
    \<and> handle list_env demo_request 5 demo_gateway = Some (Forward plan, g3)
    \<and> (\<exists>svc \<in> set (g_router demo_gateway). s_name svc = ''gh'')"
proof (rule demo_forward)
  fix plan g3
  assume h: "handle list_env demo_request 5 demo_gateway = Some (Forward plan, g3)"
  have "check_tenant demo_gateway demo_policy (Some ''team'') = None" "validate_catalog demo_gateway demo_policy = None"
    by code_simp+
  then obtain r g1 where m: "mint_checked list_env demo_policy 60 (Some ''team'') 0 demo_gateway = (Inr r, g1)"
    unfolding mint_checked_cases by auto
  have t: "\<not> tenants_is_empty (cp_tenants (g_control demo_gateway))"
    "tenants_owned (cp_tenants (g_control demo_gateway)) ''team'' = Some {''gh''}" by code_simp+
  have a: "authenticate list_env (cp_tokens (g_control demo_gateway)) demo_request 5 = Some (Inr (demo_policy, HackamoreHeader))"
    using demo_authenticates by (simp add: demo_gateway_def gateway_new_def)
  from tenant_isolation [OF t(1) m a h] t(2) m h show ?thesis by auto
qed

text \<open>The life of a minted token, as requests see it: presented on its own, it authenticates its policy
  exactly before its expiry and is answered 401 from then on; once revoked it is answered 401 at every
  clock reading, and the revocation says that it removed something.\<close>

theorem minted_token_lifecycle:
  assumes "tokens_inv (cp_tokens (g_control g))" "mint_checked E pol ttl tenant now g = (Inr r, g1)"
    and "extract_auth E (q_headers req) = Some (mr_token r, source)"
    and "\<nexists>auth. header_value E (q_headers req) ''authorization'' = Some auth \<and> starts_with ''AWS4-HMAC-SHA256'' auth"
  shows "authenticate E (cp_tokens (g_control g1)) req t =
      Some (if t < mr_expires_at_ms r then Inr (pol, source)
            else Inl (reject 401 Unauthenticated ''unknown or expired hackamore token''))
    \<and> fst (gateway_revoke (mr_token r) g1)
    \<and> handle E req t (snd (gateway_revoke (mr_token r) g1)) =
      Some (reject 401 Unauthenticated ''unknown or expired hackamore token'', snd (gateway_revoke (mr_token r) g1))"
proof -
  obtain ts where m: "tokens_mint E pol ttl now (cp_tokens (g_control g)) = (r, ts)"
    and g1: "g1 = g\<lparr> g_control := (g_control g)\<lparr> cp_tokens := ts \<rparr> \<rparr>"
    using gateway_mint_tokens [OF mint_checked_Inr(3) [OF assms(2)]] by blast
  note live = mint_live [OF assms(1) m]
  obtain b ts' where rv: "revoke (mr_token r) ts = (b, ts')" by fastforce
  note dead = revoke_live [OF live(1) rv]
  have auth: "authenticate E ts0 req t = Some (authenticate_token E ts0 req t)" for ts0
    using assms(4) unfolding authenticate_eq by (simp split: option.split)
  have "authenticate_token E ts req t = (if t < mr_expires_at_ms r then Inr (pol, source)
      else Inl (reject 401 Unauthenticated ''unknown or expired hackamore token''))"
    using live by (simp add: authenticate_token_def assms(3) live_iffs live_def)
  moreover have "authenticate_token E ts' req t = Inl (reject 401 Unauthenticated ''unknown or expired hackamore token'')"
    using dead by (simp add: authenticate_token_def assms(3) live_iffs live_def)
  moreover have b using dead(2) live by simp
  ultimately show ?thesis by (simp add: auth g1 gateway_revoke_def rv handle_def)
qed

theorem minted_token_lifecycle_witness:
  "\<exists>r g1. mint_checked list_env demo_policy 60 (Some ''team'') 0 demo_gateway = (Inr r, g1)
    \<and> authenticate list_env (cp_tokens (g_control g1))
        (demo_request\<lparr> q_headers := [(''x-hackamore-token'', mr_token r)] \<rparr>) 59999 = Some (Inr (demo_policy, HackamoreHeader))"
proof -
  have "check_tenant demo_gateway demo_policy (Some ''team'') = None" "validate_catalog demo_gateway demo_policy = None"
    by code_simp+
  then obtain r g1 where m: "mint_checked list_env demo_policy 60 (Some ''team'') 0 demo_gateway = (Inr r, g1)"
    unfolding mint_checked_cases by auto
  have i: "tokens_inv (cp_tokens (g_control demo_gateway))"
    by (simp add: demo_gateway_def gateway_new_def demo_tokens_def tokens_inv_def hm_inv_def)
  have d: "draws (cp_tokens (g_control demo_gateway)) = 4"
    by (simp add: demo_gateway_def gateway_new_def demo_tokens_def)
  obtain ts where "tokens_mint list_env demo_policy 60 0 (cp_tokens (g_control demo_gateway)) = (r, ts)"
    using gateway_mint_tokens [OF mint_checked_Inr(3) [OF m]] by blast
  note r = mint_live(2,3) [OF i this, unfolded d]
  have key: "mint_key list_env 4 = ''0000000000000000000000000000000400000000000000000000000000000005''"
    by (simp add: mint_key_def list_env_def pad0_def dec.simps [of 4] dec.simps [of 5]) code_simp
  have x: "expiry 60 0 = 60000" by (simp add: expiry_def sat_add_def sat_mul_def)
  let ?h = "[(''x-hackamore-token'', mr_token r)] :: header_list"
  have e: "extract_auth list_env (q_headers (demo_request\<lparr> q_headers := ?h \<rparr>)) = Some (mr_token r, HackamoreHeader)"
    unfolding r(1) key by code_simp
  have n: "\<nexists>auth. header_value list_env (q_headers (demo_request\<lparr> q_headers := ?h \<rparr>)) ''authorization'' = Some auth
      \<and> starts_with ''AWS4-HMAC-SHA256'' auth"
    by (simp add: header_value_def list_env_def to_ascii_lowercase_def to_lower_def)
  from minted_token_lifecycle [OF i m e n, of 59999] m r(2) x show ?thesis by auto
qed

text \<open>C17. A provision document is about a token that resolves, and lists exactly the configured services its
  policy grants, in their order; every credential in it is either the token itself or a dummy whose
  entry stands for the same policy and expires with the token or within the second after the call; the
  table of tokens gains nothing else. The document is the same whatever the vault holds, so it discloses
  no upstream secret.\<close>

theorem provision_discloses_granted_services:
  assumes "tokens_inv (cp_tokens (g_control g))" "provision E token now g = (Some doc, g')"
  shows "\<exists>pol expt. resolve (cp_tokens (g_control g)) token now = Some pol
    \<and> pd_token doc = token \<and> pd_ca doc = g_ca g
    \<and> map ps_target (pd_services doc) = map s_name (filter (\<lambda>s. grants pol (s_name s)) (g_router g))
    \<and> list_all (\<lambda>ps. auth_ok token pol expt (cp_tokens (g_control g')) (ps_auth ps)) (pd_services doc)
    \<and> only_dummies pol expt (cp_tokens (g_control g)) (cp_tokens (g_control g'))
    \<and> unat expt \<le> max (unat (pd_expires_at_ms doc)) (unat now + 1000)
    \<and> g' = g\<lparr> g_control := (g_control g)\<lparr> cp_tokens := cp_tokens (g_control g') \<rparr> \<rparr>
    \<and> fst (provision E token now (g\<lparr> g_control := (g_control g)\<lparr> cp_credentials := vault \<rparr> \<rparr>)) = Some doc"
proof (rule provision_cases [OF assms(2)])
  fix pol e svcs ts
  assume r: "resolve_full (cp_tokens (g_control g)) token now = Some (pol, e)"
    and p: "provisionable_services E (g_router g) token pol now e (cp_tokens (g_control g)) = (svcs, ts)"
    and doc: "doc = \<lparr> pd_token = token, pd_ca = g_ca g, pd_expires_at_ms = e, pd_services = svcs \<rparr>"
    and g': "g' = g\<lparr> g_control := (g_control g)\<lparr> cp_tokens := ts \<rparr> \<rparr>"
  have "now < e" using r by (auto simp: resolve_full_live live_def split: option.splits if_splits)
  note bound = dummy_expiry_bound [OF this]
  have "resolve (cp_tokens (g_control g)) token now = Some pol" using r by (simp add: resolve_def)
  moreover have "fst (provision E token now (g\<lparr> g_control := (g_control g)\<lparr> cp_credentials := vault \<rparr> \<rparr>)) = Some doc"
    using r p by (simp add: provision_def doc)
  ultimately show ?thesis using provisionable_services_spec [OF assms(1) p] bound
    by (intro exI [of _ pol] exI [of _ "expiry (max (sat_sub e now div 1000) 1) now"]) (simp add: doc g')
qed

theorem provision_discloses_granted_services_witness:
  "\<exists>doc g'. provision list_env ''tok'' 5 aws_gateway = (Some doc, g')
    \<and> map ps_target (pd_services doc) = [''gh''] \<and> unat (pd_expires_at_ms doc) = 1000"
proof -
  have r: "resolve_full (cp_tokens (g_control aws_gateway)) ''tok'' 5 = Some (demo_policy, 1000)" by code_simp
  then obtain doc g' where p: "provision list_env ''tok'' 5 aws_gateway = (Some doc, g')" "pd_expires_at_ms doc = 1000"
    by (cases "provisionable_services list_env (g_router aws_gateway) ''tok'' demo_policy 5 1000 (cp_tokens (g_control aws_gateway))")
      (simp add: provision_def)
  have i: "tokens_inv (cp_tokens (g_control aws_gateway))"
    by (simp add: aws_gateway_def demo_gateway_def gateway_new_def demo_tokens_def tokens_inv_def hm_inv_def)
  have "map s_name (filter (\<lambda>s. grants demo_policy (s_name s)) (g_router aws_gateway)) = [''gh'']" by code_simp
  with provision_discloses_granted_services [OF i p(1)] r p show ?thesis by (auto simp: resolve_def)
qed

end
