(* ===== verification/Upgrade.thy ===== *)
theory Upgrade
  imports Enforcement
begin

text \<open>
  \<^verbatim>\<open>gateway/src/upgrade.rs\<close>: the relay of an HTTP upgrade. The sockets are parameters: \<open>dial\<close> opens the
  connection, \<open>exchange\<close> sends the request and returns the upstream's answer; what is modelled is what
  the relay decides: where it connects, what it sends, and what it answers to the client.
\<close>

section \<open>Definitions\<close>

definition UPGRADE_HEADERS :: "string list" where
  "UPGRADE_HEADERS = [''connection'', ''upgrade'', ''sec-websocket-key'', ''sec-websocket-version'',
     ''sec-websocket-protocol'', ''sec-websocket-extensions'']"

definition is_upgrade :: "'h env \<Rightarrow> 'h \<Rightarrow> bool" where
  "is_upgrade E headers \<longleftrightarrow>
     (case Option.bind (headers_get E headers ''connection'') (value_to_str E) of
        None \<Rightarrow> False
      | Some v \<Rightarrow> list_ex (\<lambda>t. eq_ignore_ascii_case (trim t) ''upgrade'') (split_on (CHR '','') v))
     \<and> headers_get E headers ''upgrade'' \<noteq> None"

definition carry_upgrade_headers :: "'h env \<Rightarrow> 'h \<Rightarrow> 'h \<Rightarrow> 'h" where
  "carry_upgrade_headers E original plan =
     fold (\<lambda>nm plan.
         case headers_get E original nm of
           None \<Rightarrow> plan
         | Some v \<Rightarrow>
             (case name_from_bytes E nm of Some hn \<Rightarrow> headers_insert E plan hn v | None \<Rightarrow> plan))
       UPGRADE_HEADERS plan"

record upstream_target =
  ut_tls :: bool
  ut_host :: string
  ut_port :: nat
  ut_path_and_query :: string

definition default_port :: "bool \<Rightarrow> nat" where
  "default_port tls = (if tls then 443 else 80)"

text \<open>Host and port of an authority; a port that is not a 16-bit number makes the parse fail.\<close>

definition split_authority :: "bool \<Rightarrow> string \<Rightarrow> (string \<times> nat) option" where
  "split_authority tls authority =
     (case rsplit_once (CHR '':'') authority of
        Some (h, p) \<Rightarrow> map_option (\<lambda>n. (h, n)) (parse_unsigned 16 p)
      | None \<Rightarrow> Some (authority, default_port tls))"

definition target_parse :: "string \<Rightarrow> upstream_target option" where
  "target_parse url = do {
     (scheme, rest) \<leftarrow> split_once_str ''://'' url;
     tls \<leftarrow> (if scheme = ''https'' then Some True else if scheme = ''http'' then Some False else None);
     let (authority, path) = (case split_once (CHR ''/'') rest of
         Some (a, p) \<Rightarrow> (a, CHR ''/'' # p) | None \<Rightarrow> (rest, ''/''));
     (host, port) \<leftarrow> split_authority tls authority;
     Some \<lparr> ut_tls = tls, ut_host = host, ut_port = port,
       ut_path_and_query = (if path = [] then ''/'' else path) \<rparr>
   }"

definition target_authority :: "upstream_target \<Rightarrow> string" where
  "target_authority t =
     (if ut_port t = default_port (ut_tls t) then ut_host t
      else ut_host t @ '':'' @ dec (ut_port t))"

text \<open>
  The request builder of the \<^verbatim>\<open>http\<close> crate appends every header and keeps the URI as text; \<open>uri_ok\<close> is
  its check of the URI. The body is empty.
\<close>

record 'h upstream_request =
  ur_method :: string
  ur_uri :: string
  ur_headers :: "'h"

definition build_request ::
  "'h env \<Rightarrow> (string \<Rightarrow> bool) \<Rightarrow> 'h forward_plan \<Rightarrow> upstream_target \<Rightarrow> string + 'h upstream_request" where
  "build_request E uri_ok plan target =
     (let hs = fold (\<lambda>(n, v) out. headers_append E out n v) (headers_iter E (fp_headers plan)) (headers_new E);
          hs = headers_append E hs ''host'' (target_authority target)
      in if uri_ok (ut_path_and_query target)
         then Inr \<lparr> ur_method = fp_method plan, ur_uri = ut_path_and_query target, ur_headers = hs \<rparr>
         else Inl ''invalid uri'')"

datatype 'h relay =
    BadGateway string
  | Relayed nat 'h bytes
  | Switched nat 'h

text \<open>
  \<open>Switched\<close> is the answer after which the two connections are spliced; a status other than 101 is
  relayed with the upstream's headers and body.
\<close>

definition tunnel ::
  "'h env \<Rightarrow> (string \<Rightarrow> bool) \<Rightarrow> (upstream_target \<Rightarrow> string + unit)
   \<Rightarrow> ('h upstream_request \<Rightarrow> string + nat \<times> 'h \<times> bytes) \<Rightarrow> 'h forward_plan \<Rightarrow> 'h relay" where
  "tunnel E uri_ok dial exchange plan =
     (case target_parse (fp_url plan) of
        None \<Rightarrow> BadGateway ''invalid upstream url for upgrade''
      | Some target \<Rightarrow>
          (case dial target of
             Inl e \<Rightarrow> BadGateway (''upstream connect failed: '' @ e)
           | Inr _ \<Rightarrow>
               (case build_request E uri_ok plan target of
                  Inl e \<Rightarrow> BadGateway e
                | Inr req \<Rightarrow>
                    (case exchange req of
                       Inl e \<Rightarrow> BadGateway (''upstream upgrade request failed: '' @ e)
                     | Inr (status, headers, body) \<Rightarrow>
                         if status \<noteq> 101 then Relayed status headers body else Switched status headers))))"

section \<open>Headers\<close>

lemma carry_fold_values:
  assumes laws: "http_laws E" and ns: "list_all (\<lambda>nm. to_ascii_lowercase nm = nm \<and> name_from_bytes E nm = Some nm) ns"
  shows "header_values E (fold (\<lambda>nm plan.
         case headers_get E original nm of
           None \<Rightarrow> plan
         | Some v \<Rightarrow>
             (case name_from_bytes E nm of Some hn \<Rightarrow> headers_insert E plan hn v | None \<Rightarrow> plan)) ns plan) n
    = (if n \<in> set ns \<and> header_values E original n \<noteq> [] then [hd (header_values E original n)]
       else header_values E plan n)"
  using ns
proof (induction ns arbitrary: plan)
  case (Cons m ns)
  then have m: "to_ascii_lowercase m = m" "name_from_bytes E m = Some m" and ns: "list_all (\<lambda>nm. to_ascii_lowercase nm = nm \<and> name_from_bytes E nm = Some nm) ns"
    by simp_all
  show ?case
  proof (cases "header_values E original m")
    case Nil
    with Cons.IH [OF ns] m show ?thesis by (auto simp: http_get [OF laws])
  next
    case (Cons v vs)
    with Cons.IH [OF ns] m show ?thesis by (auto simp: http_get [OF laws] http_insert [OF laws])
  qed
qed simp

lemma upgrade_headers_lower: "list_all (\<lambda>nm. to_ascii_lowercase nm = nm) UPGRADE_HEADERS"
  by code_simp

section \<open>Where the relay connects\<close>

text \<open>The shape of a configured upstream base: a scheme, an authority and an optional path prefix.\<close>

definition base_of :: "bool \<Rightarrow> string \<Rightarrow> string \<Rightarrow> string" where
  "base_of tls authority pre = (if tls then ''https'' else ''http'') @ ''://'' @ authority @ pre"

definition base_ok :: "string \<Rightarrow> string \<Rightarrow> bool" where
  "base_ok authority pre \<longleftrightarrow> authority \<noteq> [] \<and> CHR ''/'' \<notin> set authority \<and> (pre = [] \<or> hd pre = CHR ''/'')"

lemma split_scheme:
  "split_once_str ''://'' ((if tls then ''https'' else ''http'') @ ''://'' @ r) = Some (if tls then ''https'' else ''http'', r)"
  by (simp add: split_once_str_def starts_with_def)

lemma trim_end_append:
  assumes "xs \<noteq> []" "last xs \<noteq> d"
  shows "trim_end_matches d (xs @ ys) = xs @ trim_end_matches d ys"
proof -
  have "dropWhile ((=) d) (rev ys @ rev xs) = dropWhile ((=) d) (rev ys) @ rev xs"
    using assms by (cases "rev xs") (auto simp: dropWhile_append rev_swap)
  then show ?thesis by (simp add: trim_end_matches_def)
qed

lemma trim_end_hd:
  "trim_end_matches d pre = [] \<or> trim_end_matches d pre \<noteq> [] \<and> hd (trim_end_matches d pre) = hd pre"
proof (cases "trim_end_matches d pre = []")
  case False
  have "rev (dropWhile ((=) d) (rev pre)) @ rev (takeWhile ((=) d) (rev pre)) = pre"
    by (metis rev_append rev_rev_ident takeWhile_dropWhile_id)
  then have "trim_end_matches d pre @ rev (takeWhile ((=) d) (rev pre)) = pre"
    by (simp add: trim_end_matches_def)
  then have "hd pre = hd (trim_end_matches d pre)" using False by (metis hd_append2)
  then show ?thesis using False by simp
qed simp

lemma split_once_not_in: "d \<notin> set a \<Longrightarrow> split_once d (a @ d # r) = Some (a, r)"
  by (induction a) auto

text \<open>Path and query follow the authority, so they cannot move the connection elsewhere.\<close>

lemma target_parse_upstream_url:
  assumes ok: "base_ok authority pre" and path: "path = CHR ''/'' # p"
  shows "target_parse (upstream_url (base_of tls authority pre) path query) =
    map_option (\<lambda>(h, n). \<lparr> ut_tls = tls, ut_host = h, ut_port = n,
        ut_path_and_query = trim_end_matches (CHR ''/'') pre @ path @ (if query = [] then [] else CHR ''?'' # query) \<rparr>)
      (split_authority tls authority)"
proof -
  let ?scheme = "if tls then ''https'' else ''http''"
  let ?pq = "trim_end_matches (CHR ''/'') pre @ path @ (if query = [] then [] else CHR ''?'' # query)"
  have a: "authority \<noteq> []" "CHR ''/'' \<notin> set authority" and pre: "pre = [] \<or> hd pre = CHR ''/''"
    using ok by (auto simp: base_ok_def)
  have "last authority \<noteq> CHR ''/''" using last_in_set [OF a(1)] a(2) by auto
  moreover have "last (xs @ ys @ authority) = last authority" for xs ys :: string using a(1) by simp
  ultimately have "last (?scheme @ ''://'' @ authority) \<noteq> CHR ''/''" by (simp only: not_False_eq_True)
  from trim_end_append [OF _ this, of pre]
  have "trim_end_matches (CHR ''/'') (base_of tls authority pre) = ?scheme @ ''://'' @ authority @ trim_end_matches (CHR ''/'') pre"
    by (simp add: base_of_def)
  then have url: "upstream_url (base_of tls authority pre) path query = ?scheme @ ''://'' @ authority @ ?pq"
    by (simp add: upstream_url_def)
  obtain t where t: "?pq = CHR ''/'' # t"
  proof (cases "trim_end_matches (CHR ''/'') pre")
    case Nil
    then show ?thesis using path that by simp
  next
    case (Cons c cs)
    then have "pre \<noteq> []" by (auto simp: trim_end_matches_def)
    then have "c = CHR ''/''" using trim_end_hd [of "CHR ''/''" pre] pre Cons by simp
    with Cons that show ?thesis by simp
  qed
  have scheme: "(if ?scheme = ''https'' then Some True else if ?scheme = ''http'' then Some False else None) = Some tls"
    by simp
  show ?thesis
    unfolding url target_parse_def split_scheme t
    using scheme by (cases "split_authority tls authority") (auto simp: split_once_not_in [OF a(2)])
qed

definition good_base :: "service \<Rightarrow> bool" where
  "good_base svc \<longleftrightarrow> (\<exists>tls authority pre. s_upstream_base svc = base_of tls authority pre \<and> base_ok authority pre)"

definition configured_endpoint :: "service \<Rightarrow> upstream_target \<Rightarrow> bool" where
  "configured_endpoint svc t \<longleftrightarrow>
     (\<exists>authority pre. s_upstream_base svc = base_of (ut_tls t) authority pre
        \<and> split_authority (ut_tls t) authority = Some (ut_host t, ut_port t))"

section \<open>Properties\<close>

text \<open>The tunnel cannot be steered: for services configured with a well-formed base URL, the relay of an
  upgrade that the gateway forwards connects to the scheme, host and port of the routed service's base.\<close>

lemma forward_endpoint:
  assumes "list_all good_base (g_router g)" "handle E req now g = Some (Forward plan, g')"
    and "target_parse (fp_url plan) = Some t"
  shows "\<exists>svc. route (g_router g) (case extract_host E (q_headers req) of Some h \<Rightarrow> h | None \<Rightarrow> []) = Some svc
    \<and> configured_endpoint svc t"
proof (rule handle_forward [OF assms(2)])
  fix pol source svc cp act
  assume "mediated E (g_router g) req pol source now (g_control g) svc cp act plan"
  then have r: "route (g_router g) (case extract_host E (q_headers req) of Some h \<Rightarrow> h | None \<Rightarrow> []) = Some svc"
    and c: "canonicalize (q_path req) = Some (Inr cp)"
    and u: "fp_url plan = upstream_url (s_upstream_base svc) (cp_encoded cp) (q_query req)"
    by (simp_all add: mediated_def)
  obtain p where p: "cp_encoded cp = CHR ''/'' # p"
    using canonicalize_Inr [OF c] by (metis path_of_stack_def append_Cons append_Nil canonical_path.select_convs(2))
  obtain tls authority pre where b: "s_upstream_base svc = base_of tls authority pre" "base_ok authority pre"
    using assms(1) routeD [OF r] by (auto simp: list_all_iff good_base_def)
  have "ut_tls t = tls" "split_authority tls authority = Some (ut_host t, ut_port t)"
    using assms(3) unfolding u b(1) target_parse_upstream_url [OF b(2) p]
    by (auto simp: map_option_Some_iff)
  with r b(1) show ?thesis by (auto simp: configured_endpoint_def)
qed

text \<open>The headers of the replayed request: the upgrade headers are the client's own first values, every
  other header is exactly the one of the forward plan, the injected credential among them, and the host
  is the authority the relay connected to.\<close>

theorem upgrade_request_headers:
  assumes "http_laws E" "list_all (\<lambda>nm. name_from_bytes E nm = Some nm) UPGRADE_HEADERS"
    and "build_request E uri_ok (plan\<lparr> fp_headers := carry_upgrade_headers E original (fp_headers plan) \<rparr>) t = Inr rq"
  shows "header_values E (ur_headers rq) n =
      (if n \<in> set UPGRADE_HEADERS \<and> header_values E original n \<noteq> [] then [hd (header_values E original n)]
       else header_values E (fp_headers plan) n)
      @ (if n = ''host'' then [target_authority t] else [])"
proof -
  let ?h = "carry_upgrade_headers E original (fp_headers plan)"
  have ns: "list_all (\<lambda>nm. to_ascii_lowercase nm = nm \<and> name_from_bytes E nm = Some nm) UPGRADE_HEADERS"
    using assms(2) upgrade_headers_lower by (auto simp: list_all_iff)
  have rq: "ur_headers rq = headers_append E (fold (\<lambda>(n, v) out. headers_append E out n v) (headers_iter E ?h) (headers_new E))
      ''host'' (target_authority t)"
    using assms(3) by (auto simp: build_request_def Let_def split: if_splits)
  note carried = carry_fold_values [OF assms(1) ns, of original "fp_headers plan" n, folded carry_upgrade_headers_def]
  show ?thesis
    unfolding rq http_append [OF assms(1)] header_names_lower copied_all_values [OF assms(1)] carried by simp
qed

theorem upgrade_request_headers_witness:
  "\<exists>rq. build_request list_env (\<lambda>_. True) (\<lparr> fp_url = ''https://k'', fp_method = ''GET'',
        fp_headers = carry_upgrade_headers list_env [(''connection'', ''Upgrade''), (''x'', ''y'')] [(''authorization'', ''real'')], fp_body = [] \<rparr>)
      \<lparr> ut_tls = True, ut_host = ''k'', ut_port = 443, ut_path_and_query = ''/'' \<rparr> = Inr rq
    \<and> header_values list_env (ur_headers rq) ''authorization'' = [''real'']
    \<and> header_values list_env (ur_headers rq) ''connection'' = [''Upgrade'']
    \<and> header_values list_env (ur_headers rq) ''x'' = []"
proof -
  let ?plan = "\<lparr> fp_url = ''https://k'', fp_method = ''GET'', fp_headers = [(''authorization'', ''real'')], fp_body = [] \<rparr>"
  let ?o = "[(''connection'', ''Upgrade''), (''x'', ''y'')]"
  let ?t = "\<lparr> ut_tls = True, ut_host = ''k'', ut_port = 443, ut_path_and_query = ''/'' \<rparr>"
  have n: "list_all (\<lambda>nm. name_from_bytes list_env nm = Some nm) UPGRADE_HEADERS" by code_simp
  obtain rq where rq: "build_request list_env (\<lambda>_. True)
      (?plan\<lparr> fp_headers := carry_upgrade_headers list_env ?o (fp_headers ?plan) \<rparr>) ?t = Inr rq"
    by (simp add: build_request_def Let_def)
  have v: "header_values list_env ?o ''connection'' = [''Upgrade'']" "header_values list_env ?o ''authorization'' = []"
    "header_values list_env [(''authorization'', ''real'')] ''authorization'' = [''real'']"
    "header_values list_env [(''authorization'', ''real'')] ''x'' = []"
    by code_simp+
  have m: "''connection'' \<in> set UPGRADE_HEADERS" "''x'' \<notin> set UPGRADE_HEADERS" by code_simp+
  note h = upgrade_request_headers [OF http_laws_list_env n rq]
  from h [of "''authorization''"] h [of "''connection''"] h [of "''x''"] rq v m show ?thesis by auto
qed

end
