(* ===== verification/Server.thy ===== *)
theory Server
  imports Minting Upgrade
begin

text \<open>
  \<^verbatim>\<open>gateway/src/server.rs\<close>: the two routers and their handlers over the gateway's state. The routing of
  axum (an exact path, \<^verbatim>\<open>405\<close> for another method on it, \<^verbatim>\<open>get\<close> also answering \<^verbatim>\<open>HEAD\<close> without a body) is
  written out; the extractor of JSON bodies, the outbound HTTP client and the relay's sockets are
  parameters. A response body is the structure that serde prints.
\<close>

section \<open>Requests and responses\<close>

definition MAX_BODY :: nat where
  "MAX_BODY = 25 * 1024 * 1024"

text \<open>
  \<open>rq_body\<close> is \<open>None\<close> when reading it fails; \<open>rq_on_upgrade\<close> says whether the connection can be upgraded.
\<close>

record 'h http_request =
  rq_method :: string
  rq_path :: string
  rq_query :: "string option"
  rq_headers :: "'h"
  rq_body :: "bytes option"
  rq_on_upgrade :: bool

datatype 'h payload =
    ErrorBody string
  | RejectionBody string string
  | MintBody mint_response
  | RevokeBody bool
  | ProvisionBody provision_doc
  | Streamed 'h bytes
  | Switching 'h
  | PlainText string
  | NoBody

record 'h response =
  rs_status :: nat
  rs_payload :: "'h payload"

definition error_response :: "nat \<Rightarrow> string \<Rightarrow> 'h response" where
  "error_response status message = \<lparr> rs_status = status, rs_payload = ErrorBody message \<rparr>"

definition rejection_response :: "rejection \<Rightarrow> 'h response" where
  "rejection_response rj = \<lparr> rs_status = rj_status rj,
     rs_payload = RejectionBody (rj_message rj) (debug_reason (rj_reason rj)) \<rparr>"

definition is_dropped_response_header :: "string \<Rightarrow> bool" where
  "is_dropped_response_header nm =
     (to_ascii_lowercase nm \<in> set [''connection'', ''keep-alive'', ''transfer-encoding'', ''content-length'', ''te'',
        ''trailers'', ''upgrade''])"

definition filter_response_headers :: "'h env \<Rightarrow> 'h \<Rightarrow> 'h" where
  "filter_response_headers E headers =
     fold (\<lambda>(n, v) out. if is_dropped_response_header n then out else headers_append E out n v)
       (headers_iter E headers) (headers_new E)"

section \<open>The proxy\<close>

text \<open>What a request makes the proxy do: answer it, send a plan upstream, or tunnel a plan.\<close>

datatype 'h proxy_step =
    Answer "'h response"
  | Send "'h forward_plan"
  | TunnelPlan "'h forward_plan"

definition body_within :: "bytes option \<Rightarrow> bytes option" where
  "body_within body =
     (case body of None \<Rightarrow> None | Some b \<Rightarrow> if length b \<le> MAX_BODY then Some b else None)"

definition proxy_decide ::
  "'h env \<Rightarrow> 'h http_request \<Rightarrow> u64 \<Rightarrow> gateway \<Rightarrow> ('h proxy_step \<times> gateway) option" where
  "proxy_decide E request now g =
     (let upgrade = is_upgrade E (rq_headers request);
          on_upgrade = upgrade \<and> rq_on_upgrade request
      in case body_within (rq_body request) of
          None \<Rightarrow> Some (Answer (error_response 413 ''request body too large''), g)
        | Some body \<Rightarrow> do {
            (out, g') \<leftarrow> handle E \<lparr> q_method = rq_method request, q_path = rq_path request,
              q_query = (case rq_query request of Some q \<Rightarrow> q | None \<Rightarrow> []),
              q_headers = rq_headers request, q_body = body \<rparr> now g;
            Some (case out of
                Reject rj \<Rightarrow> Answer (rejection_response rj)
              | Forward plan \<Rightarrow>
                  if on_upgrade
                  then TunnelPlan (plan\<lparr> fp_headers := carry_upgrade_headers E (rq_headers request) (fp_headers plan) \<rparr>)
                  else Send plan, g')
          })"

definition forward :: "'h env \<Rightarrow> ('h forward_plan \<Rightarrow> string + nat \<times> 'h \<times> bytes) \<Rightarrow> 'h forward_plan \<Rightarrow> 'h response" where
  "forward E client plan =
     (case client plan of
        Inl e \<Rightarrow> error_response 502 (''upstream error: '' @ e)
      | Inr (status, headers, body) \<Rightarrow>
          \<lparr> rs_status = status, rs_payload = Streamed (filter_response_headers E headers) body \<rparr>)"

definition relay_response :: "'h relay \<Rightarrow> 'h response" where
  "relay_response r =
     (case r of
        BadGateway m \<Rightarrow> \<lparr> rs_status = 502, rs_payload = PlainText m \<rparr>
      | Relayed status headers body \<Rightarrow> \<lparr> rs_status = status, rs_payload = Streamed headers body \<rparr>
      | Switched status headers \<Rightarrow> \<lparr> rs_status = status, rs_payload = Switching headers \<rparr>)"

definition proxy_handler ::
  "'h env \<Rightarrow> ('h forward_plan \<Rightarrow> string + nat \<times> 'h \<times> bytes) \<Rightarrow> ('h forward_plan \<Rightarrow> 'h relay)
   \<Rightarrow> 'h http_request \<Rightarrow> u64 \<Rightarrow> gateway \<Rightarrow> ('h response \<times> gateway) option" where
  "proxy_handler E client relay request now g = do {
     (step, g') \<leftarrow> proxy_decide E request now g;
     Some (case step of
         Answer r \<Rightarrow> r
       | Send plan \<Rightarrow> forward E client plan
       | TunnelPlan plan \<Rightarrow> relay_response (relay plan), g')
   }"

section \<open>Provisioning, minting and revoking over HTTP\<close>

definition provision_handler :: "'h env \<Rightarrow> 'h \<Rightarrow> u64 \<Rightarrow> gateway \<Rightarrow> 'h response \<times> gateway" where
  "provision_handler E headers now g =
     (case token_from_headers E headers of
        None \<Rightarrow> (error_response 401 ''missing hackamore token'', g)
      | Some token \<Rightarrow>
          (case provision E token now g of
             (Some doc, g') \<Rightarrow> (\<lparr> rs_status = 200, rs_payload = ProvisionBody doc \<rparr>, g')
           | (None, g') \<Rightarrow> (error_response 401 ''unknown or expired hackamore token'', g')))"

definition tenant_header :: "'h env \<Rightarrow> 'h \<Rightarrow> string option" where
  "tenant_header E headers =
     (case map_option trim (Option.bind (headers_get E headers ''x-hackamore-tenant'') (value_to_str E)) of
        Some t \<Rightarrow> if t \<noteq> [] then Some t else None
      | None \<Rightarrow> None)"

definition mint_handler :: "'h env \<Rightarrow> 'h \<Rightarrow> policy \<Rightarrow> u64 \<Rightarrow> u64 \<Rightarrow> gateway \<Rightarrow> 'h response \<times> gateway" where
  "mint_handler E headers pol ttl_seconds now g =
     (case mint_checked E pol ttl_seconds (tenant_header E headers) now g of
        (Inr r, g') \<Rightarrow> (\<lparr> rs_status = 200, rs_payload = MintBody r \<rparr>, g')
      | (Inl e, g') \<Rightarrow> (error_response 403 (mint_error_display e), g'))"

definition revoke_handler :: "string \<Rightarrow> gateway \<Rightarrow> 'h response \<times> gateway" where
  "revoke_handler token g =
     (let (revoked, g') = gateway_revoke token g in (\<lparr> rs_status = 200, rs_payload = RevokeBody revoked \<rparr>, g'))"

section \<open>Routers\<close>

definition PROVISION_PATH :: string where
  "PROVISION_PATH = ''/.hackamore/provision''"

definition no_body :: "'h response \<Rightarrow> 'h response" where
  "no_body r = r\<lparr> rs_payload := NoBody \<rparr>"

definition status_only :: "nat \<Rightarrow> 'h response" where
  "status_only status = \<lparr> rs_status = status, rs_payload = NoBody \<rparr>"

definition proxy_router ::
  "'h env \<Rightarrow> ('h forward_plan \<Rightarrow> string + nat \<times> 'h \<times> bytes) \<Rightarrow> ('h forward_plan \<Rightarrow> 'h relay)
   \<Rightarrow> 'h http_request \<Rightarrow> u64 \<Rightarrow> gateway \<Rightarrow> ('h response \<times> gateway) option" where
  "proxy_router E client relay request now g =
     (if rq_path request = PROVISION_PATH then
        (let (r, g') = provision_handler E (rq_headers request) now g in
         if rq_method request = ''GET'' then Some (r, g')
         else if rq_method request = ''HEAD'' then Some (no_body r, g')
         else Some (status_only 405, g))
      else proxy_handler E client relay request now g)"

text \<open>The JSON extractors are parameters: a rejection's status, or the parsed request.\<close>

definition admin_router ::
  "'h env \<Rightarrow> ('h http_request \<Rightarrow> nat + policy \<times> u64) \<Rightarrow> ('h http_request \<Rightarrow> nat + string)
   \<Rightarrow> 'h http_request \<Rightarrow> u64 \<Rightarrow> gateway \<Rightarrow> 'h response \<times> gateway" where
  "admin_router E json_mint json_revoke request now g =
     (if rq_path request = ''/mint'' then
        if rq_method request \<noteq> ''POST'' then (status_only 405, g)
        else (case json_mint request of
            Inl status \<Rightarrow> (status_only status, g)
          | Inr (pol, ttl) \<Rightarrow> mint_handler E (rq_headers request) pol ttl now g)
      else if rq_path request = ''/revoke'' then
        if rq_method request \<noteq> ''POST'' then (status_only 405, g)
        else (case json_revoke request of
            Inl status \<Rightarrow> (status_only status, g)
          | Inr token \<Rightarrow> revoke_handler token g)
      else (status_only 404, g))"

section \<open>Effects of the handlers\<close>

text \<open>What no handler changes.\<close>

definition config_same :: "gateway \<Rightarrow> gateway \<Rightarrow> bool" where
  "config_same g g' \<longleftrightarrow> g_router g' = g_router g \<and> g_catalogs g' = g_catalogs g \<and> g_ca g' = g_ca g
     \<and> cp_tenants (g_control g') = cp_tenants (g_control g) \<and> cp_credentials (g_control g') = cp_credentials (g_control g)"

definition log_extends :: "gateway \<Rightarrow> gateway \<Rightarrow> bool" where
  "log_extends g g' \<longleftrightarrow> (\<exists>evs. events_of (cp_audit (g_control g')) = events_of (cp_audit (g_control g)) @ evs)"

definition policy_checked :: "gateway \<Rightarrow> policy \<Rightarrow> bool" where
  "policy_checked g pol \<longleftrightarrow>
     (tenants_is_empty (cp_tenants (g_control g))
        \<or> (\<exists>key owned. tenants_owned (cp_tenants (g_control g)) key = Some owned \<and> tenant_policy_ok owned pol))
     \<and> catalog_policy_ok (g_catalogs g) pol"

definition server_inv :: "gateway \<Rightarrow> bool" where
  "server_inv g \<longleftrightarrow> tokens_inv (cp_tokens (g_control g))
     \<and> (\<forall>k e. map_of (entries (cp_tokens (g_control g))) k = Some e \<longrightarrow> policy_checked g (t_policy e))"

text \<open>A step is admissible when it keeps the configuration, extends the log and keeps the invariant.\<close>

definition admissible :: "gateway \<Rightarrow> gateway \<Rightarrow> bool" where
  "admissible g g' \<longleftrightarrow> config_same g g' \<and> log_extends g g' \<and> (server_inv g \<longrightarrow> server_inv g')"

lemma admissible_refl [simp]: "admissible g g"
  by (simp add: admissible_def config_same_def log_extends_def)

lemma admissible_trans: "admissible g g' \<Longrightarrow> admissible g' g'' \<Longrightarrow> admissible g g''"
  by (auto simp: admissible_def config_same_def log_extends_def)

lemma admissible_tokens:
  assumes "tokens_inv (cp_tokens (g_control g)) \<Longrightarrow> tokens_inv ts"
    and "\<And>k e. server_inv g \<Longrightarrow> map_of (entries ts) k = Some e \<Longrightarrow> policy_checked g (t_policy e)"
  shows "admissible g (g\<lparr> g_control := (g_control g)\<lparr> cp_tokens := ts \<rparr> \<rparr>)"
proof -
  let ?g = "g\<lparr> g_control := (g_control g)\<lparr> cp_tokens := ts \<rparr> \<rparr>"
  have "policy_checked ?g pol = policy_checked g pol" for pol by (simp add: policy_checked_def)
  with assms show ?thesis by (auto simp: admissible_def config_same_def log_extends_def server_inv_def)
qed

lemma handle_effect:
  assumes "handle E req now g = Some (out, g')"
  shows "admissible g g'" "cp_tokens (g_control g') = cp_tokens (g_control g)"
proof -
  consider "g' = g" | c where "logged now (is_forward out) (g_control g) c" "g' = g\<lparr> g_control := c \<rparr>"
    using handle_cases [OF assms] handle_authenticated_logged by blast
  then have "admissible g g' \<and> cp_tokens (g_control g') = cp_tokens (g_control g)"
  proof cases
    case 2
    then show ?thesis
      by (auto simp: logged_def admissible_def config_same_def log_extends_def server_inv_def policy_checked_def)
  qed simp
  then show "admissible g g'" "cp_tokens (g_control g') = cp_tokens (g_control g)" by auto
qed

lemma proxy_decide_cases:
  assumes "proxy_decide E request now g = Some (step, g')"
  obtains (too_large) "body_within (rq_body request) = None" "g' = g" "step = Answer (error_response 413 ''request body too large'')"
    | (handled) body out where "body_within (rq_body request) = Some body"
      "handle E \<lparr> q_method = rq_method request, q_path = rq_path request,
         q_query = (case rq_query request of Some q \<Rightarrow> q | None \<Rightarrow> []),
         q_headers = rq_headers request, q_body = body \<rparr> now g = Some (out, g')"
      "case step of Answer r \<Rightarrow> (\<exists>rj. out = Reject rj \<and> r = rejection_response rj)
        | Send plan \<Rightarrow> out = Forward plan
        | TunnelPlan plan' \<Rightarrow> (\<exists>plan. out = Forward plan \<and> is_upgrade E (rq_headers request)
            \<and> plan' = plan\<lparr> fp_headers := carry_upgrade_headers E (rq_headers request) (fp_headers plan) \<rparr>)"
proof (cases "body_within (rq_body request)")
  case None
  with assms show thesis by (intro too_large) (simp_all add: proxy_decide_def)
next
  case (Some body)
  with assms obtain out where "handle E \<lparr> q_method = rq_method request, q_path = rq_path request,
         q_query = (case rq_query request of Some q \<Rightarrow> q | None \<Rightarrow> []),
         q_headers = rq_headers request, q_body = body \<rparr> now g = Some (out, g')"
    "step = (case out of
                Reject rj \<Rightarrow> Answer (rejection_response rj)
              | Forward plan \<Rightarrow>
                  if is_upgrade E (rq_headers request) \<and> rq_on_upgrade request
                  then TunnelPlan (plan\<lparr> fp_headers := carry_upgrade_headers E (rq_headers request) (fp_headers plan) \<rparr>)
                  else Send plan)"
    by (auto simp: proxy_decide_def Let_def bind_Some_iff)
  then show thesis by (intro handled [OF Some]) (auto split: outcome.splits)
qed

lemma proxy_handler_effect:
  assumes "proxy_handler E client relay request now g = Some (r, g')"
  shows "admissible g g'" "cp_tokens (g_control g') = cp_tokens (g_control g)"
proof -
  obtain step where "proxy_decide E request now g = Some (step, g')"
    using assms by (auto simp: proxy_handler_def bind_Some_iff)
  then have "admissible g g' \<and> cp_tokens (g_control g') = cp_tokens (g_control g)"
    by (cases rule: proxy_decide_cases) (auto dest: handle_effect)
  then show "admissible g g'" "cp_tokens (g_control g') = cp_tokens (g_control g)" by auto
qed

text \<open>Provisioning writes only dummy credentials, for the policy of a token that resolves.\<close>

lemma provision_effect:
  assumes "tokens_inv (cp_tokens (g_control g))" "provision E token now g = (d, g')"
  shows "g' = g \<or> (\<exists>pol expt ts. resolve (cp_tokens (g_control g)) token now = Some pol
    \<and> g' = g\<lparr> g_control := (g_control g)\<lparr> cp_tokens := ts \<rparr> \<rparr> \<and> only_dummies pol expt (cp_tokens (g_control g)) ts)"
proof (cases d)
  case None
  then show ?thesis using assms(2) by (auto simp: provision_def split: option.splits prod.splits)
next
  case (Some doc)
  then obtain pol e svcs ts where "resolve_full (cp_tokens (g_control g)) token now = Some (pol, e)"
    and p: "provisionable_services E (g_router g) token pol now e (cp_tokens (g_control g)) = (svcs, ts)"
    and g': "g' = g\<lparr> g_control := (g_control g)\<lparr> cp_tokens := ts \<rparr> \<rparr>"
    using provision_cases assms(2) by metis
  then have "resolve (cp_tokens (g_control g)) token now = Some pol" by (simp add: resolve_def)
  then show ?thesis using provisionable_services_spec [OF assms(1) p] g' by blast
qed

lemma only_dummies_admissible:
  assumes "resolve (cp_tokens (g_control g)) token now = Some pol" "only_dummies pol expt (cp_tokens (g_control g)) ts"
  shows "admissible g (g\<lparr> g_control := (g_control g)\<lparr> cp_tokens := ts \<rparr> \<rparr>)"
proof (rule admissible_tokens)
  show "tokens_inv ts" using assms(2) by (simp add: only_dummies_def)
next
  fix k e
  assume inv: "server_inv g" and e: "map_of (entries ts) k = Some e"
  have pol: "policy_checked g pol"
    using assms(1) inv by (auto simp: resolve_live live_def server_inv_def split: option.splits if_splits)
  from assms(2) have "map_of (entries ts) k = map_of (entries (cp_tokens (g_control g))) k
      \<or> dummy_entry pol expt (map_of (entries ts) k)" by (simp add: only_dummies_def)
  then show "policy_checked g (t_policy e)"
    using inv e pol by (auto simp: server_inv_def dummy_entry_def)
qed

lemma mint_effect:
  assumes "mint_checked E pol ttl tenant now g = (r, g')"
  shows "admissible g g'"
proof (cases r)
  case (Inl e)
  then show ?thesis using assms unfolding mint_checked_cases by (auto split: if_splits)
next
  case (Inr m)
  note ok = mint_checked_Inr [OF assms [unfolded Inr]]
  obtain ts where m: "tokens_mint E pol ttl now (cp_tokens (g_control g)) = (m, ts)"
    and g': "g' = g\<lparr> g_control := (g_control g)\<lparr> cp_tokens := ts \<rparr> \<rparr>"
    by (rule gateway_mint_tokens [OF ok(3)])
  have pol: "policy_checked g pol"
    using ok(1,2) by (auto simp: policy_checked_def check_tenant_None validate_catalog_None)
  show ?thesis
    unfolding g'
  proof (rule admissible_tokens)
    show "tokens_inv ts" if "tokens_inv (cp_tokens (g_control g))" using mint_live(1) [OF that m] .
  next
    fix k e
    assume inv: "server_inv g" and e: "map_of (entries ts) k = Some e"
    then have "tokens_inv (cp_tokens (g_control g))" by (simp add: server_inv_def)
    from mint_live(4) [OF this m] e inv pol show "policy_checked g (t_policy e)"
      by (auto simp: server_inv_def split: if_splits)
  qed
qed

lemma revoke_effect: "admissible g (snd (gateway_revoke token g))"
proof -
  obtain b ts where r: "revoke token (cp_tokens (g_control g)) = (b, ts)" by fastforce
  have "admissible g (g\<lparr> g_control := (g_control g)\<lparr> cp_tokens := ts \<rparr> \<rparr>)"
    by (rule admissible_tokens)
      (auto simp: server_inv_def revoke_live [OF _ r] split: if_splits)
  then show ?thesis by (simp add: gateway_revoke_def r)
qed

lemma sweep_effect: "admissible g (snd (sweep_expired now g))"
proof -
  obtain n ts where w: "sweep now (cp_tokens (g_control g)) = (n, ts)" by fastforce
  have "admissible g (g\<lparr> g_control := (g_control g)\<lparr> cp_tokens := ts \<rparr> \<rparr>)"
    by (rule admissible_tokens)
      (auto simp: server_inv_def sweep_live [OF _ w] live_def split: option.splits if_splits)
  then show ?thesis by (simp add: sweep_expired_def w)
qed

lemma provision_handler_effect:
  assumes "tokens_inv (cp_tokens (g_control g))" "provision_handler E headers now g = (r, g')"
  shows "g' = g \<or> (\<exists>token pol expt ts. resolve (cp_tokens (g_control g)) token now = Some pol
    \<and> g' = g\<lparr> g_control := (g_control g)\<lparr> cp_tokens := ts \<rparr> \<rparr> \<and> only_dummies pol expt (cp_tokens (g_control g)) ts)"
proof (cases "token_from_headers E headers")
  case None
  then show ?thesis using assms(2) by (simp add: provision_handler_def)
next
  case (Some token)
  obtain d g1 where "provision E token now g = (d, g1)" by fastforce
  moreover from this have "g1 = g'" using assms(2) Some by (cases d) (simp_all add: provision_handler_def)
  ultimately show ?thesis using provision_effect [OF assms(1)] by blast
qed

text \<open>
  A request on the agent-facing listener: the table of tokens keeps every entry, up to dummy credentials
  for the policy of a token that resolves.
\<close>

lemma proxy_router_effect:
  assumes "server_inv g" "proxy_router E client relay request now g = Some (r, g')"
  shows "admissible g g'"
    "cp_tokens (g_control g') = cp_tokens (g_control g) \<or>
     rq_path request = PROVISION_PATH
       \<and> (\<exists>token pol expt. resolve (cp_tokens (g_control g)) token now = Some pol
            \<and> only_dummies pol expt (cp_tokens (g_control g)) (cp_tokens (g_control g')))"
proof -
  have inv: "tokens_inv (cp_tokens (g_control g))" using assms(1) by (simp add: server_inv_def)
  obtain r1 g1 where p: "provision_handler E (rq_headers request) now g = (r1, g1)" by fastforce
  consider "g' = g" | "rq_path request = PROVISION_PATH" "g' = g1" | "proxy_handler E client relay request now g = Some (r, g')"
    using assms(2) p by (auto simp: proxy_router_def split: if_splits)
  then have "admissible g g' \<and> (cp_tokens (g_control g') = cp_tokens (g_control g) \<or>
     rq_path request = PROVISION_PATH
       \<and> (\<exists>token pol expt. resolve (cp_tokens (g_control g)) token now = Some pol
            \<and> only_dummies pol expt (cp_tokens (g_control g)) (cp_tokens (g_control g'))))"
  proof cases
    case 2
    from provision_handler_effect [OF inv p] show ?thesis
    proof (elim disjE exE conjE)
      fix token pol expt ts
      assume a: "resolve (cp_tokens (g_control g)) token now = Some pol"
        "g1 = g\<lparr> g_control := (g_control g)\<lparr> cp_tokens := ts \<rparr> \<rparr>"
        "only_dummies pol expt (cp_tokens (g_control g)) ts"
      from only_dummies_admissible [OF a(1,3)] a 2 show ?thesis by auto
    qed (simp add: 2)
  next
    case 3
    then show ?thesis using proxy_handler_effect by blast
  qed simp
  then show "admissible g g'" "cp_tokens (g_control g') = cp_tokens (g_control g) \<or>
     rq_path request = PROVISION_PATH
       \<and> (\<exists>token pol expt. resolve (cp_tokens (g_control g)) token now = Some pol
            \<and> only_dummies pol expt (cp_tokens (g_control g)) (cp_tokens (g_control g')))" by auto
qed

lemma admin_router_effect:
  assumes "admin_router E json_mint json_revoke request now g = (r, g')"
  shows "admissible g g'"
proof -
  have mint: "admissible g (snd (mint_handler E (rq_headers request) pol ttl now g))" for pol ttl
  proof -
    obtain x g1 where m: "mint_checked E pol ttl (tenant_header E (rq_headers request)) now g = (x, g1)" by fastforce
    from mint_effect [OF m] show ?thesis by (cases x) (simp_all add: mint_handler_def m)
  qed
  have rev: "admissible g (snd (revoke_handler token g))" for token
    using revoke_effect [of g token] by (simp add: revoke_handler_def case_prod_beta)
  have "g' = snd (admin_router E json_mint json_revoke request now g)" using assms by simp
  then show ?thesis
    using mint rev by (auto simp: admin_router_def split: sum.split)
qed

section \<open>Runs of the server\<close>

datatype 'h server_event =
    ProxyEvent "'h http_request" u64
  | AdminEvent "'h http_request" u64
  | SweepEvent u64

text \<open>
  One step of the running server, at any clock reading: a request on either listener, answered by its
  router, or a tick of the sweeper. A handler that panics drops its connection and changes nothing.
\<close>

inductive server_step ::
  "'h env \<Rightarrow> ('h forward_plan \<Rightarrow> string + nat \<times> 'h \<times> bytes) \<Rightarrow> ('h forward_plan \<Rightarrow> 'h relay)
   \<Rightarrow> ('h http_request \<Rightarrow> nat + policy \<times> u64) \<Rightarrow> ('h http_request \<Rightarrow> nat + string)
   \<Rightarrow> gateway \<Rightarrow> 'h server_event \<Rightarrow> gateway \<Rightarrow> bool"
  for E client relay json_mint json_revoke where
  on_proxy: "proxy_router E client relay request now g = Some (r, g')
    \<Longrightarrow> server_step E client relay json_mint json_revoke g (ProxyEvent request now) g'"
| on_panic: "proxy_router E client relay request now g = None
    \<Longrightarrow> server_step E client relay json_mint json_revoke g (ProxyEvent request now) g"
| on_admin: "admin_router E json_mint json_revoke request now g = (r, g')
    \<Longrightarrow> server_step E client relay json_mint json_revoke g (AdminEvent request now) g'"
| on_sweep: "sweep_expired now g = (n, g')
    \<Longrightarrow> server_step E client relay json_mint json_revoke g (SweepEvent now) g'"

inductive server_run ::
  "'h env \<Rightarrow> ('h forward_plan \<Rightarrow> string + nat \<times> 'h \<times> bytes) \<Rightarrow> ('h forward_plan \<Rightarrow> 'h relay)
   \<Rightarrow> ('h http_request \<Rightarrow> nat + policy \<times> u64) \<Rightarrow> ('h http_request \<Rightarrow> nat + string)
   \<Rightarrow> gateway \<Rightarrow> 'h server_event list \<Rightarrow> gateway \<Rightarrow> bool"
  for E client relay json_mint json_revoke where
  run_start: "server_run E client relay json_mint json_revoke g [] g"
| run_step: "server_step E client relay json_mint json_revoke g ev g'
    \<Longrightarrow> server_run E client relay json_mint json_revoke g' evs g''
    \<Longrightarrow> server_run E client relay json_mint json_revoke g (ev # evs) g''"

lemma server_step_admissible:
  "server_step E client relay json_mint json_revoke g ev g' \<Longrightarrow> server_inv g \<Longrightarrow> admissible g g'"
proof (induction rule: server_step.induct)
  case (on_sweep now g n g')
  then show ?case using sweep_effect [of g now] by simp
qed (auto intro: proxy_router_effect(1) admin_router_effect)

lemma server_run_admissible:
  "server_run E client relay json_mint json_revoke g evs g' \<Longrightarrow> server_inv g \<Longrightarrow> admissible g g'"
proof (induction rule: server_run.induct)
  case (run_step g ev g' evs g'')
  then have a: "admissible g g'" by (intro server_step_admissible)
  with run_step have "server_inv g'" by (simp add: admissible_def)
  with run_step a show ?case by (blast intro: admissible_trans)
qed simp

lemma credential_policy_checked:
  assumes "credential_presented E (cp_tokens (g_control g)) req now pol source" "server_inv g"
  shows "policy_checked g pol"
proof -
  obtain k e where "live now (cp_tokens (g_control g)) k = Some e" "t_policy e = pol"
    using assms(1) unfolding credential_presented_def by (meson if_bool_eq_disj)
  with assms(2) show ?thesis by (auto simp: server_inv_def live_def split: option.splits if_splits)
qed

text \<open>Relayed responses keep every header that the server layer does not recompute.\<close>

lemma response_header_values:
  "http_laws E \<Longrightarrow> header_values E (filter_response_headers E h) n =
     (if is_dropped_response_header n then [] else header_values E h n)"
  unfolding filter_response_headers_def by (rule copied_values)

section \<open>Properties\<close>

text \<open>C6. The server's invariant: whatever requests arrive on the two listeners, in any order and at any
  clock readings, between any ticks of the sweeper, every entry of the token table carries a policy that
  passed the mint's validation against the configuration; the configuration, the tenants and the vault never
  change and the audit log only grows.\<close>

theorem server_policies_stay_validated:
  assumes "server_run E client relay json_mint json_revoke g evs g'" "server_inv g"
  shows "server_inv g' \<and> config_same g g' \<and> log_extends g g'"
  using server_run_admissible [OF assms] assms(2) by (simp add: admissible_def)

theorem server_policies_stay_validated_witness:
  "\<exists>g'. server_run list_env (\<lambda>_. Inl ''down'') (\<lambda>_. BadGateway ''down'') (\<lambda>_. Inr (demo_policy, 60)) (\<lambda>_. Inl 400)
     demo_gateway [AdminEvent \<lparr> rq_method = ''POST'', rq_path = ''/mint'', rq_query = None,
       rq_headers = [(''x-hackamore-tenant'', ''team'')], rq_body = Some [], rq_on_upgrade = False \<rparr> 3, SweepEvent 2000] g'
     \<and> server_inv demo_gateway \<and> server_inv g'"
proof -
  let ?rq = "\<lparr> rq_method = ''POST'', rq_path = ''/mint'', rq_query = None,
       rq_headers = [(''x-hackamore-tenant'', ''team'')], rq_body = Some [], rq_on_upgrade = False \<rparr> :: header_list http_request"
  obtain r g1 where a: "admin_router list_env (\<lambda>_. Inr (demo_policy, 60)) (\<lambda>_. Inl 400) ?rq 3 demo_gateway = (r, g1)"
    by fastforce
  obtain n g2 where w: "sweep_expired 2000 g1 = (n, g2)" by fastforce
  have run: "server_run list_env (\<lambda>_. Inl ''down'') (\<lambda>_. BadGateway ''down'') (\<lambda>_. Inr (demo_policy, 60)) (\<lambda>_. Inl 400)
      demo_gateway [AdminEvent ?rq 3, SweepEvent 2000] g2"
    by (rule run_step [OF on_admin [OF a] run_step [OF on_sweep [OF w] run_start]])
  have "check_tenant demo_gateway demo_policy (Some ''team'') = None" "validate_catalog demo_gateway demo_policy = None"
    by code_simp+
  then have "policy_checked demo_gateway demo_policy"
    by (auto simp: policy_checked_def check_tenant_None validate_catalog_None)
  then have inv: "server_inv demo_gateway"
    by (auto simp: server_inv_def tokens_inv_def hm_inv_def demo_gateway_def gateway_new_def demo_tokens_def)
  from server_policies_stay_validated [OF run inv] run inv show ?thesis by blast
qed

text \<open>Multi-tenant safety of the running server: on a server with tenants that started with an empty token
  table, after any run, every request that the proxy sends or tunnels upstream goes to a configured service
  that is owned by a tenant.\<close>

lemma server_forwards_within_tenancy:
  assumes "server_run E client relay json_mint json_revoke g0 evs g"
    and "entries (cp_tokens (g_control g0)) = []" "\<not> tenants_is_empty (cp_tenants (g_control g0))"
    and "proxy_decide E request now g = Some (step, g')" "step = Send plan \<or> step = TunnelPlan plan"
  shows "\<exists>key owned svc path query. tenants_owned (cp_tenants (g_control g0)) key = Some owned
    \<and> svc \<in> set (g_router g0) \<and> s_name svc \<in> owned
    \<and> fp_url plan = upstream_url (s_upstream_base svc) path query"
proof -
  have "server_inv g0" using assms(2) by (simp add: server_inv_def tokens_inv_def)
  from server_run_admissible [OF assms(1) this] this
  have inv: "server_inv g" and same: "g_router g = g_router g0"
    "cp_tenants (g_control g) = cp_tenants (g_control g0)"
    by (auto simp: admissible_def config_same_def)
  obtain req out where h: "handle E req now g = Some (Forward out, g')" and url: "fp_url out = fp_url plan"
    using assms(4) by (cases rule: proxy_decide_cases) (use assms(5) in auto)
  obtain pol source svc cp act where c: "credential_presented E (cp_tokens (g_control g)) req now pol source"
    and m: "mediated E (g_router g) req pol source now (g_control g) svc cp act out"
    by (rule handle_forward [OF h])
  obtain key owned where o: "tenants_owned (cp_tenants (g_control g0)) key = Some owned" "tenant_policy_ok owned pol"
    using credential_policy_checked [OF c inv] assms(3) same by (auto simp: policy_checked_def)
  have "s_name svc \<in> owned" "svc \<in> set (g_router g0)"
    "fp_url plan = upstream_url (s_upstream_base svc) (cp_encoded cp) (q_query req)"
    using m tenant_policy_allows_owned [OF o(2), of act] url same
    by (auto simp: mediated_def dest: routeD normalize_shape(1))
  with o(1) show ?thesis by blast
qed

text \<open>A server with one tenant and no token yet, whose UUIDs are all alike.\<close>

definition plain_env :: "header_list env" where
  "plain_env = list_env\<lparr> uuid_simple := (\<lambda>_. ''tok'') \<rparr>"

definition empty_gateway :: gateway where
  "empty_gateway = gateway_new ((g_control demo_gateway)\<lparr> cp_tokens := tokens_new 0 \<rparr>) [demo_service]"

definition mint_request :: "header_list http_request" where
  "mint_request = \<lparr> rq_method = ''POST'', rq_path = ''/mint'', rq_query = None,
     rq_headers = [(''x-hackamore-tenant'', ''team'')], rq_body = Some [], rq_on_upgrade = False \<rparr>"

definition agent_request :: "header_list http_request" where
  "agent_request = \<lparr> rq_method = ''GET'', rq_path = ''/repos/a'', rq_query = None,
     rq_headers = [(''host'', ''api.example.com''), (''authorization'', ''Bearer toktok'')], rq_body = Some [], rq_on_upgrade = False \<rparr>"

definition minted_gateway :: gateway where
  "minted_gateway = snd (admin_router plain_env (\<lambda>_. Inr (demo_policy, 60)) (\<lambda>_. Inl 400) mint_request 3 empty_gateway)"

lemma minted_gateway_eq:
  "minted_gateway = empty_gateway\<lparr> g_control := (g_control empty_gateway)\<lparr> cp_tokens :=
     \<lparr> entries = [(''toktok'', \<lparr> t_policy = demo_policy, t_expires_at_ms = 60003, t_secret = None \<rparr>)], draws = 2 \<rparr> \<rparr> \<rparr>"
proof -
  have t: "tenant_header plain_env (rq_headers mint_request) = Some ''team''" by code_simp
  have r: "rq_path mint_request = ''/mint''" "rq_method mint_request = ''POST''"
    by (simp_all add: mint_request_def)
  have "check_tenant empty_gateway demo_policy (Some ''team'') = None" "validate_catalog empty_gateway demo_policy = None"
    by code_simp+
  then show ?thesis
    by (simp add: minted_gateway_def admin_router_def r mint_handler_def t [unfolded plain_env_def] mint_checked_cases gateway_mint_def
        tokens_mint_def expiry_def sat_add_def sat_mul_def plain_env_def hm_insert_def Let_def)
      (simp add: empty_gateway_def gateway_new_def tokens_new_def)
qed

lemma agent_request_sent:
  obtains plan g' where "proxy_decide plain_env agent_request 5 minted_gateway = Some (Send plan, g')"
proof -
  let ?rq = "\<lparr> q_method = ''GET'', q_path = ''/repos/a'', q_query = [],
     q_headers = [(''host'', ''api.example.com''), (''authorization'', ''Bearer toktok'')], q_body = [] \<rparr>"
  have "case handle plain_env ?rq 5 minted_gateway of Some (Forward _, _) \<Rightarrow> True | _ \<Rightarrow> False"
    unfolding minted_gateway_eq by code_simp
  then obtain plan g' where "handle plain_env ?rq 5 minted_gateway = Some (Forward plan, g')"
    by (auto split: option.splits outcome.splits)
  then show thesis
    by (intro that) (simp add: proxy_decide_def agent_request_def body_within_def Let_def)
qed

lemma mint_run:
  "server_run plain_env (\<lambda>_. Inl ''down'') (\<lambda>_. BadGateway ''down'') (\<lambda>_. Inr (demo_policy, 60)) (\<lambda>_. Inl 400)
     empty_gateway [AdminEvent mint_request 3] minted_gateway"
proof -
  obtain r where "admin_router plain_env (\<lambda>_. Inr (demo_policy, 60)) (\<lambda>_. Inl 400) mint_request 3 empty_gateway
      = (r, minted_gateway)" unfolding minted_gateway_def by (metis prod.collapse)
  then show ?thesis by (rule run_step [OF on_admin run_start])
qed

text \<open>C18. The agent-facing listener cannot mint or revoke: a request on it leaves the token table as it was,
  except that provisioning may store dummy credentials for the very policy of a token that resolves.\<close>

theorem proxy_listener_cannot_mint_or_revoke:
  assumes "server_inv g" "proxy_router E client relay request now g = Some (r, g')"
  shows "map_of (entries (cp_tokens (g_control g'))) k = map_of (entries (cp_tokens (g_control g))) k
    \<or> (rq_path request = PROVISION_PATH \<and> (\<exists>token pol expt. resolve (cp_tokens (g_control g)) token now = Some pol
         \<and> dummy_entry pol expt (map_of (entries (cp_tokens (g_control g'))) k)))"
  using proxy_router_effect(2) [OF assms] by (auto simp: only_dummies_def)

theorem proxy_listener_cannot_mint_or_revoke_witness:
  "\<exists>r g'. server_inv minted_gateway
    \<and> proxy_router plain_env (\<lambda>_. Inl ''down'') (\<lambda>_. BadGateway ''down'') agent_request 5 minted_gateway = Some (r, g')
    \<and> map_of (entries (cp_tokens (g_control g'))) ''toktok'' = map_of (entries (cp_tokens (g_control minted_gateway))) ''toktok''"
proof -
  have "server_inv empty_gateway" by (simp add: empty_gateway_def gateway_new_def tokens_new_def server_inv_def tokens_inv_def)
  from server_run_admissible [OF mint_run this] this have inv: "server_inv minted_gateway" by (simp add: admissible_def)
  obtain plan g' where d: "proxy_decide plain_env agent_request 5 minted_gateway = Some (Send plan, g')"
    by (rule agent_request_sent)
  have path: "rq_path agent_request \<noteq> PROVISION_PATH" by code_simp
  with d obtain r where
    p: "proxy_router plain_env (\<lambda>_. Inl ''down'') (\<lambda>_. BadGateway ''down'') agent_request 5 minted_gateway = Some (r, g')"
    by (simp add: proxy_router_def proxy_handler_def)
  from proxy_listener_cannot_mint_or_revoke [OF inv p, of "''toktok''"] inv p path show ?thesis by blast
qed

end
