(* ===== verification/Tls.thy ===== *)
theory Tls
  imports Providers
begin

text \<open>
  \<^verbatim>\<open>gateway/src/tls.rs\<close>: reading the PEM material of the optional TLS listener. Base64, the conversion of
  DER to a key and the rustls builder are parameters.
\<close>

section \<open>PEM bundles\<close>

definition pem_begin :: "string \<Rightarrow> string" where
  "pem_begin label = ''-----BEGIN '' @ label @ ''-----''"

definition pem_end :: "string \<Rightarrow> string" where
  "pem_end label = ''-----END '' @ label @ ''-----''"

lemma pem_marks [simp]: "pem_begin label \<noteq> []" "hd (pem_begin label) = CHR ''-''"
  "pem_end label \<noteq> []" "hd (pem_end label) = CHR ''-''"
  by (simp_all add: pem_begin_def pem_end_def)

text \<open>The loop, from the rest of the text; the blocks are collected in order.\<close>

function pem_blocks :: "(bytes \<Rightarrow> string + bytes) \<Rightarrow> string \<Rightarrow> string \<Rightarrow> string + bytes list" where
  "pem_blocks decode label rest =
     (case find_sub (pem_begin label) rest of
        None \<Rightarrow> Inr []
      | Some start \<Rightarrow>
          let after = drop (start + length (pem_begin label)) rest in
          case find_sub (pem_end label) after of
            None \<Rightarrow> Inl (''unterminated PEM block for '' @ label)
          | Some stop \<Rightarrow>
              (case decode (drop_whitespace (take stop after)) of
                 Inl e \<Rightarrow> Inl (''base64 decode '' @ label @ '': '' @ e)
               | Inr der \<Rightarrow>
                   (case pem_blocks decode label (drop (stop + length (pem_end label)) after) of
                      Inl e \<Rightarrow> Inl e
                    | Inr ders \<Rightarrow> Inr (der # ders))))"
  by pat_completeness auto
termination
proof (relation "measure (\<lambda>(_, _, rest). length rest)")
  fix decode :: "bytes \<Rightarrow> string + bytes" and label rest :: string and start after stop
  assume "find_sub (pem_begin label) rest = Some start" "after = drop (start + length (pem_begin label)) rest"
  then show "((decode, label, drop (stop + length (pem_end label)) after), decode, label, rest)
      \<in> measure (\<lambda>(_, _, rest). length rest)"
    by (cases rest) (auto simp: pem_begin_def)
qed simp

declare pem_blocks.simps [simp del]

record tls_material =
  cert_pem :: string
  key_pem :: string
  ca_pem :: string

definition parse_certificates :: "(bytes \<Rightarrow> string + bytes) \<Rightarrow> string \<Rightarrow> string + bytes list" where
  "parse_certificates decode pem = pem_blocks decode ''CERTIFICATE'' pem"

text \<open>The three attempts in turn: the first label with a block decides; \<open>to_key\<close> reads its DER.\<close>

fun first_key ::
  "(bytes \<Rightarrow> string + bytes) \<Rightarrow> (bytes \<Rightarrow> string + 'k) \<Rightarrow> string \<Rightarrow> (string \<times> string) list \<Rightarrow> string + 'k" where
  "first_key decode to_key pem [] = Inl ''no private key found in key PEM''"
| "first_key decode to_key pem ((label, kind) # labels) =
     (case pem_blocks decode label pem of
        Inl e \<Rightarrow> Inl e
      | Inr (der # _) \<Rightarrow> (case to_key der of Inl e \<Rightarrow> Inl (kind @ '' key: '' @ e) | Inr k \<Rightarrow> Inr k)
      | Inr [] \<Rightarrow> first_key decode to_key pem labels)"

definition parse_private_key :: "(bytes \<Rightarrow> string + bytes) \<Rightarrow> (bytes \<Rightarrow> string + 'k) \<Rightarrow> string \<Rightarrow> string + 'k" where
  "parse_private_key decode to_key pem =
     first_key decode to_key pem
       [(''PRIVATE KEY'', ''pkcs8''), (''RSA PRIVATE KEY'', ''pkcs1''), (''EC PRIVATE KEY'', ''sec1'')]"

definition server_config ::
  "(bytes \<Rightarrow> string + bytes) \<Rightarrow> (bytes \<Rightarrow> string + 'k) \<Rightarrow> (bytes list \<Rightarrow> 'k \<Rightarrow> string + 'c) \<Rightarrow> tls_material \<Rightarrow> string + 'c" where
  "server_config decode to_key build m =
     (case parse_certificates decode (cert_pem m) of
        Inl e \<Rightarrow> Inl e
      | Inr certs \<Rightarrow>
          if certs = [] then Inl ''no certificates found in cert PEM''
          else case parse_private_key decode to_key (key_pem m) of
              Inl e \<Rightarrow> Inl e
            | Inr key \<Rightarrow> (case build certs key of Inl e \<Rightarrow> Inl (''tls cert/key: '' @ e) | Inr c \<Rightarrow> Inr c))"

section \<open>A bundle of blocks\<close>

fun decode_all :: "(bytes \<Rightarrow> string + bytes) \<Rightarrow> string \<Rightarrow> string list \<Rightarrow> string + bytes list" where
  "decode_all decode label [] = Inr []"
| "decode_all decode label (b # bs) =
     (case decode (filter (\<lambda>c. \<not> ascii_ws c) b) of
        Inl e \<Rightarrow> Inl (''base64 decode '' @ label @ '': '' @ e)
      | Inr der \<Rightarrow> (case decode_all decode label bs of Inl e \<Rightarrow> Inl e | Inr ders \<Rightarrow> Inr (der # ders)))"

definition pem_text :: "string \<Rightarrow> (string \<times> string) list \<Rightarrow> string" where
  "pem_text label bs = concat (map (\<lambda>(pre, body). pre @ pem_begin label @ body @ pem_end label) bs)"

text \<open>The reader of PEM bundles returns the decoded body of every block of its label, in order and without
  the white space, whatever text stands between the blocks; the first block that does not decode, or a
  block that is not closed, makes the whole reading an error.\<close>

theorem pem_blocks_decodes_bundle:
  assumes "list_all (\<lambda>(pre, body). CHR ''-'' \<notin> set pre \<and> CHR ''-'' \<notin> set body \<and> ascii body) bs" "CHR ''-'' \<notin> set post"
  shows "pem_blocks decode label (pem_text label bs @ post) = decode_all decode label (map snd bs)
    \<and> pem_blocks decode label (post @ pem_begin label @ post) = Inl (''unterminated PEM block for '' @ label)"
proof
  show "pem_blocks decode label (pem_text label bs @ post) = decode_all decode label (map snd bs)"
    using assms(1)
  proof (induction bs)
    case Nil
    then show ?case using assms(2) by (simp add: pem_text_def pem_blocks.simps find_sub_absent)
  next
    case (Cons pb bs)
    obtain pre body where pb: "pb = (pre, body)" by (cases pb)
    with Cons have p: "CHR ''-'' \<notin> set pre" "CHR ''-'' \<notin> set body" "ascii body"
      and IH: "pem_blocks decode label (pem_text label bs @ post) = decode_all decode label (map snd bs)" by auto
    let ?r = "pem_text label bs @ post"
    have t: "pem_text label (pb # bs) @ post = pre @ pem_begin label @ body @ pem_end label @ ?r"
      by (simp add: pem_text_def pb)
    have "find_sub (pem_begin label) (pre @ pem_begin label @ body @ pem_end label @ ?r) = Some (length pre)"
      "find_sub (pem_end label) (body @ pem_end label @ ?r) = Some (length body)"
      using p by (simp_all add: find_sub_first)
    then show ?case
      unfolding t
      by (subst pem_blocks.simps)
        (simp add: Let_def drop_whitespace_plain [OF p(3)] pb IH split: sum.split)
  qed
  show "pem_blocks decode label (post @ pem_begin label @ post) = Inl (''unterminated PEM block for '' @ label)"
    using assms(2) by (subst pem_blocks.simps) (simp add: find_sub_first find_sub_absent)
qed

theorem pem_blocks_decodes_bundle_witness:
  "pem_blocks Inr ''CERTIFICATE'' (pem_text ''CERTIFICATE'' [(''a'', ''QU JD''), ([], ''RA'')] @ ''end'') = Inr [''QUJD'', ''RA'']"
proof -
  have "ascii ''QU JD''" "ascii ''RA''" by simp_all
  with pem_blocks_decodes_bundle [of "[(''a'', ''QU JD''), ([], ''RA'')]" "''end''" Inr "''CERTIFICATE''"]
  show ?thesis by (simp add: ascii_ws_def)
qed

end
