(* ===== verification/Cli.thy ===== *)
theory Cli
  imports Server Tls
begin

text \<open>
  \<^verbatim>\<open>cli/src/config.rs\<close> and the assembly in \<^verbatim>\<open>cli/src/main.rs\<close>: from a configuration to the running
  gateway. Files, the JSON parser, base64, the RSA library, the rustls builder, the HTTP exchange of a
  provider and the parser of socket addresses are parameters; a \<^verbatim>\<open>HashMap\<close> of the configuration is its
  entries in the order in which it iterates.
\<close>

section \<open>Configuration\<close>

datatype outbound_config =
    CPassthrough
  | CBearer string
  | CHeader string string
  | CSigv4 string string string string

record service_config =
  sc_name :: string
  sc_host :: string
  sc_upstream_base :: string
  sc_flavor :: "string option"
  sc_consumer_address :: "string option"
  sc_protocol :: "string option"
  sc_path_template :: "string option"
  sc_catalog :: "string list"
  sc_catalog_openapi :: "string option"
  sc_outbound :: outbound_config

datatype provider_config =
    CEks string string string string
  | CGithubApp string string string "string option"

record tls_config =
  tc_cert :: string
  tc_key :: string
  tc_ca :: "string option"

record config =
  c_proxy_addr :: string
  c_admin_addr :: string
  c_services :: "service_config list"
  c_credentials :: "(string \<times> string) list"
  c_providers :: "(string \<times> provider_config) list"
  c_tenants :: "(string \<times> string list) list"
  c_tls :: "tls_config option"
  c_audit_log :: "string option"

text \<open>The world outside: \<open>w_read\<close> is \<^verbatim>\<open>read_to_string\<close>.\<close>

record ('k, 'c) world =
  w_read :: "string \<Rightarrow> string + string"
  w_config_json :: "string \<Rightarrow> string + config"
  w_spec_json :: "string \<Rightarrow> string + json"
  w_post :: "string \<Rightarrow> string \<Rightarrow> string + token_response"
  w_decode :: "bytes \<Rightarrow> string + bytes"
  w_to_key :: "bytes \<Rightarrow> string + 'k"
  w_build_tls :: "bytes list \<Rightarrow> 'k \<Rightarrow> string + 'c"
  w_audit_ok :: "string \<Rightarrow> string + unit"
  w_addr :: "string \<Rightarrow> string + string"

definition map_err :: "(string \<Rightarrow> string) \<Rightarrow> string + 'a \<Rightarrow> string + 'a" where
  "map_err f r = (case r of Inl e \<Rightarrow> Inl (f e) | Inr a \<Rightarrow> Inr a)"

definition and_then :: "string + 'a \<Rightarrow> ('a \<Rightarrow> string + 'b) \<Rightarrow> string + 'b" where
  "and_then r f = (case r of Inl e \<Rightarrow> Inl e | Inr a \<Rightarrow> f a)"

definition config_load :: "('k, 'c) world \<Rightarrow> string \<Rightarrow> string + config" where
  "config_load w path =
     and_then (map_err (\<lambda>e. ''read config '' @ path @ '': '' @ e) (w_read w path)) (\<lambda>text.
       map_err (\<lambda>e. ''parse config '' @ path @ '': '' @ e) (w_config_json w text))"

section \<open>Services and catalogs\<close>

definition build_outbound :: "outbound_config \<Rightarrow> outbound" where
  "build_outbound oc =
     (case oc of
        CPassthrough \<Rightarrow> Passthrough
      | CBearer ident \<Rightarrow> Bearer ident
      | CHeader nm credential \<Rightarrow> Header nm credential
      | CSigv4 credential access_key_id region service \<Rightarrow> OutSigV4 credential access_key_id region service)"

definition build_service :: "service_config \<Rightarrow> service" where
  "build_service s =
     \<lparr> s_name = sc_name s, s_host = sc_host s, s_upstream_base = sc_upstream_base s,
       s_flavor = flavor_parse (sc_flavor s), s_outbound = build_outbound (sc_outbound s),
       s_address = (case sc_consumer_address s of Some a \<Rightarrow> a | None \<Rightarrow> []),
       s_extract = \<lparr> x_protocol = protocol_parse (sc_protocol s), x_path_template = sc_path_template s \<rparr> \<rparr>"

text \<open>The loop over the services that fills the map of catalogs; an OpenAPI document takes precedence.\<close>

fun build_catalogs ::
  "('k, 'c) world \<Rightarrow> service_config list \<Rightarrow> (string, catalog) assoc \<Rightarrow> string + (string, catalog) assoc" where
  "build_catalogs w [] cats = Inr cats"
| "build_catalogs w (s # ss) cats =
     (case sc_catalog_openapi s of
        Some path \<Rightarrow>
          and_then (map_err (\<lambda>e. ''read openapi '' @ path @ '': '' @ e) (w_read w path)) (\<lambda>text.
          and_then (map_err (\<lambda>e. ''parse openapi '' @ path @ '': '' @ e) (w_spec_json w text)) (\<lambda>spec.
          build_catalogs w ss (hm_insert (sc_name s) (from_openapi spec) cats)))
      | None \<Rightarrow>
          if sc_catalog s \<noteq> [] then build_catalogs w ss (hm_insert (sc_name s) (catalog_of (sc_catalog s)) cats)
          else build_catalogs w ss cats)"

section \<open>Credentials\<close>

fun insert_secrets :: "(string \<times> string) list \<Rightarrow> in_memory \<Rightarrow> in_memory" where
  "insert_secrets [] v = v"
| "insert_secrets ((ident, s) # cs) v = insert_secrets cs (in_memory_insert ident (secret_new s) v)"

fun collect_statics :: "(string \<times> string) list \<Rightarrow> (string, secret) assoc \<Rightarrow> (string, secret) assoc" where
  "collect_statics [] m = m"
| "collect_statics ((ident, s) # cs) m = collect_statics cs (hm_insert ident (secret_new s) m)"

definition build_provider ::
  "'h env \<Rightarrow> 'k provider_env \<Rightarrow> ('k, 'c) world \<Rightarrow> provider_config \<Rightarrow> string + provider" where
  "build_provider E P w pc =
     (case pc of
        CEks access_key_id secret_access_key region cluster_name \<Rightarrow>
          Inr (eks_as_provider E P
            \<lparr> eks_access_key_id = access_key_id, eks_secret_access_key = secret_new secret_access_key,
              eks_region = region, eks_cluster_name = cluster_name \<rparr>)
      | CGithubApp app_id installation_id private_key_path api_base \<Rightarrow>
          and_then (map_err (\<lambda>e. ''read app key '' @ private_key_path @ '': '' @ e) (w_read w private_key_path)) (\<lambda>pem.
          and_then (pkcs8_from_pem P pem) (\<lambda>der.
          Inr (github_as_provider P (w_post w)
            \<lparr> gh_app_id = app_id, gh_installation_id = installation_id, gh_private_key_pkcs8_der = der,
              gh_api_base = (case api_base of Some b \<Rightarrow> b | None \<Rightarrow> ''https://api.github.com'') \<rparr>))))"

fun build_providers ::
  "'h env \<Rightarrow> 'k provider_env \<Rightarrow> ('k, 'c) world \<Rightarrow> (string \<times> provider_config) list \<Rightarrow> (string, provider) assoc
   \<Rightarrow> string + (string, provider) assoc" where
  "build_providers E P w [] m = Inr m"
| "build_providers E P w ((ident, pc) # ps) m =
     and_then (build_provider E P w pc) (\<lambda>p. build_providers E P w ps (hm_insert ident p m))"

text \<open>The store is primed once, at the clock reading of the start.\<close>

definition build_credentials ::
  "'h env \<Rightarrow> 'k provider_env \<Rightarrow> ('k, 'c) world \<Rightarrow> config \<Rightarrow> u64 \<Rightarrow> string + credential_store" where
  "build_credentials E P w cfg now =
     (if c_providers cfg = [] then Inr (InMemoryStore (insert_secrets (c_credentials cfg) in_memory_new))
      else and_then (build_providers E P w (c_providers cfg) []) (\<lambda>provs.
        Inr (CachingStore (snd (refresh_due now (caching_new (collect_statics (c_credentials cfg) []) provs))))))"

definition build_audit :: "('k, 'c) world \<Rightarrow> config \<Rightarrow> string + unit" where
  "build_audit w cfg =
     (case c_audit_log cfg of
        Some path \<Rightarrow> map_err (\<lambda>e. ''open audit log '' @ path @ '': '' @ e) (w_audit_ok w path)
      | None \<Rightarrow> Inr ())"

section \<open>TLS\<close>

definition build_tls :: "('k, 'c) world \<Rightarrow> tls_config option \<Rightarrow> string + 'c option \<times> string" where
  "build_tls w tls =
     (case tls of
        None \<Rightarrow> Inr (None, [])
      | Some t \<Rightarrow>
          and_then (map_err (\<lambda>e. ''read tls cert '' @ tc_cert t @ '': '' @ e) (w_read w (tc_cert t))) (\<lambda>cert.
          and_then (map_err (\<lambda>e. ''read tls key '' @ tc_key t @ '': '' @ e) (w_read w (tc_key t))) (\<lambda>key.
          and_then (case tc_ca t of
              Some p \<Rightarrow> map_err (\<lambda>e. ''read tls ca '' @ p @ '': '' @ e) (w_read w p)
            | None \<Rightarrow> Inr cert) (\<lambda>ca.
          and_then (server_config (w_decode w) (w_to_key w) (w_build_tls w) \<lparr> cert_pem = cert, key_pem = key, ca_pem = ca \<rparr>) (\<lambda>c.
          Inr (Some c, ca))))))"

section \<open>Assembly\<close>

fun insert_tenants :: "(string \<times> string list) list \<Rightarrow> tenants \<Rightarrow> tenants" where
  "insert_tenants [] tn = tn"
| "insert_tenants ((key, targets) # ts) tn = insert_tenants ts (tenants_insert key targets tn)"

record 'c startup =
  st_gateway :: gateway
  st_proxy_addr :: string
  st_admin_addr :: string
  st_tls :: "'c option"

definition serve_setup ::
  "'h env \<Rightarrow> 'k provider_env \<Rightarrow> ('k, 'c) world \<Rightarrow> string \<Rightarrow> u64 \<Rightarrow> nat \<Rightarrow> string + 'c startup" where
  "serve_setup E P w path now draws0 =
     and_then (config_load w path) (\<lambda>cfg.
     and_then (build_credentials E P w cfg now) (\<lambda>credentials.
     and_then (build_audit w cfg) (\<lambda>_.
     let control = control_new draws0 credentials in_memory_audit_new;
         control = control\<lparr> cp_tenants := insert_tenants (c_tenants cfg) (cp_tenants control) \<rparr>;
         services = map build_service (c_services cfg)
     in and_then (build_catalogs w (c_services cfg) []) (\<lambda>catalogs.
        and_then (build_tls w (c_tls cfg)) (\<lambda>(tls, ca).
        let gateway = with_ca ca (with_catalogs catalogs (gateway_new control services))
        in and_then (w_addr w (c_proxy_addr cfg)) (\<lambda>proxy_addr.
           and_then (w_addr w (c_admin_addr cfg)) (\<lambda>admin_addr.
           Inr \<lparr> st_gateway = gateway, st_proxy_addr = proxy_addr, st_admin_addr = admin_addr, st_tls = tls \<rparr>)))))))"

section \<open>What the assembly yields\<close>

lemma and_then_Inr: "and_then r f = Inr b \<longleftrightarrow> (\<exists>a. r = Inr a \<and> f a = Inr b)"
  by (auto simp: and_then_def split: sum.split)

lemma tenants_insert_owned:
  "tenants_owned (tenants_insert key targets tn) k = (if k = key then Some (set targets) else tenants_owned tn k)"
  by (simp add: tenants_owned_def tenants_insert_def hm_insert_def update_conv')

lemma insert_tenants_owned:
  "tenants_owned (insert_tenants ts tn) k =
     (case map_of (rev ts) k of Some targets \<Rightarrow> Some (set targets) | None \<Rightarrow> tenants_owned tn k)"
  by (induction ts tn rule: insert_tenants.induct)
    (auto simp: tenants_insert_owned map_add_def split: option.split)

lemma tenants_is_empty_iff: "tenants_is_empty tn \<longleftrightarrow> (\<forall>k. tenants_owned tn k = None)"
  by (cases "owned_sets tn") (auto simp: tenants_is_empty_def tenants_owned_def)

lemma insert_tenants_empty: "tenants_is_empty (insert_tenants ts tenants_new) \<longleftrightarrow> ts = []"
proof (cases ts rule: rev_cases)
  case (snoc us kt)
  obtain k t where "kt = (k, t)" by (cases kt)
  then have "tenants_owned (insert_tenants ts tenants_new) k \<noteq> None" by (simp add: insert_tenants_owned snoc)
  then have "\<not> tenants_is_empty (insert_tenants ts tenants_new)" unfolding tenants_is_empty_iff by auto
  then show ?thesis by (simp add: snoc)
qed (simp add: tenants_is_empty_def tenants_new_def)

lemma insert_secrets_resolve:
  "in_memory_resolve (insert_secrets cs v) ident =
     (case map_of (rev cs) ident of Some s \<Rightarrow> Some s | None \<Rightarrow> in_memory_resolve v ident)"
  by (induction cs v rule: insert_secrets.induct)
    (auto simp: in_memory_vault.get_ins map_add_def secret_new_def split: option.split)

lemma serve_setup_cases:
  assumes "serve_setup E P w path now n = Inr st"
  obtains cfg credentials catalogs tls ca where "config_load w path = Inr cfg"
    "build_credentials E P w cfg now = Inr credentials" "build_catalogs w (c_services cfg) [] = Inr catalogs"
    "build_tls w (c_tls cfg) = Inr (tls, ca)"
    "st_gateway st = \<lparr> g_control = (control_new n credentials in_memory_audit_new)\<lparr> cp_tenants := insert_tenants (c_tenants cfg) tenants_new \<rparr>,
       g_router = map build_service (c_services cfg), g_catalogs = catalogs, g_ca = ca \<rparr>"
    "st_tls st = tls"
  using assms
  by (auto simp: serve_setup_def and_then_Inr Let_def with_ca_def with_catalogs_def gateway_new_def control_new_def)

section \<open>Properties\<close>

text \<open>What a successful start yields: a gateway in its invariant with an empty token table and log, whose router
  is the configured services in order, whose tenants own exactly what the configuration says (tenancy is off
  only when no tenant is configured), and whose static vault resolves exactly the configured credentials
  when no provider is configured.\<close>

theorem startup_reflects_config:
  assumes "serve_setup E P w path now n = Inr st"
  shows "\<exists>cfg. config_load w path = Inr cfg \<and> server_inv (st_gateway st)
    \<and> tokens_len (cp_tokens (g_control (st_gateway st))) = 0 \<and> events_of (cp_audit (g_control (st_gateway st))) = []
    \<and> g_router (st_gateway st) = map build_service (c_services cfg)
    \<and> (tenants_is_empty (cp_tenants (g_control (st_gateway st))) \<longleftrightarrow> c_tenants cfg = [])
    \<and> tenants_owned (cp_tenants (g_control (st_gateway st))) key = map_option set (map_of (rev (c_tenants cfg)) key)
    \<and> (c_providers cfg \<noteq> [] \<or> store_resolve (cp_credentials (g_control (st_gateway st))) ident = map_of (rev (c_credentials cfg)) ident)"
proof (rule serve_setup_cases [OF assms])
  fix cfg credentials catalogs tls ca
  assume c: "config_load w path = Inr cfg" and v: "build_credentials E P w cfg now = Inr credentials"
    and g: "st_gateway st = \<lparr> g_control = (control_new n credentials in_memory_audit_new)\<lparr> cp_tenants := insert_tenants (c_tenants cfg) tenants_new \<rparr>,
       g_router = map build_service (c_services cfg), g_catalogs = catalogs, g_ca = ca \<rparr>"
  have "tenants_owned tenants_new key = None" by (simp add: tenants_owned_def tenants_new_def)
  then have t: "tenants_owned (insert_tenants (c_tenants cfg) tenants_new) key = map_option set (map_of (rev (c_tenants cfg)) key)"
    by (simp add: insert_tenants_owned split: option.split)
  have "in_memory_resolve in_memory_new ident = None" by (simp add: in_memory_resolve_def in_memory_new_def)
  then have s: "store_resolve credentials ident = map_of (rev (c_credentials cfg)) ident" if "c_providers cfg = []"
    using v that by (auto simp: build_credentials_def insert_secrets_resolve split: option.split)
  show ?thesis
    using c t s by (intro exI [of _ cfg]) (auto simp: g control_new_def tokens_new_def server_inv_def tokens_inv_def
        tokens_len_def in_memory_audit_new_def insert_tenants_empty)
qed

text \<open>C2. From configuration to wire: on a server started from a configuration with tenants, after any run of
  requests and sweeps, everything that the proxy sends or tunnels upstream goes to a configured
  service whose name is on the list of a configured tenant.\<close>

theorem configured_tenant_isolation:
  assumes "serve_setup E P w path now n = Inr st" "config_load w path = Inr cfg" "c_tenants cfg \<noteq> []"
    and "server_run E client relay json_mint json_revoke (st_gateway st) evs g"
    and "proxy_decide E request t g = Some (step, g')" "step = Send plan \<or> step = TunnelPlan plan"
  shows "\<exists>sc key targets upath query. sc \<in> set (c_services cfg) \<and> (key, targets) \<in> set (c_tenants cfg)
    \<and> sc_name sc \<in> set targets \<and> fp_url plan = upstream_url (sc_upstream_base sc) upath query"
proof (rule serve_setup_cases [OF assms(1)])
  fix cfg' credentials catalogs tls ca
  assume "config_load w path = Inr cfg'"
    and "st_gateway st = \<lparr> g_control = (control_new n credentials in_memory_audit_new)\<lparr> cp_tenants := insert_tenants (c_tenants cfg') tenants_new \<rparr>,
       g_router = map build_service (c_services cfg'), g_catalogs = catalogs, g_ca = ca \<rparr>"
  then have g: "entries (cp_tokens (g_control (st_gateway st))) = []" "g_router (st_gateway st) = map build_service (c_services cfg)"
    "cp_tenants (g_control (st_gateway st)) = insert_tenants (c_tenants cfg) tenants_new"
    using assms(2) by (simp_all add: control_new_def tokens_new_def)
  have "\<not> tenants_is_empty (cp_tenants (g_control (st_gateway st)))" by (simp add: g insert_tenants_empty assms(3))
  from server_forwards_within_tenancy [OF assms(4) g(1) this assms(5,6)] obtain key owned svc p q where
    o: "tenants_owned (insert_tenants (c_tenants cfg) tenants_new) key = Some owned" "s_name svc \<in> owned"
    and svc: "svc \<in> set (map build_service (c_services cfg))" and url: "fp_url plan = upstream_url (s_upstream_base svc) p q"
    unfolding g by blast
  obtain sc where sc: "sc \<in> set (c_services cfg)" "svc = build_service sc" using svc by auto
  have "tenants_owned tenants_new key = None" by (simp add: tenants_owned_def tenants_new_def)
  then obtain targets where "map_of (rev (c_tenants cfg)) key = Some targets" "owned = set targets"
    using o(1) by (auto simp: insert_tenants_owned split: option.splits)
  then have "(key, targets) \<in> set (c_tenants cfg)" "sc_name sc \<in> set targets"
    using o(2) sc by (auto dest!: map_of_SomeD simp: build_service_def)
  moreover have "fp_url plan = upstream_url (sc_upstream_base sc) p q" using url sc(2) by (simp add: build_service_def)
  ultimately show ?thesis using sc(1) by blast
qed

section \<open>A concrete configuration\<close>

definition demo_config :: config where
  "demo_config = \<lparr> c_proxy_addr = ''127.0.0.1:9090'', c_admin_addr = ''127.0.0.1:9091'', c_services =
     [\<lparr> sc_name = ''gh'', sc_host = ''api.example.com'', sc_upstream_base = ''https://up.example.com'', sc_flavor = None,
        sc_consumer_address = None, sc_protocol = None, sc_path_template = None, sc_catalog = [],
        sc_catalog_openapi = None, sc_outbound = CBearer ''pat'' \<rparr>],
     c_credentials = [(''pat'', ''s3cret'')], c_providers = [], c_tenants = [(''team'', [''gh''])], c_tls = None,
     c_audit_log = None \<rparr>"

definition demo_world :: "(unit, unit) world" where
  "demo_world = \<lparr> w_read = (\<lambda>_. Inr []), w_config_json = (\<lambda>_. Inr demo_config), w_spec_json = (\<lambda>_. Inr Null),
     w_post = (\<lambda>_ _. Inl []), w_decode = Inr, w_to_key = (\<lambda>_. Inr ()), w_build_tls = (\<lambda>_ _. Inr ()),
     w_audit_ok = (\<lambda>_. Inr ()), w_addr = Inr \<rparr>"

definition demo_provider_env :: "unit provider_env" where
  "demo_provider_env = \<lparr> b64_url_no_pad = id, b64_standard_decode = Inr, rsa_from_pkcs8 = (\<lambda>_. Inr ()),
     rsa_sign = (\<lambda>_ m. Inr m) \<rparr>"

lemma demo_startup:
  obtains st where "serve_setup plain_env demo_provider_env demo_world ''c.json'' 0 0 = Inr st" "st_gateway st = empty_gateway"
proof -
  have c: "config_load demo_world ''c.json'' = Inr demo_config"
    by (simp add: config_load_def demo_world_def and_then_def map_err_def)
  have s: "map build_service (c_services demo_config) = [demo_service]" by code_simp
  have v: "build_credentials plain_env demo_provider_env demo_world demo_config 0
      = Inr (InMemoryStore (in_memory_insert ''pat'' ''s3cret'' in_memory_new))"
    by (simp add: build_credentials_def demo_config_def secret_new_def)
  have "build_audit demo_world demo_config = Inr ()" "build_catalogs demo_world (c_services demo_config) [] = Inr []"
    "build_tls demo_world (c_tls demo_config) = Inr (None, [])" "w_addr demo_world a = Inr a"
    "insert_tenants (c_tenants demo_config) tenants_new = tenants_insert ''team'' [''gh''] tenants_new" for a
    by (simp_all add: build_audit_def build_tls_def demo_config_def demo_world_def)
  with c s v show thesis
    by (intro that [of "\<lparr> st_gateway = empty_gateway, st_proxy_addr = c_proxy_addr demo_config,
          st_admin_addr = c_admin_addr demo_config, st_tls = None \<rparr>"])
      (simp_all add: serve_setup_def and_then_def Let_def with_ca_def with_catalogs_def
        gateway_new_def control_new_def empty_gateway_def demo_gateway_def)
qed

theorem startup_reflects_config_witness:
  "\<exists>st. serve_setup plain_env demo_provider_env demo_world ''c.json'' 0 0 = Inr st
    \<and> tenants_owned (cp_tenants (g_control (st_gateway st))) ''team'' = Some {''gh''}"
proof -
  obtain st where st: "serve_setup plain_env demo_provider_env demo_world ''c.json'' 0 0 = Inr st" by (rule demo_startup)
  have "config_load demo_world ''c.json'' = Inr demo_config"
    by (simp add: config_load_def demo_world_def and_then_def map_err_def)
  with startup_reflects_config [OF st, of "''team''"] st show ?thesis by (auto simp: demo_config_def)
qed

theorem configured_tenant_isolation_witness:
  "\<exists>plan g' sc key targets. proxy_decide plain_env agent_request 5 minted_gateway = Some (Send plan, g')
    \<and> sc \<in> set (c_services demo_config) \<and> (key, targets) \<in> set (c_tenants demo_config) \<and> sc_name sc \<in> set targets"
proof -
  obtain st where st: "serve_setup plain_env demo_provider_env demo_world ''c.json'' 0 0 = Inr st"
    and g: "st_gateway st = empty_gateway" by (rule demo_startup)
  have c: "config_load demo_world ''c.json'' = Inr demo_config"
    by (simp add: config_load_def demo_world_def and_then_def map_err_def)
  have t: "c_tenants demo_config \<noteq> []" by (simp add: demo_config_def)
  obtain plan g' where d: "proxy_decide plain_env agent_request 5 minted_gateway = Some (Send plan, g')"
    by (rule agent_request_sent)
  from configured_tenant_isolation [OF st c t mint_run [folded g] d] d show ?thesis by blast
qed

end
