(* ===== verification/MintCommand.thy ===== *)
theory MintCommand
  imports Cli
begin

text \<open>
  The \<^verbatim>\<open>mint\<close> subcommand of \<^verbatim>\<open>cli/src/main.rs\<close>, alone and against the admin listener of \<open>Server\<close>. The file
  system, the JSON codecs, the printing of a status and the HTTP client are parameters.
\<close>

section \<open>The subcommand\<close>

record mint_args =
  ma_admin_url :: string
  ma_policy :: string
  ma_ttl :: u64

text \<open>
  \<open>mc_post\<close> is the request with its JSON body and the awaited response: its status and what decoding its
  body yields. \<open>mc_pretty\<close> is \<^verbatim>\<open>serde_json::to_string_pretty\<close>.
\<close>

record mint_client =
  mc_read :: "string \<Rightarrow> string + string"
  mc_policy_json :: "string \<Rightarrow> string + policy"
  mc_post :: "string \<Rightarrow> policy \<Rightarrow> u64 \<Rightarrow> string + nat \<times> (string + mint_response)"
  mc_status :: "nat \<Rightarrow> string"
  mc_pretty :: "mint_response \<Rightarrow> string + string"

text \<open>The result is the printed line or the error.\<close>

definition mint_command :: "mint_client \<Rightarrow> mint_args \<Rightarrow> string + string" where
  "mint_command mc args =
     and_then (map_err (\<lambda>e. ''read policy '' @ ma_policy args @ '': '' @ e) (mc_read mc (ma_policy args))) (\<lambda>text.
     and_then (map_err (\<lambda>e. ''parse policy '' @ ma_policy args @ '': '' @ e) (mc_policy_json mc text)) (\<lambda>pol.
     let url = trim_end_matches (CHR ''/'') (ma_admin_url args) @ ''/mint'' in
     and_then (mc_post mc url pol (ma_ttl args)) (\<lambda>(status, body).
     if \<not> (200 \<le> status \<and> status < 300) then Inl (''mint failed: HTTP '' @ mc_status mc status)
     else and_then body (\<lambda>minted. mc_pretty mc minted))))"

section \<open>Against the admin listener\<close>

text \<open>
  An exchange with a gateway: \<open>path_of\<close> is the path of a URL, \<open>body_of\<close> the JSON body and \<open>json_mint\<close> the
  server's extractor; the client sends no other header. What it decodes is the response of the handler.
\<close>

definition mint_message :: "'h env \<Rightarrow> (string \<Rightarrow> string) \<Rightarrow> (policy \<Rightarrow> u64 \<Rightarrow> bytes) \<Rightarrow> string \<Rightarrow> policy \<Rightarrow> u64 \<Rightarrow> 'h http_request" where
  "mint_message E path_of body_of url pol ttl = \<lparr> rq_method = ''POST'', rq_path = path_of url, rq_query = None,
     rq_headers = headers_new E, rq_body = Some (body_of pol ttl), rq_on_upgrade = False \<rparr>"

definition decoded_mint :: "'h response \<Rightarrow> nat \<times> (string + mint_response)" where
  "decoded_mint r = (rs_status r, case rs_payload r of MintBody m \<Rightarrow> Inr m | _ \<Rightarrow> Inl ''unexpected body'')"

definition admin_exchange ::
  "'h env \<Rightarrow> (string \<Rightarrow> string) \<Rightarrow> (policy \<Rightarrow> u64 \<Rightarrow> bytes) \<Rightarrow> ('h http_request \<Rightarrow> nat + policy \<times> u64)
   \<Rightarrow> ('h http_request \<Rightarrow> nat + string) \<Rightarrow> u64 \<Rightarrow> gateway \<Rightarrow> string \<Rightarrow> policy \<Rightarrow> u64
   \<Rightarrow> (nat \<times> (string + mint_response)) \<times> gateway" where
  "admin_exchange E path_of body_of json_mint json_revoke now g url pol ttl =
     map_prod decoded_mint id
       (admin_router E json_mint json_revoke (mint_message E path_of body_of url pol ttl) now g)"

lemma no_tenant_header: "http_laws E \<Longrightarrow> tenant_header E (headers_new E) = None"
  by (simp add: tenant_header_def http_get header_values_new)

lemma trim_end_matches_base: "base = [] \<or> last base \<noteq> CHR ''/'' \<Longrightarrow> trim_end_matches (CHR ''/'') (base @ replicate n (CHR ''/'')) = base"
proof -
  assume "base = [] \<or> last base \<noteq> CHR ''/''"
  then have "dropWhile ((=) (CHR ''/'')) (rev base) = rev base"
    by (cases "base = []") (auto simp: hd_rev intro!: dropWhile_hd)
  moreover have "dropWhile ((=) (CHR ''/'')) (replicate n (CHR ''/'') @ rev base) = dropWhile ((=) (CHR ''/'')) (rev base)"
    by (induction n) auto
  ultimately show ?thesis by (simp add: trim_end_matches_def)
qed

section \<open>Property\<close>

text \<open>C40. The \<^verbatim>\<open>mint\<close> subcommand against a running server, however many slashes end the admin URL: it prints the response
  of the mint that the gateway performs for the policy of the file and the requested seconds, without a
  tenant; when the policy does not pass the validation, the subcommand fails with the server's 403 and the
  gateway is unchanged. It names no tenant, so against a server with tenants it always fails.\<close>

theorem mint_command_mints:
  assumes "http_laws E" "base \<noteq> []" "last base \<noteq> CHR ''/''" "path_of (base @ ''/mint'') = ''/mint''"
    and "mc_read mc file = Inr txt" "mc_policy_json mc txt = Inr pol"
    and "json_mint (mint_message E path_of body_of (base @ ''/mint'') pol ttl) = Inr (pol, ttl)"
    and "mc_post mc (base @ ''/mint'') pol ttl
      = Inr (fst (admin_exchange E path_of body_of json_mint json_revoke now g (base @ ''/mint'') pol ttl))"
  shows "mint_command mc \<lparr> ma_admin_url = base @ replicate n (CHR ''/''), ma_policy = file, ma_ttl = ttl \<rparr> =
      (case fst (mint_checked E pol ttl None now g) of
         Inr m \<Rightarrow> mc_pretty mc m
       | Inl e \<Rightarrow> Inl (''mint failed: HTTP '' @ mc_status mc 403))
    \<and> snd (admin_exchange E path_of body_of json_mint json_revoke now g (base @ ''/mint'') pol ttl)
      = snd (mint_checked E pol ttl None now g)
    \<and> (tenants_is_empty (cp_tenants (g_control g)) \<or> fst (mint_checked E pol ttl None now g) = Inl MissingTenant
         \<and> snd (mint_checked E pol ttl None now g) = g)"
proof -
  obtain x g' where x: "mint_checked E pol ttl None now g = (x, g')" by fastforce
  have "admin_router E json_mint json_revoke (mint_message E path_of body_of (base @ ''/mint'') pol ttl) now g
      = mint_handler E (headers_new E) pol ttl now g"
    using assms(4,7) by (simp add: admin_router_def mint_message_def)
  then have ex: "admin_exchange E path_of body_of json_mint json_revoke now g (base @ ''/mint'') pol ttl =
      (case x of Inr m \<Rightarrow> (200, Inr m) | Inl e \<Rightarrow> (403, Inl ''unexpected body''), g')"
    using x by (cases x) (simp_all add: admin_exchange_def mint_handler_def no_tenant_header [OF assms(1)]
        decoded_mint_def error_response_def)
  have trim: "trim_end_matches (CHR ''/'') (base @ replicate n (CHR ''/'')) = base"
    using assms(3) by (simp add: trim_end_matches_base)
  have "mint_command mc \<lparr> ma_admin_url = base @ replicate n (CHR ''/''), ma_policy = file, ma_ttl = ttl \<rparr> =
      (case x of Inr m \<Rightarrow> mc_pretty mc m | Inl e \<Rightarrow> Inl (''mint failed: HTTP '' @ mc_status mc 403))"
    using assms(5,6,8) by (cases x) (simp_all add: mint_command_def and_then_def map_err_def trim ex)
  moreover have "check_tenant g pol None = Some MissingTenant" if "\<not> tenants_is_empty (cp_tenants (g_control g))"
    using that by (simp add: check_tenant_def)
  then have "tenants_is_empty (cp_tenants (g_control g)) \<or> x = Inl MissingTenant \<and> g' = g"
    using x unfolding mint_checked_def by auto
  ultimately show ?thesis by (simp add: ex x)
qed

text \<open>A client over the gateway with one tenant, and over the same gateway without tenants.\<close>

definition open_gateway :: gateway where
  "open_gateway = empty_gateway\<lparr> g_control := (g_control empty_gateway)\<lparr> cp_tenants := tenants_new \<rparr> \<rparr>"

definition demo_exchange :: "gateway \<Rightarrow> string \<Rightarrow> policy \<Rightarrow> u64 \<Rightarrow> (nat \<times> (string + mint_response)) \<times> gateway" where
  "demo_exchange = admin_exchange plain_env (\<lambda>_. ''/mint'') (\<lambda>_ _. []) (\<lambda>_. Inr (demo_policy, 60)) (\<lambda>_. Inl 400) 3"

definition demo_mint_client :: "gateway \<Rightarrow> mint_client" where
  "demo_mint_client g = \<lparr> mc_read = (\<lambda>_. Inr []), mc_policy_json = (\<lambda>_. Inr demo_policy),
     mc_post = (\<lambda>url pol ttl. Inr (fst (demo_exchange g url pol ttl))), mc_status = dec,
     mc_pretty = (\<lambda>m. Inr (mr_token m)) \<rparr>"

lemma http_laws_plain_env: "http_laws plain_env"
  using http_laws_list_env unfolding http_laws_def header_values_def plain_env_def by simp

theorem mint_command_mints_witness:
  "mint_command (demo_mint_client open_gateway) \<lparr> ma_admin_url = ''http://a//'', ma_policy = ''p.json'', ma_ttl = 60 \<rparr>
      = Inr ''toktok''
    \<and> mint_command (demo_mint_client empty_gateway) \<lparr> ma_admin_url = ''http://a//'', ma_policy = ''p.json'', ma_ttl = 60 \<rparr>
      = Inl ''mint failed: HTTP 403''"
proof -
  have b: "(''http://a'' :: string) \<noteq> []" "last ''http://a'' \<noteq> CHR ''/''" by simp_all
  have r: "mc_read (demo_mint_client g) ''p.json'' = Inr []" "mc_policy_json (demo_mint_client g) [] = Inr demo_policy"
    "mc_post (demo_mint_client g) (''http://a'' @ ''/mint'') demo_policy 60
      = Inr (fst (admin_exchange plain_env (\<lambda>_. ''/mint'') (\<lambda>_ _. []) (\<lambda>_. Inr (demo_policy, 60)) (\<lambda>_. Inl 400) 3 g
          (''http://a'' @ ''/mint'') demo_policy 60))" for g
    by (simp_all add: demo_mint_client_def demo_exchange_def)
  have m: "mint_command (demo_mint_client g) \<lparr> ma_admin_url = ''http://a//'', ma_policy = ''p.json'', ma_ttl = 60 \<rparr> =
      (case fst (mint_checked plain_env demo_policy 60 None 3 g) of
         Inr m \<Rightarrow> mc_pretty (demo_mint_client g) m
       | Inl e \<Rightarrow> Inl (''mint failed: HTTP '' @ mc_status (demo_mint_client g) 403))" for g
    using mint_command_mints [OF http_laws_plain_env b refl r(1,2) refl r(3), where n = 2]
    by (simp add: numeral_2_eq_2)
  have "case fst (mint_checked plain_env demo_policy 60 None 3 open_gateway) of Inr m \<Rightarrow> mr_token m = ''toktok'' | Inl _ \<Rightarrow> False"
    "case fst (mint_checked plain_env demo_policy 60 None 3 empty_gateway) of Inr m \<Rightarrow> False | Inl _ \<Rightarrow> True"
    "dec 403 = ''403''"
    by code_simp+
  with m show ?thesis by (auto simp: demo_mint_client_def split: sum.splits)
qed

end
