(* ===== verification/Availability.thy ===== *)
theory Availability
  imports Server
begin

text \<open>
  The converse of mediation: what an agent can count on. The token table of a running server is a run of the
  abstract table of \<open>Tokens\<close> (a simulation), so a live token survives whatever happens on both
  listeners until it expires or is revoked; and a request that presents one, and that the policy allows,
  is forwarded.
\<close>

section \<open>The server runs the token table\<close>

lemma token_run_append: "token_run E ts evs ts' \<Longrightarrow> token_run E ts' evs' ts'' \<Longrightarrow> token_run E ts (evs @ evs') ts''"
  by (induction rule: token_run.induct) (auto intro: run_cons)

lemma token_run_one: "token_step E ts ev ts' \<Longrightarrow> token_run E ts [ev] ts'"
  by (rule run_cons [OF _ run_nil])

definition only_mints :: "token_event list \<Rightarrow> bool" where
  "only_mints evs \<longleftrightarrow> list_all (\<lambda>ev. case ev of MintBearer _ _ _ \<Rightarrow> True | MintSigV4 _ _ _ \<Rightarrow> True | _ \<Rightarrow> False) evs"

lemma only_mints_simps [simp]:
  "only_mints []" "only_mints (xs @ ys) \<longleftrightarrow> only_mints xs \<and> only_mints ys"
  "only_mints (MintBearer pol ttl now # xs) \<longleftrightarrow> only_mints xs" "only_mints (MintSigV4 pol ttl now # xs) \<longleftrightarrow> only_mints xs"
  "\<not> only_mints (Revoke k # xs)" "\<not> only_mints (Sweep t # xs)"
  by (simp_all add: only_mints_def)

text \<open>A run that only mints.\<close>

definition mints :: "'h env \<Rightarrow> tokens \<Rightarrow> tokens \<Rightarrow> bool" where
  "mints E ts ts' \<longleftrightarrow> (\<exists>evs. token_run E ts evs ts' \<and> only_mints evs)"

lemma mints_refl [simp]: "mints E ts ts"
  unfolding mints_def by (intro exI [of _ "[]"]) (simp add: run_nil)

lemma mints_trans: "mints E ts ts' \<Longrightarrow> mints E ts' ts'' \<Longrightarrow> mints E ts ts''"
  unfolding mints_def by (metis only_mints_simps(2) token_run_append)

lemma mints_bearer: "tokens_mint E pol ttl now ts = (r, ts') \<Longrightarrow> mints E ts ts'"
  unfolding mints_def by (intro exI [of _ "[MintBearer pol ttl now]"]) (simp add: token_run_one step_mint)

lemma mints_sigv4: "mint_sigv4 E pol ttl now ts = (r, ts') \<Longrightarrow> mints E ts ts'"
  unfolding mints_def by (intro exI [of _ "[MintSigV4 pol ttl now]"]) (simp add: token_run_one step_mint_sigv4)

lemma mint_service_auth_mints:
  assumes "mint_service_auth E svc token pol now ttl ts = (r, ts')" shows "mints E ts ts'"
  using assms by (auto simp: mint_service_auth_def mints_sigv4 split: outbound.splits prod.splits)

lemma provision_loop_mints:
  "provision_loop E any_target named token pol now ttl ss ts = (out, ts') \<Longrightarrow> mints E ts ts'"
proof (induction ss arbitrary: ts out)
  case (Cons s ss)
  show ?case
  proof (cases "any_target \<or> s_name s \<in> named")
    case True
    obtain ma ts1 where m: "mint_service_auth E s token pol now ttl ts = (ma, ts1)" by fastforce
    obtain out1 ts2 where l: "provision_loop E any_target named token pol now ttl ss ts1 = (out1, ts2)" by fastforce
    have "ts2 = ts'" using Cons.prems True m l by (simp split: prod.splits)
    with l have "mints E ts1 ts'" by (intro Cons.IH) simp
    with mint_service_auth_mints [OF m] show ?thesis by (rule mints_trans)
  qed (use Cons in simp)
qed simp

lemma provision_mints:
  assumes "provision E token now g = (d, g')" shows "mints E (cp_tokens (g_control g)) (cp_tokens (g_control g'))"
proof (cases "resolve_full (cp_tokens (g_control g)) token now")
  case None
  with assms show ?thesis by (auto simp: provision_def)
next
  case (Some pe)
  obtain pol e where pe: "pe = (pol, e)" by (cases pe)
  obtain svcs ts where p: "provisionable_services E (g_router g) token pol now e (cp_tokens (g_control g)) = (svcs, ts)"
    by fastforce
  then have "cp_tokens (g_control g') = ts" using assms Some pe by (auto simp: provision_def)
  moreover have "mints E (cp_tokens (g_control g)) ts"
    using p by (auto simp: provisionable_services_def split: prod.splits dest: provision_loop_mints)
  ultimately show ?thesis by simp
qed

lemma provision_handler_mints:
  assumes "provision_handler E headers now g = (r, g')"
  shows "mints E (cp_tokens (g_control g)) (cp_tokens (g_control g'))"
proof (cases "token_from_headers E headers")
  case None
  with assms show ?thesis by (simp add: provision_handler_def)
next
  case (Some token)
  obtain d g1 where d: "provision E token now g = (d, g1)" by fastforce
  then have "g1 = g'" using assms Some by (cases d) (simp_all add: provision_handler_def)
  with provision_mints [OF d] show ?thesis by simp
qed

text \<open>The events of the table that an event of the server may cause.\<close>

fun causes :: "('h http_request \<Rightarrow> nat + string) \<Rightarrow> 'h server_event \<Rightarrow> token_event list \<Rightarrow> bool" where
  "causes json_revoke (ProxyEvent request now) evs = only_mints evs"
| "causes json_revoke (AdminEvent request now) evs =
     (only_mints evs \<or> (\<exists>k. json_revoke request = Inr k \<and> evs = [Revoke k]))"
| "causes json_revoke (SweepEvent now) evs = (evs = [Sweep now])"

lemma proxy_router_mints:
  assumes "proxy_router E client relay request now g = Some (r, g')"
  shows "mints E (cp_tokens (g_control g)) (cp_tokens (g_control g'))"
proof -
  obtain r1 g1 where p: "provision_handler E (rq_headers request) now g = (r1, g1)" by fastforce
  consider "g' = g" | "g' = g1" | "proxy_handler E client relay request now g = Some (r, g')"
    using assms p by (auto simp: proxy_router_def split: if_splits)
  then show ?thesis
    using provision_handler_mints [OF p] by cases (simp_all add: proxy_handler_effect(2))
qed

lemma mint_handler_mints: "mints E (cp_tokens (g_control g)) (cp_tokens (g_control (snd (mint_handler E headers pol ttl now g))))"
proof -
  obtain x g1 where m: "mint_checked E pol ttl (tenant_header E headers) now g = (x, g1)" by fastforce
  show ?thesis
  proof (cases x)
    case (Inl e)
    then have "g1 = g" using m unfolding mint_checked_cases by (auto split: if_splits)
    with m Inl show ?thesis by (simp add: mint_handler_def)
  next
    case (Inr y)
    obtain ts where t: "tokens_mint E pol ttl now (cp_tokens (g_control g)) = (y, ts)"
      "g1 = g\<lparr> g_control := (g_control g)\<lparr> cp_tokens := ts \<rparr> \<rparr>"
      by (rule gateway_mint_tokens [OF mint_checked_Inr(3) [OF m [unfolded Inr]]])
    with m Inr mints_bearer [OF t(1)] show ?thesis by (simp add: mint_handler_def)
  qed
qed

lemma admin_router_run:
  assumes "admin_router E json_mint json_revoke request now g = (r, g')"
  obtains evs where "token_run E (cp_tokens (g_control g)) evs (cp_tokens (g_control g'))"
    "causes json_revoke (AdminEvent request now) evs"
proof -
  have g': "g' = snd (admin_router E json_mint json_revoke request now g)" using assms by simp
  have "g' = g \<or> (\<exists>pol ttl. g' = snd (mint_handler E (rq_headers request) pol ttl now g))
      \<or> (\<exists>k. json_revoke request = Inr k \<and> g' = snd (gateway_revoke k g))"
    unfolding g' admin_router_def by (auto simp: revoke_handler_def split: sum.split prod.split)
  then consider (mint) "mints E (cp_tokens (g_control g)) (cp_tokens (g_control g'))"
    | (revoke) k where "json_revoke request = Inr k" "g' = snd (gateway_revoke k g)"
    using mint_handler_mints by (metis mints_refl)
  then show thesis
  proof cases
    case mint
    then show ?thesis using that by (auto simp: mints_def)
  next
    case revoke
    obtain b ts where r: "Tokens.revoke k (cp_tokens (g_control g)) = (b, ts)" by fastforce
    have "cp_tokens (g_control g') = ts" by (simp add: revoke(2) gateway_revoke_def r)
    with token_run_one [OF step_revoke [OF r]] revoke(1) show ?thesis by (intro that [of "[Revoke k]"]) simp_all
  qed
qed

lemma server_step_run:
  assumes "server_step E client relay json_mint json_revoke g ev g'"
  obtains evs where "token_run E (cp_tokens (g_control g)) evs (cp_tokens (g_control g'))" "causes json_revoke ev evs"
  using assms
proof (cases rule: server_step.cases)
  case (on_proxy request now r)
  from proxy_router_mints [OF on_proxy(2)] that on_proxy(1) show thesis by (auto simp: mints_def)
next
  case (on_panic request now)
  then show thesis by (intro that [of "[]"]) (auto intro: run_nil)
next
  case (on_admin request now r)
  from admin_router_run [OF on_admin(2)] that on_admin(1) show thesis by metis
next
  case (on_sweep now n)
  obtain m ts where w: "sweep now (cp_tokens (g_control g)) = (m, ts)" by fastforce
  then have "cp_tokens (g_control g') = ts" using on_sweep(2) by (auto simp: sweep_expired_def)
  with token_run_one [OF step_sweep [OF w]] on_sweep(1) show thesis by (intro that [of "[Sweep now]"]) simp_all
qed

section \<open>Live tokens survive\<close>

text \<open>An event spares a key when it neither revokes it nor sweeps at or after its expiry.\<close>

fun spares :: "string \<Rightarrow> u64 \<Rightarrow> token_event \<Rightarrow> bool" where
  "spares k expt (Revoke k') = (k' \<noteq> k)"
| "spares k expt (Sweep now) = (now < expt)"
| "spares k expt _ = True"

lemma entry_survives:
  assumes "token_run E ts evs ts'" "tokens_inv ts" "map_of (entries ts) k = Some e"
    and "list_all (spares k (t_expires_at_ms e)) evs" "\<And>n. draws ts \<le> n \<Longrightarrow> k \<noteq> mint_key E n \<and> k \<noteq> sigv4_key E n"
  shows "tokens_inv ts' \<and> map_of (entries ts') k = Some e \<and> draws ts \<le> draws ts'"
  using assms
proof (induction rule: token_run.induct)
  case (run_cons ts ev ts1 evs ts2)
  have "tokens_inv ts1 \<and> map_of (entries ts1) k = Some e \<and> draws ts \<le> draws ts1"
    using run_cons.hyps(1)
  proof (cases rule: token_step.cases)
    case (step_mint pol ttl now r)
    with run_cons.prems mint_live [OF run_cons.prems(1) step_mint(2)] show ?thesis by simp
  next
    case (step_mint_sigv4 pol ttl now r)
    with run_cons.prems mint_sigv4_live [OF run_cons.prems(1) step_mint_sigv4(2)] show ?thesis by simp
  next
    case (step_revoke k' b)
    with run_cons.prems revoke_live [OF run_cons.prems(1) step_revoke(2)] show ?thesis by auto
  next
    case (step_sweep now n)
    with run_cons.prems sweep_live [OF run_cons.prems(1) step_sweep(2)] show ?thesis by (simp add: live_def)
  qed
  then have 1: "tokens_inv ts1" "map_of (entries ts1) k = Some e" and le: "draws ts \<le> draws ts1" by simp_all
  have "list_all (spares k (t_expires_at_ms e)) evs" using run_cons.prems(3) by simp
  from run_cons.IH [OF 1 this run_cons.prems(4)] le show ?case by auto
qed simp

fun event_spares :: "('h http_request \<Rightarrow> nat + string) \<Rightarrow> string \<Rightarrow> u64 \<Rightarrow> 'h server_event \<Rightarrow> bool" where
  "event_spares json_revoke k expt (ProxyEvent _ _) = True"
| "event_spares json_revoke k expt (AdminEvent request _) = (json_revoke request \<noteq> Inr k)"
| "event_spares json_revoke k expt (SweepEvent now) = (now < expt)"

lemma only_mints_spare: "only_mints evs \<Longrightarrow> list_all (spares k expt) evs"
proof (induction evs)
  case (Cons ev evs)
  then show ?case by (cases ev) simp_all
qed simp

lemma causes_spares: "causes json_revoke ev evs \<Longrightarrow> event_spares json_revoke k expt ev \<Longrightarrow> list_all (spares k expt) evs"
  by (cases ev) (auto simp: only_mints_spare)

lemma server_entry_survives:
  assumes "server_run E client relay json_mint json_revoke g evs g'" "tokens_inv (cp_tokens (g_control g))"
    and "map_of (entries (cp_tokens (g_control g))) k = Some e"
    and "list_all (event_spares json_revoke k (t_expires_at_ms e)) evs"
    and "\<And>n. draws (cp_tokens (g_control g)) \<le> n \<Longrightarrow> k \<noteq> mint_key E n \<and> k \<noteq> sigv4_key E n"
  shows "map_of (entries (cp_tokens (g_control g'))) k = Some e"
  using assms
proof (induction rule: server_run.induct)
  case (run_step g ev g' evs g'')
  obtain tevs where t: "token_run E (cp_tokens (g_control g)) tevs (cp_tokens (g_control g'))" "causes json_revoke ev tevs"
    by (rule server_step_run [OF run_step.hyps(1)])
  have "list_all (spares k (t_expires_at_ms e)) tevs"
    using causes_spares [OF t(2)] run_step.prems(3) by simp
  from entry_survives [OF t(1) run_step.prems(1,2) this run_step.prems(4)]
  have "tokens_inv (cp_tokens (g_control g'))" "map_of (entries (cp_tokens (g_control g'))) k = Some e"
    "draws (cp_tokens (g_control g)) \<le> draws (cp_tokens (g_control g'))" by simp_all
  with run_step.prems(3,4) show ?case by (intro run_step.IH) simp_all
qed simp

section \<open>Allowed requests are forwarded\<close>

text \<open>What a service's stance needs at the moment of the request.\<close>

definition credential_ready :: "'h env \<Rightarrow> service \<Rightarrow> credential_store \<Rightarrow> bool" where
  "credential_ready E svc store =
     (case s_outbound svc of
        Passthrough \<Rightarrow> True
      | Bearer cred \<Rightarrow>
          (case store_resolve store cred of Some s \<Rightarrow> value_from_str E (''Bearer '' @ s) \<noteq> None | None \<Rightarrow> False)
      | Header nm cred \<Rightarrow> name_from_bytes E nm \<noteq> None \<and>
          (case store_resolve store cred of Some s \<Rightarrow> value_from_str E s \<noteq> None | None \<Rightarrow> False)
      | OutSigV4 cred _ _ _ \<Rightarrow> store_resolve store cred \<noteq> None)"

lemma resolve_header_value_ready:
  assumes "store_resolve (cp_credentials c) cred = Some s" "value_from_str E (pfx @ s) \<noteq> None"
  obtains v where "resolve_header_value E act cred pfx now c = (Inr v, c)"
  using assms by (auto simp: resolve_header_value_def expose_def)

lemma apply_outbound_ready:
  assumes "credential_ready E svc (cp_credentials c)" "ascii (q_query req)"
  shows "\<exists>h' d. apply_outbound E svc act req h now c = Some (Inr (h', d), c)"
proof (cases "s_outbound svc")
  case Passthrough
  then show ?thesis by (simp add: apply_outbound_def)
next
  case (Bearer cred)
  with assms(1) obtain s where "store_resolve (cp_credentials c) cred = Some s" "value_from_str E (''Bearer '' @ s) \<noteq> None"
    by (auto simp: credential_ready_def split: option.splits)
  then obtain v where "resolve_header_value E act cred ''Bearer '' now c = (Inr v, c)" by (rule resolve_header_value_ready)
  with Bearer show ?thesis by (simp add: apply_outbound_def)
next
  case (Header nm cred)
  with assms(1) obtain s n where n: "name_from_bytes E nm = Some n"
    and s: "store_resolve (cp_credentials c) cred = Some s" "value_from_str E ([] @ s) \<noteq> None"
    by (auto simp: credential_ready_def split: option.splits)
  from s obtain v where "resolve_header_value E act cred [] now c = (Inr v, c)" by (rule resolve_header_value_ready)
  with Header n show ?thesis by (simp add: apply_outbound_def)
next
  case (OutSigV4 cred akid rgn aws)
  with assms(1) obtain s where s: "store_resolve (cp_credentials c) cred = Some s"
    by (auto simp: credential_ready_def)
  obtain sg where "sign E \<lparr> cr_access_key_id = akid, cr_secret_access_key = s \<rparr> rgn aws
      (q_method req) (host_of (s_upstream_base svc)) (q_path req) (q_query req) (q_body req) now = Some sg"
    using sign_total [OF assms(2)] by metis
  with OutSigV4 s show ?thesis by (simp add: apply_outbound_def expose_def Let_def)
qed

lemma handle_authenticated_allowed:
  assumes "route services (case extract_host E (q_headers req) of Some h \<Rightarrow> h | None \<Rightarrow> []) = Some svc"
    and "canonicalize (q_path req) = Some (Inr cp)" "normalize E svc req (cp_decoded cp) = Some act"
    and "is_allow (decide act pol)" "credential_ready E svc (cp_credentials c)" "ascii (q_query req)"
  obtains plan c' where "handle_authenticated E services req pol source now c = Some (Forward plan, c')"
    "fp_url plan = upstream_url (s_upstream_base svc) (cp_encoded cp) (q_query req)"
proof -
  let ?req = "req\<lparr> q_path := cp_encoded cp \<rparr>"
  obtain obs where d: "decide act pol = Allow obs" using assms(4) by (cases "decide act pol") simp_all
  have "ascii (q_query ?req)" using assms(6) by simp
  from apply_outbound_ready [OF assms(5) this] obtain h' det where
    "apply_outbound E svc act ?req (sanitize_headers E (q_headers ?req) source) now c = Some (Inr (h', det), c)" by blast
  then have "\<exists>plan c'. handle_authenticated E services req pol source now c = Some (Forward plan, c')
      \<and> fp_url plan = upstream_url (s_upstream_base svc) (cp_encoded cp) (q_query req)"
    using assms(1-3) d by (simp add: handle_authenticated_def Let_def plan_forward_def)
  then show thesis using that by blast
qed

section \<open>Properties\<close>

text \<open>The token table of a running server is an execution of the abstract table: every event on the
  listeners and of the sweeper is matched by events of the table of the kind it may cause (requests on the
  proxy listener only mint, an administrator's request mints or revokes the token it names, a tick sweeps).\<close>

theorem server_runs_token_table:
  assumes "server_run E client relay json_mint json_revoke g evs g'"
  shows "\<exists>tevs. token_run E (cp_tokens (g_control g)) (concat tevs) (cp_tokens (g_control g'))
    \<and> list_all2 (causes json_revoke) evs tevs"
  using assms
proof (induction rule: server_run.induct)
  case (run_start g)
  show ?case by (intro exI [of _ "[]"]) (simp add: run_nil)
next
  case (run_step g ev g' evs g'')
  obtain t where t: "token_run E (cp_tokens (g_control g)) t (cp_tokens (g_control g'))" "causes json_revoke ev t"
    by (rule server_step_run [OF run_step.hyps(1)])
  obtain ts where ts: "token_run E (cp_tokens (g_control g')) (concat ts) (cp_tokens (g_control g''))"
    "list_all2 (causes json_revoke) evs ts" using run_step.IH by blast
  show ?case
    using t ts by (intro exI [of _ "t # ts"]) (simp add: token_run_append)
qed

theorem server_runs_token_table_witness:
  "\<exists>tevs. token_run plain_env (cp_tokens (g_control empty_gateway)) (concat tevs) (cp_tokens (g_control minted_gateway))
    \<and> list_all2 (causes (\<lambda>_. Inl 400)) [AdminEvent mint_request 3] tevs"
  using server_runs_token_table [OF mint_run] .

text \<open>C5. A minted token keeps working: once a mint has answered with a token, then after any further
  traffic on both listeners and any sweeps, as long as no administrator revokes that token and every
  sweep so far read the clock before the expiry, a request that presents it before its expiry, whose host is
  configured, whose path is canonicalizable, whose action the token's policy allows and whose service
  has its credential ready is forwarded to that service. The premise on the later draws says that no later
  mint draws the same random key.\<close>

theorem minted_token_keeps_working:
  assumes "server_inv g" "mint_checked E pol ttl tenant t0 g = (Inr m, g1)"
    and "server_run E client relay json_mint json_revoke g1 evs g2"
    and "list_all (event_spares json_revoke (mr_token m) (mr_expires_at_ms m)) evs"
    and "\<And>n. draws (cp_tokens (g_control g1)) \<le> n \<Longrightarrow> mr_token m \<noteq> mint_key E n \<and> mr_token m \<noteq> sigv4_key E n"
    and "extract_auth E (q_headers req) = Some (mr_token m, source)"
    and "\<nexists>auth. header_value E (q_headers req) ''authorization'' = Some auth \<and> starts_with ''AWS4-HMAC-SHA256'' auth"
    and "now < mr_expires_at_ms m"
    and "route (g_router g) (case extract_host E (q_headers req) of Some h \<Rightarrow> h | None \<Rightarrow> []) = Some svc"
    and "canonicalize (q_path req) = Some (Inr cp)" "normalize E svc req (cp_decoded cp) = Some act"
    and "is_allow (decide act pol)" "credential_ready E svc (cp_credentials (g_control g))" "ascii (q_query req)"
  shows "\<exists>plan g3. handle E req now g2 = Some (Forward plan, g3)
    \<and> fp_url plan = upstream_url (s_upstream_base svc) (cp_encoded cp) (q_query req)"
proof -
  have adm: "admissible g g1" by (rule mint_effect [OF assms(2)])
  with assms(1) have inv1: "server_inv g1" by (simp add: admissible_def)
  from server_run_admissible [OF assms(3) this] have "admissible g1 g2" .
  with adm have same: "g_router g2 = g_router g" "cp_credentials (g_control g2) = cp_credentials (g_control g)"
    by (auto simp: admissible_def config_same_def)
  have i: "tokens_inv (cp_tokens (g_control g))" "tokens_inv (cp_tokens (g_control g1))"
    using assms(1) inv1 by (simp_all add: server_inv_def)
  obtain ts where t: "tokens_mint E pol ttl t0 (cp_tokens (g_control g)) = (m, ts)"
    and g1: "g1 = g\<lparr> g_control := (g_control g)\<lparr> cp_tokens := ts \<rparr> \<rparr>"
    by (rule gateway_mint_tokens [OF mint_checked_Inr(3) [OF assms(2)]])
  let ?e = "\<lparr> t_policy = pol, t_expires_at_ms = mr_expires_at_ms m, t_secret = None \<rparr>"
  have "map_of (entries (cp_tokens (g_control g1))) (mr_token m) = Some ?e"
    using mint_live [OF i(1) t] by (simp add: g1)
  from server_entry_survives [OF assms(3) i(2) this] assms(4,5)
  have "map_of (entries (cp_tokens (g_control g2))) (mr_token m) = Some ?e" by simp
  then have "resolve (cp_tokens (g_control g2)) (mr_token m) now = Some pol"
    using assms(8) by (simp add: resolve_live live_def)
  then have auth: "authenticate E (cp_tokens (g_control g2)) req now = Some (Inr (pol, source))"
    using assms(6,7) unfolding authenticate_eq by (simp add: authenticate_token_def split: option.split)
  obtain plan c' where "handle_authenticated E (g_router g) req pol source now (g_control g2) = Some (Forward plan, c')"
    "fp_url plan = upstream_url (s_upstream_base svc) (cp_encoded cp) (q_query req)"
    by (rule handle_authenticated_allowed [OF assms(9-12) _ assms(14), where c = "g_control g2"]) (simp_all add: same assms(13))
  with auth show ?thesis by (simp add: handle_def same)
qed

text \<open>UUIDs that differ: the first two draws make the token, the later ones nothing like it.\<close>

definition two_draws_env :: "header_list env" where
  "two_draws_env = list_env\<lparr> uuid_simple := (\<lambda>n. if n < 2 then ''tok'' else ''other'') \<rparr>"

theorem minted_token_keeps_working_witness:
  "\<exists>m g1 g2 plan g3. mint_checked two_draws_env demo_policy 60 (Some ''team'') 0 empty_gateway = (Inr m, g1)
    \<and> server_run two_draws_env (\<lambda>_. Inl ''down'') (\<lambda>_. BadGateway ''down'') (\<lambda>_. Inr (demo_policy, 60)) (\<lambda>_. Inl 400)
        g1 [AdminEvent mint_request 3, SweepEvent 50000] g2
    \<and> handle two_draws_env (demo_request\<lparr> q_headers := [(''host'', ''api.example.com''), (''x-hackamore-token'', ''toktok'')] \<rparr>)
        59999 g2 = Some (Forward plan, g3) \<and> fp_url plan = ''https://up.example.com/repos/a''"
proof -
  let ?E = two_draws_env
  let ?req = "demo_request\<lparr> q_headers := [(''host'', ''api.example.com''), (''x-hackamore-token'', ''toktok'')] \<rparr>"
  have "check_tenant empty_gateway demo_policy (Some ''team'') = None" "validate_catalog empty_gateway demo_policy = None"
    by code_simp+
  then obtain m g1 where m: "mint_checked ?E demo_policy 60 (Some ''team'') 0 empty_gateway = (Inr m, g1)"
    unfolding mint_checked_cases by auto
  have inv: "server_inv empty_gateway" by (simp add: empty_gateway_def gateway_new_def tokens_new_def server_inv_def tokens_inv_def)
  then have i: "tokens_inv (cp_tokens (g_control empty_gateway))" by (simp add: server_inv_def)
  obtain ts where t: "tokens_mint ?E demo_policy 60 0 (cp_tokens (g_control empty_gateway)) = (m, ts)"
    and g1: "g1 = empty_gateway\<lparr> g_control := (g_control empty_gateway)\<lparr> cp_tokens := ts \<rparr> \<rparr>"
    by (rule gateway_mint_tokens [OF mint_checked_Inr(3) [OF m]])
  have "draws (cp_tokens (g_control empty_gateway)) = 0" by (simp add: empty_gateway_def gateway_new_def tokens_new_def)
  with mint_live [OF i t] have tok: "mr_token m = ''toktok''" "mr_expires_at_ms m = 60000" "draws ts = 2"
    by (simp_all add: mint_key_def two_draws_env_def expiry_def sat_add_def sat_mul_def)
  have fresh: "mr_token m \<noteq> mint_key ?E n \<and> mr_token m \<noteq> sigv4_key ?E n" if "draws (cp_tokens (g_control g1)) \<le> n" for n
  proof -
    have u: "uuid_simple ?E n = ''other'' \<and> uuid_simple ?E (n + 1) = ''other''"
      using that tok(3) by (simp add: g1 two_draws_env_def)
    have "to_ascii_uppercase (''AKIAHACKAMORE'' @ take 10 ''other'') \<noteq> ''toktok''" by code_simp
    with u show ?thesis by (simp add: mint_key_def sigv4_key_def tok(1))
  qed
  obtain r g2 where a: "admin_router ?E (\<lambda>_. Inr (demo_policy, 60)) (\<lambda>_. Inl 400) mint_request 3 g1 = (r, g2)" by fastforce
  obtain n g3 where w: "sweep_expired 50000 g2 = (n, g3)" by fastforce
  have run: "server_run ?E (\<lambda>_. Inl ''down'') (\<lambda>_. BadGateway ''down'') (\<lambda>_. Inr (demo_policy, 60)) (\<lambda>_. Inl 400)
      g1 [AdminEvent mint_request 3, SweepEvent 50000] g3"
    by (rule run_step [OF on_admin [OF a] run_step [OF on_sweep [OF w] run_start]])
  have sp: "list_all (event_spares (\<lambda>_. Inl 400) (mr_token m) (mr_expires_at_ms m)) [AdminEvent mint_request 3, SweepEvent 50000]"
    by (simp add: tok)
  have auth: "extract_auth ?E (q_headers ?req) = Some (mr_token m, HackamoreHeader)"
    unfolding tok by code_simp
  have plain: "\<nexists>auth. header_value ?E (q_headers ?req) ''authorization'' = Some auth \<and> starts_with ''AWS4-HMAC-SHA256'' auth"
  proof -
    have "header_value ?E (q_headers ?req) ''authorization'' = None" by code_simp
    then show ?thesis by simp
  qed
  have t59: "59999 < mr_expires_at_ms m" by (simp add: tok)
  have route: "route (g_router empty_gateway) (case extract_host ?E (q_headers ?req) of Some h \<Rightarrow> h | None \<Rightarrow> []) = Some demo_service"
    and cp: "canonicalize (q_path ?req) = Some (Inr \<lparr> cp_decoded = ''/repos/a'', cp_encoded = ''/repos/a'' \<rparr>)"
    and ready: "credential_ready ?E demo_service (cp_credentials (g_control empty_gateway))"
    and asc: "ascii (q_query ?req)"
    by code_simp+
  have "case normalize ?E demo_service ?req ''/repos/a'' of Some a \<Rightarrow> is_allow (decide a demo_policy) | None \<Rightarrow> False"
    by code_simp
  then obtain act where act: "normalize ?E demo_service ?req ''/repos/a'' = Some act" "is_allow (decide act demo_policy)"
    by (auto split: option.splits)
  have act': "normalize ?E demo_service ?req (cp_decoded \<lparr> cp_decoded = ''/repos/a'', cp_encoded = ''/repos/a'' \<rparr>) = Some act"
    using act(1) by simp
  have url: "upstream_url (s_upstream_base demo_service) (cp_encoded \<lparr> cp_decoded = ''/repos/a'', cp_encoded = ''/repos/a'' \<rparr>)
      (q_query ?req) = ''https://up.example.com/repos/a''" by code_simp
  from minted_token_keeps_working [OF inv m run sp fresh auth plain t59 route cp act' act(2) ready asc]
  show ?thesis unfolding url using m run by blast
qed

end
