(* ===== verification/Interleaving.thy ===== *)
theory Interleaving
  imports Availability
begin

text \<open>
  Concurrency. The gateway's methods take \<^verbatim>\<open>&self\<close> and run on many tasks at once; each table has a lock of
  its own that is held for one lookup or one update. \<open>Server\<close> treats a request as one step; here it is the
  sequence of its critical sections (\<open>job_next\<close>), and a run interleaves the sections of any number of requests
  with mints, revocations, sweeps and credential refreshes. The clock is read once, when a request arrives.
  The operations of the administrator and of the background tasks write once, so each is one section;
  a refresh writes once per provider.
\<close>

section \<open>Requests in flight\<close>

datatype 'h job =
    Arrived "'h proxy_request" u64
  | Authenticated "'h proxy_request" u64 policy auth_source
  | Decided "'h proxy_request" u64 "'h outcome" audit_event
  | Answered "'h proxy_request" u64 "'h outcome"
  | ProvisionArrived string u64
  | Provisioning string u64 policy u64 "service list" "provision_service list"
  | Provisioned string u64 "provision_doc option"
  | Panicked

definition record_event :: "audit_event \<Rightarrow> gateway \<Rightarrow> gateway" where
  "record_event ev g = g\<lparr> g_control := (g_control g)\<lparr> cp_audit := in_memory_record ev (cp_audit (g_control g)) \<rparr> \<rparr>"

definition with_tokens :: "tokens \<Rightarrow> gateway \<Rightarrow> gateway" where
  "with_tokens ts g = g\<lparr> g_control := (g_control g)\<lparr> cp_tokens := ts \<rparr> \<rparr>"

definition granted_services :: "policy \<Rightarrow> service list \<Rightarrow> service list" where
  "granted_services pol services =
     (let (any_target, named) = granted_targets (rules pol) False {}
      in filter (\<lambda>s. any_target \<or> s_name s \<in> named) services)"

definition provision_entry :: "service \<Rightarrow> provision_mode \<Rightarrow> provision_auth \<Rightarrow> provision_service" where
  "provision_entry s mode auth = \<lparr> ps_target = s_name s, ps_flavor = flavor_name (s_flavor s), ps_address = s_address s,
     ps_mode = mode, ps_auth = auth \<rparr>"

text \<open>
  The next section of a job, \<open>None\<close> when it is finished. A request reads the token table (authentication),
  then the vault at most once (routing, canonicalization and the decision touch no shared state) and builds
  its outcome and its audit event, then writes the event and answers. Provisioning resolves the token,
  then mints for one service after the other.
\<close>

fun job_next :: "'h env \<Rightarrow> gateway \<Rightarrow> 'h job \<Rightarrow> (gateway \<times> 'h job) option" where
  "job_next E g (Arrived req now) =
     Some (g, case authenticate E (cp_tokens (g_control g)) req now of
         None \<Rightarrow> Panicked
       | Some (Inl out) \<Rightarrow> Answered req now out
       | Some (Inr (pol, source)) \<Rightarrow> Authenticated req now pol source)"
| "job_next E g (Authenticated req now pol source) =
     Some (g, case handle_authenticated E (g_router g) req pol source now (g_control g) of
         None \<Rightarrow> Panicked
       | Some (out, c) \<Rightarrow> Decided req now out (last (events_of (cp_audit c))))"
| "job_next E g (Decided req now out ev) = Some (record_event ev g, Answered req now out)"
| "job_next E g (ProvisionArrived token now) =
     Some (g, case resolve_full (cp_tokens (g_control g)) token now of
         None \<Rightarrow> Provisioned token now None
       | Some (pol, expires_at_ms) \<Rightarrow>
           Provisioning token now pol expires_at_ms (granted_services pol (g_router g)) [])"
| "job_next E g (Provisioning token now pol expires_at_ms (s # ss) out) =
     (let ((mode, auth), ts) = mint_service_auth E s token pol now (max (sat_sub expires_at_ms now div 1000) 1)
            (cp_tokens (g_control g))
      in Some (with_tokens ts g, Provisioning token now pol expires_at_ms ss (out @ [provision_entry s mode auth])))"
| "job_next E g (Provisioning token now pol expires_at_ms [] out) =
     Some (g, Provisioned token now (Some \<lparr> pd_token = token, pd_ca = g_ca g, pd_expires_at_ms = expires_at_ms,
       pd_services = out \<rparr>))"
| "job_next E g (Answered req now out) = None"
| "job_next E g (Provisioned token now d) = None"
| "job_next E g Panicked = None"

text \<open>One turn of the refresher's loop writes one provider's value.\<close>

definition refresh_one :: "u64 \<Rightarrow> string \<times> provider \<Rightarrow> caching \<Rightarrow> caching" where
  "refresh_one now ip c = snd (refresh_loop now [ip] c)"

inductive operation :: "'h env \<Rightarrow> gateway \<Rightarrow> gateway \<Rightarrow> bool" for E where
  op_mint: "mint_checked E pol ttl tenant now g = (r, g') \<Longrightarrow> operation E g g'"
| op_revoke: "gateway_revoke token g = (b, g') \<Longrightarrow> operation E g g'"
| op_sweep: "sweep_expired now g = (n, g') \<Longrightarrow> operation E g g'"
| op_refresh: "cp_credentials (g_control g) = CachingStore c \<Longrightarrow> ip \<in> set (providers c)
    \<Longrightarrow> operation E g (g\<lparr> g_control := (g_control g)\<lparr> cp_credentials := CachingStore (refresh_one now ip c) \<rparr> \<rparr>)"

fun arriving :: "'h job \<Rightarrow> bool" where
  "arriving (Arrived _ _) = True"
| "arriving (ProvisionArrived _ _) = True"
| "arriving _ = False"

text \<open>
  Runs from \<open>g0\<close>: the list of the states of the gateway so far, the current one last, and the jobs, each
  with the number of states there were when it arrived.
\<close>

inductive interleaved :: "'h env \<Rightarrow> gateway \<Rightarrow> gateway list \<Rightarrow> (nat \<times> 'h job) list \<Rightarrow> bool" for E g0 where
  il_start: "interleaved E g0 [g0] []"
| il_arrive: "interleaved E g0 hist jobs \<Longrightarrow> arriving j
    \<Longrightarrow> interleaved E g0 (hist @ [last hist]) (jobs @ [(length hist, j)])"
| il_advance: "interleaved E g0 hist jobs \<Longrightarrow> i < length jobs \<Longrightarrow> jobs ! i = (b, j) \<Longrightarrow> job_next E (last hist) j = Some (g', j')
    \<Longrightarrow> interleaved E g0 (hist @ [g']) (jobs[i := (b, j')])"
| il_operate: "interleaved E g0 hist jobs \<Longrightarrow> operation E (last hist) g'
    \<Longrightarrow> interleaved E g0 (hist @ [g']) jobs"

section \<open>The atomic handlers are schedules\<close>

text \<open>A job that runs without interruption.\<close>

inductive runs_alone :: "'h env \<Rightarrow> gateway \<Rightarrow> 'h job \<Rightarrow> gateway \<Rightarrow> 'h job \<Rightarrow> bool" for E where
  alone_done: "runs_alone E g j g j"
| alone_step: "job_next E g j = Some (g', j') \<Longrightarrow> runs_alone E g' j' g'' j'' \<Longrightarrow> runs_alone E g j g'' j''"

lemma record_event_logged:
  assumes "logged now b (g_control g) c"
  shows "record_event (last (events_of (cp_audit c))) g = g\<lparr> g_control := c \<rparr>"
proof -
  obtain ev where "events_of (cp_audit c) = events_of (cp_audit (g_control g)) @ [ev]"
    "cp_tokens c = cp_tokens (g_control g)" "cp_tenants c = cp_tenants (g_control g)"
    "cp_credentials c = cp_credentials (g_control g)"
    using assms by (auto simp: logged_def)
  then have "c = (g_control g)\<lparr> cp_audit := in_memory_record (last (events_of (cp_audit c))) (cp_audit (g_control g)) \<rparr>"
    by (simp add: in_memory_record_def)
  then show ?thesis by (simp add: record_event_def)
qed

lemma handle_alone:
  assumes "handle E req now g = Some (out, g')" shows "runs_alone E g (Arrived req now) g' (Answered req now out)"
proof -
  consider "authenticate E (cp_tokens (g_control g)) req now = Some (Inl out)" "g' = g"
    | pol source c where "authenticate E (cp_tokens (g_control g)) req now = Some (Inr (pol, source))"
      "handle_authenticated E (g_router g) req pol source now (g_control g) = Some (out, c)" "g' = g\<lparr> g_control := c \<rparr>"
    using handle_cases [OF assms] by blast
  then show ?thesis
  proof cases
    case 1
    then show ?thesis by (intro alone_step [OF _ alone_done]) simp
  next
    case 2
    let ?ev = "last (events_of (cp_audit c))"
    have s1: "job_next E g (Arrived req now) = Some (g, Authenticated req now pol source)" by (simp add: 2(1))
    have s2: "job_next E g (Authenticated req now pol source) = Some (g, Decided req now out ?ev)" by (simp add: 2(2))
    have s3: "job_next E g (Decided req now out ?ev) = Some (g', Answered req now out)"
      by (simp add: 2(3) record_event_logged [OF handle_authenticated_logged [OF 2(2)]])
    show ?thesis by (rule alone_step [OF s1 alone_step [OF s2 alone_step [OF s3 alone_done]]])
  qed
qed

text \<open>Provisioning alone: the loop of \<open>Gateway\<close>, one service per section.\<close>

lemma with_tokens_simps [simp]:
  "cp_tokens (g_control (with_tokens ts g)) = ts" "with_tokens ts (with_tokens ts' g) = with_tokens ts g"
  "with_tokens (cp_tokens (g_control g)) g = g" "g_ca (with_tokens ts g) = g_ca g" "g_router (with_tokens ts g) = g_router g"
  by (simp_all add: with_tokens_def)

lemma provision_loop_filter:
  "provision_loop E any_target named token pol now ttl (filter (\<lambda>s. any_target \<or> s_name s \<in> named) ss) ts
    = provision_loop E any_target named token pol now ttl ss ts"
  by (induction ss arbitrary: ts) (auto split: prod.split)

lemma provisioning_alone:
  assumes "provision_loop E any_target named token pol now (max (sat_sub expt now div 1000) 1) ss (cp_tokens (g_control g))
      = (svcs, ts)" "list_all (\<lambda>s. any_target \<or> s_name s \<in> named) ss"
  shows "runs_alone E g (Provisioning token now pol expt ss out) (with_tokens ts g)
    (Provisioned token now (Some \<lparr> pd_token = token, pd_ca = g_ca g, pd_expires_at_ms = expt, pd_services = out @ svcs \<rparr>))"
  using assms
proof (induction ss arbitrary: g out svcs)
  case Nil
  then show ?case by (intro alone_step [OF _ alone_done]) auto
next
  case (Cons s ss)
  let ?ttl = "max (sat_sub expt now div 1000) 1"
  obtain mode auth ts1 where m: "mint_service_auth E s token pol now ?ttl (cp_tokens (g_control g)) = ((mode, auth), ts1)"
    by (metis prod.exhaust)
  obtain svcs1 where l: "provision_loop E any_target named token pol now ?ttl ss ts1 = (svcs1, ts)"
    and svcs: "svcs = provision_entry s mode auth # svcs1"
    using Cons.prems m by (auto simp: provision_entry_def split: prod.splits)
  have step: "job_next E g (Provisioning token now pol expt (s # ss) out)
      = Some (with_tokens ts1 g, Provisioning token now pol expt ss (out @ [provision_entry s mode auth]))"
    by (simp add: m)
  from Cons.IH [of "with_tokens ts1 g" svcs1 "out @ [provision_entry s mode auth]"] l Cons.prems(2)
  have "runs_alone E (with_tokens ts1 g) (Provisioning token now pol expt ss (out @ [provision_entry s mode auth]))
      (with_tokens ts g) (Provisioned token now (Some \<lparr> pd_token = token, pd_ca = g_ca g, pd_expires_at_ms = expt,
        pd_services = out @ svcs \<rparr>))"
    by (simp add: svcs)
  with step show ?case by (rule alone_step)
qed

lemma provision_alone:
  assumes "provision E token now g = (d, g')" shows "runs_alone E g (ProvisionArrived token now) g' (Provisioned token now d)"
proof (cases "resolve_full (cp_tokens (g_control g)) token now")
  case None
  with assms show ?thesis by (intro alone_step [OF _ alone_done]) (auto simp: provision_def)
next
  case (Some pe)
  obtain pol e where pe: "pe = (pol, e)" by (cases pe)
  obtain any_target named where gr: "granted_targets (rules pol) False {} = (any_target, named)" by fastforce
  let ?ss = "granted_services pol (g_router g)"
  have ss: "?ss = filter (\<lambda>s. any_target \<or> s_name s \<in> named) (g_router g)" by (simp add: granted_services_def gr)
  obtain svcs ts where l: "provision_loop E any_target named token pol now (max (sat_sub e now div 1000) 1) ?ss
      (cp_tokens (g_control g)) = (svcs, ts)" by fastforce
  then have "d = Some \<lparr> pd_token = token, pd_ca = g_ca g, pd_expires_at_ms = e, pd_services = [] @ svcs \<rparr>"
    "g' = with_tokens ts g"
    using assms Some pe by (auto simp: provision_def provisionable_services_def gr ss provision_loop_filter with_tokens_def Let_def)
  moreover have "list_all (\<lambda>s. any_target \<or> s_name s \<in> named) ?ss" by (auto simp: ss list_all_iff)
  ultimately have "runs_alone E g (Provisioning token now pol e ?ss []) g' (Provisioned token now d)"
    using provisioning_alone [OF l, of "[]"] by simp
  moreover have "job_next E g (ProvisionArrived token now) = Some (g, Provisioning token now pol e ?ss [])"
    by (simp add: Some pe)
  ultimately show ?thesis by (rule alone_step [rotated])
qed

section \<open>Linearization\<close>

text \<open>The gateway that a request saw: the tokens of one state and everything else of a later one.\<close>

definition seen :: "gateway \<Rightarrow> gateway \<Rightarrow> gateway" where
  "seen ga gd = with_tokens (cp_tokens (g_control ga)) gd"

text \<open>What a job owes to the states since its arrival.\<close>

definition authenticated_at :: "'h env \<Rightarrow> gateway list \<Rightarrow> nat \<Rightarrow> 'h proxy_request \<Rightarrow> u64 \<Rightarrow> policy \<Rightarrow> auth_source \<Rightarrow> nat \<Rightarrow> bool" where
  "authenticated_at E hist b req now pol source i \<longleftrightarrow> b \<le> i \<and> i < length hist
     \<and> authenticate E (cp_tokens (g_control (hist ! i))) req now = Some (Inr (pol, source))"

definition decided_at :: "'h env \<Rightarrow> gateway list \<Rightarrow> nat \<Rightarrow> 'h proxy_request \<Rightarrow> u64 \<Rightarrow> 'h outcome \<Rightarrow> bool" where
  "decided_at E hist b req now out \<longleftrightarrow>
     (\<exists>i k g'. b \<le> i \<and> i \<le> k \<and> k < length hist \<and> handle E req now (seen (hist ! i) (hist ! k)) = Some (out, g'))"

fun job_explained :: "'h env \<Rightarrow> gateway list \<Rightarrow> nat \<times> 'h job \<Rightarrow> bool" where
  "job_explained E hist (b, Arrived req now) = (b < length hist)"
| "job_explained E hist (b, Authenticated req now pol source) = (\<exists>i. authenticated_at E hist b req now pol source i)"
| "job_explained E hist (b, Decided req now out ev) = decided_at E hist b req now out"
| "job_explained E hist (b, Answered req now out) = decided_at E hist b req now out"
| "job_explained E hist (b, _) = (b < length hist)"

lemma authenticated_at_mono:
  "authenticated_at E hist b req now pol source i \<Longrightarrow> authenticated_at E (hist @ hs) b req now pol source i"
  by (auto simp: authenticated_at_def nth_append)

lemma decided_at_mono: "decided_at E hist b req now out \<Longrightarrow> decided_at E (hist @ hs) b req now out"
proof -
  assume "decided_at E hist b req now out"
  then obtain i k g' where "b \<le> i" "i \<le> k" "k < length hist" "handle E req now (seen (hist ! i) (hist ! k)) = Some (out, g')"
    unfolding decided_at_def by blast
  then show ?thesis
    unfolding decided_at_def by (intro exI [of _ i] exI [of _ k] exI [of _ g']) (simp add: nth_append)
qed

lemma job_explained_mono: "job_explained E hist bj \<Longrightarrow> job_explained E (hist @ hs) bj"
proof (induction E hist bj rule: job_explained.induct)
  case (2 E hist b req now pol source)
  then show ?case by (auto intro: authenticated_at_mono)
qed (auto intro: decided_at_mono)

text \<open>A decision does not look at the token table.\<close>

lemma audit_tokens: "audit a v d now (c\<lparr> cp_tokens := ts \<rparr>) = (audit a v d now c)\<lparr> cp_tokens := ts \<rparr>"
  "audit_raw h v d now (c\<lparr> cp_tokens := ts \<rparr>) = (audit_raw h v d now c)\<lparr> cp_tokens := ts \<rparr>"
  by (simp_all add: audit_def audit_raw_def)

lemma resolve_header_value_tokens:
  "resolve_header_value E act cred pfx now (c\<lparr> cp_tokens := ts \<rparr>)
    = map_prod id (cp_tokens_update (\<lambda>_. ts)) (resolve_header_value E act cred pfx now c)"
  by (simp add: resolve_header_value_def audit_tokens split: option.split)

lemma apply_outbound_tokens:
  "apply_outbound E svc act req h now (c\<lparr> cp_tokens := ts \<rparr>)
    = map_option (map_prod id (cp_tokens_update (\<lambda>_. ts))) (apply_outbound E svc act req h now c)"
  by (cases "s_outbound svc")
    (simp_all add: apply_outbound_def resolve_header_value_tokens audit_tokens Let_def map_conv_bind_option
      split: option.split prod.split sum.split)

lemma plan_forward_tokens:
  "plan_forward E svc act req source now (c\<lparr> cp_tokens := ts \<rparr>)
    = map_option (map_prod id (cp_tokens_update (\<lambda>_. ts))) (plan_forward E svc act req source now c)"
  by (cases "apply_outbound E svc act req (sanitize_headers E (q_headers req) source) now c")
    (auto simp: plan_forward_def apply_outbound_tokens audit_tokens split: sum.split)

lemma handle_authenticated_tokens:
  "handle_authenticated E services req pol source now (c\<lparr> cp_tokens := ts \<rparr>)
    = map_option (map_prod id (cp_tokens_update (\<lambda>_. ts))) (handle_authenticated E services req pol source now c)"
  by (cases "canonicalize (q_path req)")
    (auto simp: handle_authenticated_def Let_def plan_forward_tokens audit_tokens
      split: option.split sum.split canon_error.split verdict.split Option.bind_split)

lemma handle_seen_authenticated:
  assumes "authenticate E (cp_tokens (g_control ga)) req now = Some (Inr (pol, source))"
    and "handle_authenticated E (g_router gd) req pol source now (g_control gd) = Some (out, c)"
  shows "\<exists>g'. handle E req now (seen ga gd) = Some (out, g')"
  using assms by (simp add: handle_def seen_def with_tokens_def handle_authenticated_tokens)

lemma seen_same [simp]: "seen g g = g"
  by (simp add: seen_def)

text \<open>One section of a job, from a state to the next one of the run.\<close>

lemma job_next_explained:
  assumes "hist \<noteq> []" "job_explained E hist (b, j)" "job_next E (last hist) j = Some (g', j')"
  shows "job_explained E (hist @ [g']) (b, j')"
proof -
  let ?g = "last hist" and ?n = "length hist - 1"
  have n: "hist ! ?n = ?g" "?n < length hist" using assms(1) by (simp_all add: last_conv_nth)
  have "job_explained E hist (b, j')"
    using assms(2,3)
  proof (cases j)
    case (Arrived req now)
    note 1 = this
    then have b: "b \<le> ?n" using assms(2) by auto
    show ?thesis
    proof (cases "authenticate E (cp_tokens (g_control ?g)) req now")
      case None
      with 1 assms(2,3) show ?thesis by auto
    next
      case (Some r)
      show ?thesis
      proof (cases r)
        case (Inl out)
        with Some have "handle E req now (seen (hist ! ?n) (hist ! ?n)) = Some (out, ?g)"
          unfolding n seen_same by (simp add: handle_def)
        with b n(2) have "decided_at E hist b req now out" unfolding decided_at_def by blast
        with 1 Some Inl assms(3) show ?thesis by auto
      next
        case (Inr ps)
        with Some b n have "authenticated_at E hist b req now (fst ps) (snd ps) ?n" by (simp add: authenticated_at_def)
        with 1 Some Inr assms(3) show ?thesis by (cases ps) auto
      qed
    qed
  next
    case (Authenticated req now pol source)
    note 2 = this
    then obtain i where i: "authenticated_at E hist b req now pol source i" using assms(2) by auto
    show ?thesis
    proof (cases "handle_authenticated E (g_router ?g) req pol source now (g_control ?g)")
      case None
      with 2 i assms(3) show ?thesis by (auto simp: authenticated_at_def)
    next
      case (Some oc)
      obtain out c where oc: "oc = (out, c)" by (cases oc)
      from i have "authenticate E (cp_tokens (g_control (hist ! i))) req now = Some (Inr (pol, source))"
        and le: "b \<le> i" "i \<le> ?n" by (auto simp: authenticated_at_def)
      from handle_seen_authenticated [OF this(1) Some [unfolded oc]]
      obtain g2 where "handle E req now (seen (hist ! i) (hist ! ?n)) = Some (out, g2)" unfolding n by blast
      with le n(2) have "decided_at E hist b req now out" unfolding decided_at_def by blast
      with 2 Some oc assms(3) show ?thesis by auto
    qed
  next
    case (Provisioning token now pol expt ss out)
    then show ?thesis using assms(2,3) by (cases ss) (auto split: prod.splits)
  qed (auto split: option.splits)
  then show ?thesis by (rule job_explained_mono)
qed

lemma interleaved_explained:
  "interleaved E g0 hist jobs \<Longrightarrow> hist \<noteq> [] \<and> list_all (job_explained E hist) jobs"
proof (induction rule: interleaved.induct)
  case (il_arrive hist jobs j)
  have "job_explained E (hist @ [last hist]) (length hist, j)"
    using il_arrive.hyps(2) by (cases j) simp_all
  with il_arrive.IH show ?case by (auto simp: list_all_iff intro: job_explained_mono)
next
  case (il_advance hist jobs i b j g' j')
  then have "job_explained E hist (b, j)" by (metis list_all_length)
  with il_advance have "job_explained E (hist @ [g']) (b, j')" by (blast intro: job_next_explained)
  with il_advance.IH show ?case
    by (auto simp: list_all_iff intro: job_explained_mono dest!: set_update_subset_insert [THEN subsetD])
next
  case (il_operate hist jobs g')
  then show ?case by (auto simp: list_all_iff intro: job_explained_mono)
qed simp

section \<open>Safety under interleaving\<close>

text \<open>What no section changes; the vault's values are rotated by the refresher.\<close>

definition kept :: "gateway \<Rightarrow> gateway \<Rightarrow> bool" where
  "kept g g' \<longleftrightarrow> g_router g' = g_router g \<and> g_catalogs g' = g_catalogs g \<and> g_ca g' = g_ca g
     \<and> cp_tenants (g_control g') = cp_tenants (g_control g) \<and> log_extends g g' \<and> (server_inv g \<longrightarrow> server_inv g')"

lemma kept_refl [simp]: "kept g g"
  by (simp add: kept_def log_extends_def)

lemma kept_trans: "kept g g' \<Longrightarrow> kept g' g'' \<Longrightarrow> kept g g''"
  by (auto simp: kept_def log_extends_def)

lemma admissible_kept: "admissible g g' \<Longrightarrow> kept g g'"
  by (simp add: admissible_def kept_def config_same_def)

lemma operation_kept: "operation E g g' \<Longrightarrow> kept g g'"
proof (induction rule: operation.induct)
  case (op_mint pol ttl tenant now g r g')
  then show ?case by (intro admissible_kept mint_effect)
next
  case (op_revoke token g b g')
  then show ?case using revoke_effect [of g token] by (auto intro: admissible_kept)
next
  case (op_sweep now g n g')
  then show ?case using sweep_effect [of g now] by (auto intro: admissible_kept)
next
  case (op_refresh g c ip now)
  show ?case by (simp add: kept_def log_extends_def server_inv_def policy_checked_def)
qed

definition sent_checked :: "gateway \<Rightarrow> 'h proxy_request \<Rightarrow> 'h outcome \<Rightarrow> bool" where
  "sent_checked g req out \<longleftrightarrow> (\<forall>plan. out = Forward plan \<longrightarrow> (\<exists>pol svc cp act.
     policy_checked g pol \<and> svc \<in> set (g_router g) \<and> canonicalize (q_path req) = Some (Inr cp)
     \<and> is_allow (decide act pol) \<and> a_target act = s_name svc
     \<and> fp_url plan = upstream_url (s_upstream_base svc) (cp_encoded cp) (q_query req)))"

definition logged_allow :: "u64 \<Rightarrow> audit_event \<Rightarrow> bool" where
  "logged_allow now ev \<longleftrightarrow> e_decision ev = DecAllow \<and> at_ms ev = now"

fun job_safe :: "gateway \<Rightarrow> 'h job \<Rightarrow> bool" where
  "job_safe g (Authenticated req now pol source) = policy_checked g pol"
| "job_safe g (Decided req now out ev) = (sent_checked g req out \<and> (is_forward out \<longrightarrow> logged_allow now ev))"
| "job_safe g (Answered req now out) = (sent_checked g req out
     \<and> (is_forward out \<longrightarrow> list_ex (logged_allow now) (events_of (cp_audit (g_control g)))))"
| "job_safe g (Provisioning token now pol expt ss out) = policy_checked g pol"
| "job_safe g _ = True"

lemma policy_checked_kept: "kept g g' \<Longrightarrow> policy_checked g' pol = policy_checked g pol"
  by (simp add: policy_checked_def kept_def)

lemma sent_checked_kept: "kept g g' \<Longrightarrow> sent_checked g' req out = sent_checked g req out"
  by (simp add: sent_checked_def policy_checked_kept) (simp add: kept_def)

lemma job_safe_kept: "kept g g' \<Longrightarrow> job_safe g j \<Longrightarrow> job_safe g' j"
  by (cases j) (auto simp: policy_checked_kept sent_checked_kept, auto simp: kept_def log_extends_def)

lemma record_event_kept: "kept g (record_event ev g)"
  by (simp add: kept_def record_event_def log_extends_def in_memory_record_def server_inv_def policy_checked_def)

lemma with_tokens_kept:
  assumes "server_inv g" "policy_checked g pol" "only_dummies pol expt (cp_tokens (g_control g)) ts"
  shows "kept g (with_tokens ts g)"
  unfolding with_tokens_def
proof (rule admissible_kept, rule admissible_tokens)
  show "tokens_inv ts" using assms(3) by (simp add: only_dummies_def)
next
  fix k e
  assume "map_of (entries ts) k = Some e"
  moreover have "map_of (entries ts) k = map_of (entries (cp_tokens (g_control g))) k
      \<or> dummy_entry pol expt (map_of (entries ts) k)" using assms(3) by (simp add: only_dummies_def)
  ultimately show "policy_checked g (t_policy e)"
    using assms(1,2) by (auto simp: server_inv_def dummy_entry_def)
qed

lemma handle_authenticated_checked:
  assumes "policy_checked g pol" "handle_authenticated E (g_router g) req pol source now (g_control g) = Some (out, c)"
  shows "sent_checked g req out \<and> (is_forward out \<longrightarrow> logged_allow now (last (events_of (cp_audit c))))"
proof
  show "sent_checked g req out"
    unfolding sent_checked_def
  proof (intro allI impI)
    fix plan
    assume "out = Forward plan"
    then obtain svc cp act where m: "mediated E (g_router g) req pol source now (g_control g) svc cp act plan"
      using handle_authenticated_forward assms(2) by metis
    then have "svc \<in> set (g_router g)" "a_target act = s_name svc"
      by (auto simp: mediated_def dest: routeD normalize_shape(1))
    with m assms(1) show "\<exists>pol svc cp act. policy_checked g pol \<and> svc \<in> set (g_router g)
        \<and> canonicalize (q_path req) = Some (Inr cp) \<and> is_allow (decide act pol) \<and> a_target act = s_name svc
        \<and> fp_url plan = upstream_url (s_upstream_base svc) (cp_encoded cp) (q_query req)"
      unfolding mediated_def by blast
  qed
  show "is_forward out \<longrightarrow> logged_allow now (last (events_of (cp_audit c)))"
    using handle_authenticated_logged [OF assms(2)] by (auto simp: logged_def logged_allow_def)
qed

lemma reject_safe: "\<not> is_forward out \<Longrightarrow> sent_checked g req out"
  by (auto simp: sent_checked_def is_forward_def)

lemma job_next_safe:
  assumes "server_inv g" "job_safe g j" "job_next E g j = Some (g', j')"
  shows "kept g g' \<and> job_safe g' j'"
proof (cases j)
  case (Arrived req now)
  show ?thesis
  proof (cases "authenticate E (cp_tokens (g_control g)) req now")
    case (Some r)
    show ?thesis
    proof (cases r)
      case (Inl out)
      then have "\<not> is_forward out" using authenticate_reject Some by metis
      with Arrived Some Inl assms(3) show ?thesis by (auto simp: reject_safe)
    next
      case (Inr ps)
      then have "credential_presented E (cp_tokens (g_control g)) req now (fst ps) (snd ps)"
        using Some by (intro authenticate_credential) simp
      from credential_policy_checked [OF this assms(1)] Arrived Some Inr assms(3) show ?thesis by (cases ps) auto
    qed
  qed (use Arrived assms(3) in auto)
next
  case (Authenticated req now pol source)
  then have p: "policy_checked g pol" using assms(2) by simp
  show ?thesis
  proof (cases "handle_authenticated E (g_router g) req pol source now (g_control g)")
    case (Some oc)
    obtain out c where oc: "oc = (out, c)" by (cases oc)
    from handle_authenticated_checked [OF p Some [unfolded oc]] Authenticated Some oc assms(3) show ?thesis by auto
  qed (use Authenticated assms(3) in auto)
next
  case (Decided req now out ev)
  then have "g' = record_event ev g" "j' = Answered req now out" using assms(3) by auto
  then show ?thesis
    using assms(2) Decided record_event_kept [of g ev] sent_checked_kept [OF record_event_kept [of g ev], of req out]
    by (auto simp: record_event_def in_memory_record_def)
next
  case (ProvisionArrived token now)
  show ?thesis
  proof (cases "resolve_full (cp_tokens (g_control g)) token now")
    case (Some pe)
    then obtain e where "live now (cp_tokens (g_control g)) token = Some e" "t_policy e = fst pe"
      by (auto simp: resolve_full_live map_option_Some_iff)
    then have "map_of (entries (cp_tokens (g_control g))) token = Some e" "t_policy e = fst pe"
      by (auto simp: live_def split: option.splits if_splits)
    then have "policy_checked g (fst pe)" using assms(1) unfolding server_inv_def by metis
    with ProvisionArrived Some assms(3) show ?thesis by (cases pe) auto
  qed (use ProvisionArrived assms(3) in auto)
next
  case (Provisioning token now pol expt ss out)
  show ?thesis
  proof (cases ss)
    case Nil
    with Provisioning assms(3) show ?thesis by auto
  next
    case (Cons s ss')
    obtain ma ts where m: "mint_service_auth E s token pol now (max (sat_sub expt now div 1000) 1) (cp_tokens (g_control g)) = (ma, ts)"
      by fastforce
    obtain mode auth where ma: "ma = (mode, auth)" by (cases ma)
    have i: "tokens_inv (cp_tokens (g_control g))" using assms(1) by (simp add: server_inv_def)
    have p: "policy_checked g pol" using assms(2) Provisioning by simp
    have k: "kept g (with_tokens ts g)"
      by (rule with_tokens_kept [OF assms(1) p mint_service_auth_step(1) [OF i m [unfolded ma]]])
    have "g' = with_tokens ts g" "\<exists>out'. j' = Provisioning token now pol expt ss' out'"
      using Provisioning Cons assms(3) m ma by auto
    with k p show ?thesis by (auto simp: policy_checked_kept)
  qed
qed (use assms(3) in auto)

lemma interleaved_safe:
  assumes "interleaved E g0 hist jobs" "server_inv g0"
  shows "kept g0 (last hist) \<and> (\<forall>(b, j) \<in> set jobs. job_safe (last hist) j)"
  using assms
proof (induction rule: interleaved.induct)
  case (il_arrive hist jobs j)
  have "job_safe (last hist) j" using il_arrive.hyps(2) by (cases j) simp_all
  with il_arrive show ?case by auto
next
  case (il_advance hist jobs i b j g' j')
  then have k: "kept g0 (last hist)" and inv: "server_inv (last hist)" by (auto simp: kept_def)
  have "(b, j) \<in> set jobs" using il_advance.hyps(2,3) by (metis nth_mem)
  with il_advance.IH il_advance.prems have "job_safe (last hist) j" by auto
  from job_next_safe [OF inv this il_advance.hyps(4)] have n: "kept (last hist) g'" "job_safe g' j'" by auto
  have "job_safe g' x" if "(a, x) \<in> set (jobs[i := (b, j')])" for a x
    using that n il_advance.IH il_advance.prems job_safe_kept
    by (fastforce dest: set_update_subset_insert [THEN subsetD])
  with kept_trans [OF k n(1)] show ?case by auto
next
  case (il_operate hist jobs g')
  then have k: "kept (last hist) g'" by (intro operation_kept)
  with il_operate show ?case by (auto intro: kept_trans job_safe_kept)
qed simp

section \<open>Progress\<close>

fun finished :: "'h job \<Rightarrow> bool" where
  "finished (Answered _ _ _) = True"
| "finished (Provisioned _ _ _) = True"
| "finished Panicked = True"
| "finished _ = False"

text \<open>The sections a job has left, on a gateway with \<open>n\<close> services.\<close>

fun sections_left :: "nat \<Rightarrow> 'h job \<Rightarrow> nat" where
  "sections_left n (Arrived _ _) = 3"
| "sections_left n (Authenticated _ _ _ _) = 2"
| "sections_left n (Decided _ _ _ _) = 1"
| "sections_left n (ProvisionArrived _ _) = n + 2"
| "sections_left n (Provisioning _ _ _ _ ss _) = length ss + 1"
| "sections_left n _ = 0"

definition plain_request :: "'h proxy_request \<Rightarrow> bool" where
  "plain_request req \<longleftrightarrow> ascii (q_path req) \<and> ascii (q_query req) \<and> ascii (q_body req)"

fun plain_job :: "'h job \<Rightarrow> bool" where
  "plain_job (Arrived req _) = plain_request req"
| "plain_job (Authenticated req _ _ _) = plain_request req"
| "plain_job Panicked = False"
| "plain_job _ = True"

lemma granted_services_length: "length (granted_services pol services) \<le> length services"
  by (simp add: granted_services_def split: prod.split)

lemma job_next_progress:
  assumes "\<not> finished j" "plain_job j"
  shows "\<exists>g' j'. job_next E g j = Some (g', j') \<and> plain_job j'
    \<and> sections_left (length (g_router g)) j' < sections_left (length (g_router g)) j"
proof (cases j)
  case (Arrived req now)
  then obtain r where "authenticate E (cp_tokens (g_control g)) req now = Some r"
    using assms(2) authenticate_ascii by (fastforce simp: plain_request_def)
  with Arrived assms(2) show ?thesis by (cases r) auto
next
  case (Authenticated req now pol source)
  then obtain r where "handle_authenticated E (g_router g) req pol source now (g_control g) = Some r"
    using assms(2) handle_authenticated_ascii by (fastforce simp: plain_request_def)
  with Authenticated show ?thesis by (cases r) auto
next
  case (ProvisionArrived token now)
  then show ?thesis using granted_services_length
    by (auto simp: less_Suc_eq_le split: option.split)
next
  case (Provisioning token now pol expt ss out)
  then show ?thesis by (cases ss) (auto split: prod.split)
qed (use assms in auto)

text \<open>
  A revocation that falls between the resolution of a token and the minting of a dummy does not stop the
  mint: the dummy is stored after the revocation and resolves for the revoked token's policy.
\<close>

lemma provisioning_outlives_revocation:
  assumes "tokens_inv ts" "s_outbound s = OutSigV4 cred akid rgn aws" "revoke token ts = (True, ts')" "now < - 1"
    and "job_next E (with_tokens ts' g) (Provisioning token now pol expt (s # ss) out) = Some (g', j')"
  shows "resolve ts' token now = None \<and> (\<exists>k. resolve (cp_tokens (g_control g')) k now = Some pol)"
proof -
  let ?ttl = "max (sat_sub expt now div 1000) 1 :: u64"
  obtain d ts1 where m: "mint_sigv4 E pol ?ttl now ts' = (d, ts1)" by fastforce
  note r = revoke_live [OF assms(1,3)]
  note live = mint_sigv4_live [OF r(1) m]
  have "cp_tokens (g_control g') = ts1" using assms(2,5) m by (auto simp: mint_service_auth_def)
  moreover have "1 \<le> ?ttl" by simp
  then have "1 \<le> unat ?ttl" by (simp only: word_le_nat_alt unat_1)
  then have "now < expiry ?ttl now"
    using assms(4) unfolding word_less_nat_alt expiry_bounds by (auto simp: unsigned_minus_1_eq_mask mask_eq_exp_minus_1 min_def)
  ultimately have "resolve (cp_tokens (g_control g')) (sigv4_key E (draws ts')) now = Some pol"
    using live by (simp add: resolve_live live_def)
  with r(3) show ?thesis by (auto simp: resolve_live live_def)
qed

section \<open>Properties\<close>

text \<open>C11. Requests are linearizable. In any interleaving, what a request is answered is what the atomic handler
  answers it on a gateway that existed: the token table of one moment after the request arrived, and
  the vault and configuration of a moment not before that one.\<close>

theorem interleaved_requests_linearize:
  assumes "interleaved E g0 hist jobs" "(b, Answered req now out) \<in> set jobs"
  shows "\<exists>i k g'. b \<le> i \<and> i \<le> k \<and> k < length hist \<and> handle E req now (seen (hist ! i) (hist ! k)) = Some (out, g')"
proof -
  from interleaved_explained [OF assms(1)] assms(2) have "job_explained E hist (b, Answered req now out)"
    by (auto simp: list_all_iff)
  then show ?thesis by (simp add: decided_at_def)
qed

text \<open>C3. Tenancy and audit under concurrency. However requests, mints, revocations, sweeps and refreshes
  interleave on a gateway with tenants that started with an empty table, everything that is forwarded goes to a
  configured service that a tenant owns, along the request's canonical path, and an allow event with the
  request's clock reading is already in the log when the plan is handed out.\<close>

theorem interleaved_forwards_within_tenancy:
  assumes "interleaved E g0 hist jobs" "entries (cp_tokens (g_control g0)) = []"
    and "\<not> tenants_is_empty (cp_tenants (g_control g0))" "(b, Answered req now (Forward plan)) \<in> set jobs"
  shows "\<exists>key owned svc cp. tenants_owned (cp_tenants (g_control g0)) key = Some owned
    \<and> svc \<in> set (g_router g0) \<and> s_name svc \<in> owned \<and> canonicalize (q_path req) = Some (Inr cp)
    \<and> fp_url plan = upstream_url (s_upstream_base svc) (cp_encoded cp) (q_query req)
    \<and> list_ex (\<lambda>ev. e_decision ev = DecAllow \<and> at_ms ev = now) (events_of (cp_audit (g_control (last hist))))"
proof -
  have "server_inv g0" using assms(2) by (simp add: server_inv_def tokens_inv_def)
  from interleaved_safe [OF assms(1) this] assms(4) have k: "kept g0 (last hist)"
    and "job_safe (last hist) (Answered req now (Forward plan))" by auto
  then have sent: "sent_checked (last hist) req (Forward plan)"
    and log: "list_ex (logged_allow now) (events_of (cp_audit (g_control (last hist))))"
    by (simp_all add: is_forward_def)
  from sent have "sent_checked g0 req (Forward plan)" by (simp add: sent_checked_kept [OF k])
  then obtain pol svc cp act where p: "policy_checked g0 pol" and a: "is_allow (decide act pol)" "a_target act = s_name svc"
    and s: "svc \<in> set (g_router g0)" "canonicalize (q_path req) = Some (Inr cp)"
      "fp_url plan = upstream_url (s_upstream_base svc) (cp_encoded cp) (q_query req)"
    unfolding sent_checked_def by blast
  from p assms(3) obtain key owned where o: "tenants_owned (cp_tenants (g_control g0)) key = Some owned" "tenant_policy_ok owned pol"
    by (auto simp: policy_checked_def)
  from tenant_policy_allows_owned [OF o(2) a(1)] a(2) have "s_name svc \<in> owned" by simp
  with o(1) s log show ?thesis unfolding logged_allow_def by blast
qed



section \<open>A schedule\<close>

text \<open>A job can run to any point of its own schedule within any interleaving.\<close>

lemma runs_alone_interleaved:
  assumes "runs_alone E g j g' j'" "interleaved E g0 hist jobs" "last hist = g" "i < length jobs" "jobs ! i = (b, j)"
  shows "\<exists>hs. interleaved E g0 (hist @ hs) (jobs[i := (b, j')]) \<and> last (hist @ hs) = g'"
  using assms
proof (induction arbitrary: hist jobs rule: runs_alone.induct)
  case (alone_done g j)
  then show ?case by (intro exI [of _ "[]"]) (metis append_Nil2 list_update_id)
next
  case (alone_step g j g1 j1 g2 j2)
  have "interleaved E g0 (hist @ [g1]) (jobs[i := (b, j1)])"
    using alone_step.prems alone_step.hyps(1) by (blast intro: il_advance)
  from alone_step.IH [OF this] alone_step.prems obtain hs where
    "interleaved E g0 ((hist @ [g1]) @ hs) (jobs[i := (b, j2)])" "last ((hist @ [g1]) @ hs) = g2" by auto
  then show ?case by (intro exI [of _ "g1 # hs"]) simp
qed

definition token_request :: "header_list proxy_request" where
  "token_request = \<lparr> q_method = ''GET'', q_path = ''/repos/a'', q_query = [],
     q_headers = [(''host'', ''api.example.com''), (''authorization'', ''Bearer toktok'')], q_body = [] \<rparr>"

lemma token_request_forwarded:
  obtains plan g' where "handle plain_env token_request 5 minted_gateway = Some (Forward plan, g')"
proof -
  have "case handle plain_env token_request 5 minted_gateway of Some (Forward _, _) \<Rightarrow> True | _ \<Rightarrow> False"
    unfolding minted_gateway_eq by code_simp
  then show thesis using that by (auto split: option.splits outcome.splits)
qed

lemma mint_operation: "operation plain_env empty_gateway minted_gateway"
proof -
  have "tenant_header plain_env (rq_headers mint_request) = Some ''team''" by code_simp
  then have "minted_gateway = snd (mint_checked plain_env demo_policy 60 (Some ''team'') 3 empty_gateway)"
    by (simp add: minted_gateway_def admin_router_def mint_request_def mint_handler_def split: prod.split sum.split)
  then show ?thesis by (metis op_mint prod.collapse)
qed

lemma minted_prefix: "interleaved plain_env empty_gateway [empty_gateway, minted_gateway] []"
  using il_operate [OF il_start, of plain_env empty_gateway minted_gateway] mint_operation by simp

text \<open>A mint, the arrival of a request with the token, and its three sections.\<close>

lemma forwarded_schedule:
  obtains hist plan where "interleaved plain_env empty_gateway hist [(2, Answered token_request 5 (Forward plan))]"
proof -
  have a: "interleaved plain_env empty_gateway [empty_gateway, minted_gateway, minted_gateway] [(2, Arrived token_request 5)]"
    using il_arrive [OF minted_prefix, of "Arrived token_request 5"] by (simp add: numeral_2_eq_2)
  obtain plan g' where "handle plain_env token_request 5 minted_gateway = Some (Forward plan, g')"
    by (rule token_request_forwarded)
  from runs_alone_interleaved [OF handle_alone [OF this] a, of 0] that show thesis by auto
qed

theorem interleaved_requests_linearize_witness:
  "\<exists>hist plan i k g'. interleaved plain_env empty_gateway hist [(2, Answered token_request 5 (Forward plan))]
    \<and> 2 \<le> i \<and> i \<le> k \<and> k < length hist
    \<and> handle plain_env token_request 5 (seen (hist ! i) (hist ! k)) = Some (Forward plan, g')"
proof (rule forwarded_schedule)
  fix hist plan
  assume s: "interleaved plain_env empty_gateway hist [(2, Answered token_request 5 (Forward plan))]"
  have "(2, Answered token_request 5 (Forward plan)) \<in> set [(2, Answered token_request 5 (Forward plan))]" by simp
  from interleaved_requests_linearize [OF s this] s show ?thesis by blast
qed

theorem interleaved_forwards_within_tenancy_witness:
  "\<exists>hist plan key owned. interleaved plain_env empty_gateway hist [(2, Answered token_request 5 (Forward plan))]
    \<and> tenants_owned (cp_tenants (g_control empty_gateway)) key = Some owned \<and> ''gh'' \<in> owned"
proof (rule forwarded_schedule)
  fix hist plan
  assume s: "interleaved plain_env empty_gateway hist [(2, Answered token_request 5 (Forward plan))]"
  have e: "entries (cp_tokens (g_control empty_gateway)) = []" "\<not> tenants_is_empty (cp_tenants (g_control empty_gateway))"
    by code_simp+
  have m: "(2, Answered token_request 5 (Forward plan)) \<in> set [(2, Answered token_request 5 (Forward plan))]" by simp
  have "g_router empty_gateway = [demo_service]" "s_name demo_service = ''gh''"
    by (simp_all add: empty_gateway_def gateway_new_def demo_service_def with_outbound_def service_new_def)
  with interleaved_forwards_within_tenancy [OF s e m] s show ?thesis by auto
qed


definition revoked_gateway :: gateway where
  "revoked_gateway = snd (gateway_revoke ''toktok'' minted_gateway)"

lemma revoked_tokens: "cp_tokens (g_control revoked_gateway) = \<lparr> entries = [], draws = 2 \<rparr>"
  by (simp add: revoked_gateway_def minted_gateway_eq gateway_revoke_def revoke_def hm_remove_def)


end
