(* ===== verification/Runtime.thy ===== *)
theory Runtime
  imports Cli Interleaving
begin

text \<open>
  The parts of the source that drive sockets and timers: \<^verbatim>\<open>connect\<close>, \<^verbatim>\<open>handshake\<close> and \<^verbatim>\<open>tunnel\<close> of
  \<^verbatim>\<open>gateway/src/upgrade.rs\<close>, \<^verbatim>\<open>serve\<close>, \<^verbatim>\<open>serve_proxy_tls\<close> and \<^verbatim>\<open>spawn_sweeper\<close> of \<^verbatim>\<open>gateway/src/server.rs\<close>, and
  \<^verbatim>\<open>spawn_refresher\<close> of \<^verbatim>\<open>control/src/providers.rs\<close>. The operating system, TLS and the HTTP connection are
  parameters; a task's loop is a function of what its awaits return.
\<close>

section \<open>Outgoing connections\<close>

datatype ('tcp, 'tls) stream = PlainStream 'tcp | TlsStream 'tls

record ('tcp, 'tls, 's) network =
  net_dial :: "string \<Rightarrow> nat \<Rightarrow> string + 'tcp"
  net_server_name :: "string \<Rightarrow> string option"
  net_tls_connect :: "string \<Rightarrow> 'tcp \<Rightarrow> string + 'tls"
  net_http1 :: "('tcp, 'tls) stream \<Rightarrow> string + 's"

definition handshake :: "('tcp, 'tls, 's) network \<Rightarrow> ('tcp, 'tls) stream \<Rightarrow> string + 's" where
  "handshake net io = net_http1 net io"

definition connect :: "('tcp, 'tls, 's) network \<Rightarrow> upstream_target \<Rightarrow> string + 's" where
  "connect net target =
     and_then (net_dial net (ut_host target) (ut_port target)) (\<lambda>tcp.
       if ut_tls target then
         (case net_server_name net (ut_host target) of
            None \<Rightarrow> Inl ''invalid upstream server name''
          | Some server_name \<Rightarrow>
              and_then (net_tls_connect net server_name tcp) (\<lambda>stream. handshake net (TlsStream stream)))
       else handshake net (PlainStream tcp))"

text \<open>An upgrade to an \<^verbatim>\<open>https\<close> upstream is spoken only inside TLS that names the target's host.\<close>

lemma connect_tls:
  assumes "connect net target = Inr sender" "ut_tls target"
  shows "\<exists>tcp server_name tls. net_dial net (ut_host target) (ut_port target) = Inr tcp
    \<and> net_server_name net (ut_host target) = Some server_name \<and> net_tls_connect net server_name tcp = Inr tls
    \<and> net_http1 net (TlsStream tls) = Inr sender"
  using assms by (auto simp: connect_def handshake_def and_then_Inr split: option.splits)

section \<open>The TLS listener\<close>

text \<open>What \<^verbatim>\<open>accept\<close> returns, one after the other; an error is propagated by the question mark.\<close>

datatype 'tcp accepted = AcceptError string | Accepted 'tcp

text \<open>The streams that are served, and the error with which the loop ends, if it does.\<close>

fun serve_proxy_tls :: "('tcp \<Rightarrow> string + 'tls) \<Rightarrow> 'tcp accepted list \<Rightarrow> 'tls list \<times> string option" where
  "serve_proxy_tls accept_tls [] = ([], None)"
| "serve_proxy_tls accept_tls (AcceptError e # _) = ([], Some e)"
| "serve_proxy_tls accept_tls (Accepted stream # rest) =
     (let (served, ending) = serve_proxy_tls accept_tls rest in
      case accept_tls stream of
        Inl _ \<Rightarrow> (served, ending)
      | Inr tls_stream \<Rightarrow> (tls_stream # served, ending))"

fun handshaken :: "('tcp \<Rightarrow> string + 'tls) \<Rightarrow> 'tcp accepted \<Rightarrow> 'tls option" where
  "handshaken accept_tls (Accepted stream) = (case accept_tls stream of Inl _ \<Rightarrow> None | Inr s \<Rightarrow> Some s)"
| "handshaken accept_tls (AcceptError _) = None"

text \<open>A failed handshake drops its own connection only.\<close>

lemma serve_proxy_tls_served:
  "serve_proxy_tls accept_tls (map Accepted streams) = (List.map_filter (handshaken accept_tls) (map Accepted streams), None)"
  by (induction streams) (auto simp: List.map_filter_def split: sum.split)

text \<open>An accept error ends the loop: no connection that comes after it is served.\<close>

lemma accept_error_ends:
  "serve_proxy_tls accept_tls (map Accepted streams @ AcceptError e # rest)
    = (List.map_filter (handshaken accept_tls) (map Accepted streams), Some e)"
  by (induction streams) (auto simp: List.map_filter_def split: sum.split)

section \<open>Serving\<close>

text \<open>
  \<^verbatim>\<open>serve\<close> binds the proxy's listener, then the administrator's, starts the sweeper, and runs both services until
  one of them fails; \<open>axum_end\<close> is how the framework's server on a listener ends (\<open>None\<close>: it does not).
\<close>

datatype 'l serving = NotBound string | Serving 'l 'l "string option"

definition try_join :: "string option \<Rightarrow> string option \<Rightarrow> string option" where
  "try_join a b = (case a of Some e \<Rightarrow> Some e | None \<Rightarrow> b)"

definition server_serve ::
  "(string \<Rightarrow> string + 'l) \<Rightarrow> ('l \<Rightarrow> string option) \<Rightarrow> ('c \<Rightarrow> 'tcp \<Rightarrow> string + 'tls) \<Rightarrow> ('l \<Rightarrow> 'tcp accepted list)
   \<Rightarrow> string \<Rightarrow> string \<Rightarrow> 'c option \<Rightarrow> 'l serving" where
  "server_serve bind_addr axum_end accept_tls incoming proxy_addr admin_addr tls =
     (case bind_addr proxy_addr of
        Inl e \<Rightarrow> NotBound e
      | Inr proxy_listener \<Rightarrow>
          (case bind_addr admin_addr of
             Inl e \<Rightarrow> NotBound e
           | Inr admin_listener \<Rightarrow>
               Serving proxy_listener admin_listener
                 (case tls of
                    Some cfg \<Rightarrow> try_join (snd (serve_proxy_tls (accept_tls cfg) (incoming proxy_listener))) (axum_end admin_listener)
                  | None \<Rightarrow> try_join (axum_end proxy_listener) (axum_end admin_listener))))"

text \<open>
  One transient accept error on the TLS listener ends the whole server, the administrator's listener
  included; without TLS the framework keeps accepting.
\<close>

lemma accept_error_ends_server:
  assumes "bind_addr proxy_addr = Inr lp" "bind_addr admin_addr = Inr la" "axum_end lp = None" "axum_end la = None"
    and "incoming lp = map Accepted streams @ AcceptError e # rest"
  shows "server_serve bind_addr axum_end accept_tls incoming proxy_addr admin_addr (Some cfg) = Serving lp la (Some e)
    \<and> server_serve bind_addr axum_end accept_tls incoming proxy_addr admin_addr None = Serving lp la None"
  using assms by (simp add: server_serve_def accept_error_ends try_join_def)

section \<open>Timers\<close>

text \<open>
  A task that runs once per tick is a fold over the clock readings of its ticks. The sweeper lets the
  first tick pass; the refresher uses it.
\<close>

definition SWEEP_INTERVAL :: nat where
  "SWEEP_INTERVAL = 60000"

definition spawn_sweeper :: "u64 list \<Rightarrow> gateway \<Rightarrow> gateway" where
  "spawn_sweeper readings g = fold (\<lambda>now g. snd (sweep_expired now g)) (drop 1 readings) g"

definition spawn_refresher :: "u64 list \<Rightarrow> caching \<Rightarrow> caching" where
  "spawn_refresher readings c = fold (\<lambda>now c. snd (refresh_due now c)) readings c"

lemma spawn_refresher_simps [simp]:
  "spawn_refresher [] c = c" "spawn_refresher (now # rs) c = spawn_refresher rs (snd (refresh_due now c))"
  "spawn_refresher (rs @ [now]) c = snd (refresh_due now (spawn_refresher rs c))"
  by (simp_all add: spawn_refresher_def)

lemma refresh_due_facts:
  assumes "distinct (map fst (providers c))"
  shows "static_secrets (snd (refresh_due now c)) = static_secrets c" "providers (snd (refresh_due now c)) = providers c"
    "map_of (cache (snd (refresh_due now c))) i = (case Option.bind (map_of (providers c) i) (due_mint now c i) of
        Some m \<Rightarrow> Some m | None \<Rightarrow> map_of (cache c) i)"
proof -
  obtain ids c' where "refresh_due now c = (ids, c')" by fastforce
  with refresh_loop_spec [of now "providers c" c ids c'] assms
  show "static_secrets (snd (refresh_due now c)) = static_secrets c" "providers (snd (refresh_due now c)) = providers c"
    "map_of (cache (snd (refresh_due now c))) i = (case Option.bind (map_of (providers c) i) (due_mint now c i) of
        Some m \<Rightarrow> Some m | None \<Rightarrow> map_of (cache c) i)"
    by (auto simp: refresh_due_def)
qed

lemma spawn_refresher_config:
  "distinct (map fst (providers c)) \<Longrightarrow> static_secrets (spawn_refresher rs c) = static_secrets c
    \<and> providers (spawn_refresher rs c) = providers c"
  by (induction rs arbitrary: c) (simp_all add: refresh_due_facts)

text \<open>After a refresh, a provider that can mint has a value that outlives the next gap between ticks.\<close>

definition outlives :: "nat \<Rightarrow> u64 \<Rightarrow> minted_secret \<Rightarrow> bool" where
  "outlives gap now m \<longleftrightarrow> unat now + gap < unat (ms_expires_at_ms m)"

lemma skipped_outlives:
  assumes "\<not> needs_refresh c i p now" "gap \<le> unat (prov_refresh_skew_ms p)"
  obtains m where "map_of (cache c) i = Some m" "outlives gap now m"
proof -
  obtain m where m: "map_of (cache c) i = Some m" "sat_add now (prov_refresh_skew_ms p) < ms_expires_at_ms m"
    using assms(1) by (auto simp: needs_refresh_def not_le split: option.splits)
  have "unat (ms_expires_at_ms m) \<le> 2 ^ 64 - 1" using unsigned_less [of "ms_expires_at_ms m", where 'a = nat] by simp
  with m(2) assms(2) have "outlives gap now m"
    unfolding word_less_nat_alt unat_sat_add outlives_def by linarith
  with m(1) show thesis by (rule that)
qed

lemma refresh_outlives:
  assumes "distinct (map fst (providers c))" "(i, p) \<in> set (providers c)" "gap \<le> unat (prov_refresh_skew_ms p)"
    and "prov_mint p now = Inr m" "outlives gap now m"
  shows "\<exists>m'. map_of (cache (snd (refresh_due now c))) i = Some m' \<and> outlives gap now m'"
proof -
  have p: "map_of (providers c) i = Some p" using assms(1,2) by simp
  show ?thesis
  proof (cases "needs_refresh c i p now")
    case True
    with p assms(4,5) show ?thesis by (simp add: refresh_due_facts [OF assms(1)] due_mint_def)
  next
    case False
    then obtain m' where "map_of (cache c) i = Some m'" "outlives gap now m'"
      using skipped_outlives assms(3) by metis
    with p False show ?thesis by (simp add: refresh_due_facts [OF assms(1)] due_mint_def)
  qed
qed

section \<open>Property\<close>

text \<open>C33. Minted credentials are always fresh: while the refresher's ticks are no further apart than the provider's
  skew and the provider mints values that live longer than that, every lookup between two ticks serves a
  value that has not expired at the moment of the lookup. The static secrets shadow a provider, hence the premise
  that the id has none.\<close>

theorem minted_credentials_stay_fresh:
  assumes "distinct (map fst (providers c))" "(i, p) \<in> set (providers c)" "map_of (static_secrets c) i = None"
    and "gap \<le> unat (prov_refresh_skew_ms p)"
    and "\<And>now. now \<in> set readings \<Longrightarrow> \<exists>m. prov_mint p now = Inr m \<and> outlives gap now m"
    and "k < length readings" "unat t \<le> unat (readings ! k) + gap"
  shows "\<exists>m. map_of (cache (spawn_refresher (take (Suc k) readings) c)) i = Some m \<and> t < ms_expires_at_ms m
    \<and> caching_resolve (spawn_refresher (take (Suc k) readings) c) i = Some (ms_secret m)"
proof -
  let ?before = "spawn_refresher (take k readings) c" and ?now = "readings ! k"
  note before = spawn_refresher_config [OF assms(1), of "take k readings"]
  have now: "spawn_refresher (take (Suc k) readings) c = snd (refresh_due ?now ?before)"
    using assms(6) by (simp add: take_Suc_conv_app_nth)
  have d: "distinct (map fst (providers ?before))" and ip: "(i, p) \<in> set (providers ?before)"
    using before assms(1,2) by simp_all
  obtain m0 where "prov_mint p ?now = Inr m0" "outlives gap ?now m0" using assms(5,6) nth_mem by metis
  from refresh_outlives [OF d ip assms(4) this] obtain m where
    m: "map_of (cache (snd (refresh_due ?now ?before))) i = Some m" "outlives gap ?now m" by blast
  have "t < ms_expires_at_ms m" using m(2) assms(7) by (simp add: outlives_def word_less_nat_alt)
  moreover have "map_of (static_secrets (snd (refresh_due ?now ?before))) i = None"
    using before assms(3) by (simp add: refresh_due_facts [OF d])
  ultimately show ?thesis using m(1) by (simp add: now caching_resolve_def)
qed

text \<open>The EKS provider under the start-up's interval of a minute: its values live fifteen minutes.\<close>

lemma eks_outlives:
  assumes "unat now + 900000 < 2 ^ 64"
  shows "\<exists>m. prov_mint (eks_as_provider E P ep) now = Inr m \<and> outlives 60000 now m"
  using assms by (simp add: eks_as_provider_def eks_mint_def outlives_def unat_sat_add EKS_TOKEN_TTL_MS_def)

theorem minted_credentials_stay_fresh_witness:
  "\<exists>m. map_of (cache (spawn_refresher [1000, 61000, 121000] (caching_new []
      [(''eks'', eks_as_provider plain_env demo_provider_env \<lparr> eks_access_key_id = ''AKIA'', eks_secret_access_key = ''s'',
         eks_region = ''us-east-1'', eks_cluster_name = ''c'' \<rparr>)]))) ''eks'' = Some m \<and> 181000 < ms_expires_at_ms m"
proof -
  let ?p = "eks_as_provider plain_env demo_provider_env \<lparr> eks_access_key_id = ''AKIA'', eks_secret_access_key = ''s'',
         eks_region = ''us-east-1'', eks_cluster_name = ''c'' \<rparr>"
  let ?c = "caching_new [] [(''eks'', ?p)]" and ?rs = "[1000, 61000, 121000] :: u64 list"
  have c: "distinct (map fst (providers ?c))" "(''eks'', ?p) \<in> set (providers ?c)" "map_of (static_secrets ?c) ''eks'' = None"
    by (simp_all add: caching_new_def)
  have skew: "60000 \<le> unat (prov_refresh_skew_ms ?p)" by (simp add: eks_as_provider_def default_refresh_skew_ms_def)
  have mint: "\<exists>m. prov_mint ?p now = Inr m \<and> outlives 60000 now m" if "now \<in> set ?rs" for now
    using that by (intro eks_outlives) auto
  have t: "2 < length ?rs" "unat (181000 :: u64) \<le> unat (?rs ! 2) + 60000" by simp_all
  have "take (Suc 2) ?rs = ?rs" by simp
  with minted_credentials_stay_fresh [OF c skew mint t] show ?thesis by auto
qed

section \<open>The tunnel of an upgrade\<close>

text \<open>
  The task the relay spawns after the upstream has switched: it waits for both connections to be upgraded and then
  copies bytes both ways until one of them ends; \<open>copy\<close> is \<^verbatim>\<open>copy_bidirectional\<close> (the error it ends with, if any), and
  \<open>client_first\<close> says which failure is seen first when both fail.
\<close>

datatype ('c, 'u) splice = HandshakeFailed string | Spliced 'c 'u "string option"

definition splice_task :: "('c \<Rightarrow> 'u \<Rightarrow> string option) \<Rightarrow> bool \<Rightarrow> string + 'c \<Rightarrow> string + 'u \<Rightarrow> ('c, 'u) splice" where
  "splice_task copy client_first client_on_upgrade upstream_on_upgrade =
     (case (client_on_upgrade, upstream_on_upgrade) of
        (Inr client, Inr upstream) \<Rightarrow> Spliced client upstream (copy client upstream)
      | (Inl e, Inr _) \<Rightarrow> HandshakeFailed e
      | (Inr _, Inl e) \<Rightarrow> HandshakeFailed e
      | (Inl e, Inl e') \<Rightarrow> HandshakeFailed (if client_first then e else e'))"

text \<open>The relay over a network: its answer, and the task it spawns.\<close>

definition tunnel_run ::
  "'h env \<Rightarrow> (string \<Rightarrow> bool) \<Rightarrow> ('tcp, 'tls, 's) network \<Rightarrow> ('s \<Rightarrow> 'h upstream_request \<Rightarrow> string + nat \<times> 'h \<times> bytes)
   \<Rightarrow> ('c \<Rightarrow> 'u \<Rightarrow> string option) \<Rightarrow> bool \<Rightarrow> string + 'c \<Rightarrow> ('s \<Rightarrow> string + 'u) \<Rightarrow> 'h forward_plan
   \<Rightarrow> 'h relay \<times> ('c, 'u) splice option" where
  "tunnel_run E uri_ok net send copy client_first client_on_upgrade upstream_on_upgrade plan =
     (case target_parse (fp_url plan) of
        None \<Rightarrow> (BadGateway ''invalid upstream url for upgrade'', None)
      | Some target \<Rightarrow>
          (case connect net target of
             Inl e \<Rightarrow> (BadGateway (''upstream connect failed: '' @ e), None)
           | Inr sender \<Rightarrow>
               (case build_request E uri_ok plan target of
                  Inl e \<Rightarrow> (BadGateway e, None)
                | Inr req \<Rightarrow>
                    (case send sender req of
                       Inl e \<Rightarrow> (BadGateway (''upstream upgrade request failed: '' @ e), None)
                     | Inr (status, headers, body) \<Rightarrow>
                         if status \<noteq> 101 then (Relayed status headers body, None)
                         else (Switched status headers,
                           Some (splice_task copy client_first client_on_upgrade (upstream_on_upgrade sender)))))))"

text \<open>Its answer is the relay's over the connections of this network, and a task is spawned for an upstream that switched only.\<close>

lemma tunnel_run_answer:
  "fst (tunnel_run E uri_ok net send copy client_first on_client on_upstream plan) =
     tunnel E uri_ok (\<lambda>t. case connect net t of Inl e \<Rightarrow> Inl e | Inr _ \<Rightarrow> Inr ())
       (\<lambda>req. case target_parse (fp_url plan) of None \<Rightarrow> Inl [] | Some t \<Rightarrow>
          (case connect net t of Inl e \<Rightarrow> Inl e | Inr sender \<Rightarrow> send sender req)) plan"
  by (simp add: tunnel_run_def tunnel_def split: option.split sum.split)

lemma tunnel_run_spawns:
  assumes "tunnel_run E uri_ok net send copy client_first on_client on_upstream plan = (r, Some task)"
  obtains t sender rq headers body where "target_parse (fp_url plan) = Some t" "connect net t = Inr sender"
    "build_request E uri_ok plan t = Inr rq" "send sender rq = Inr (101, headers, body)" "r = Switched 101 headers"
    "task = splice_task copy client_first on_client (on_upstream sender)"
  using assms by (auto simp: tunnel_run_def split: option.splits sum.splits prod.splits if_splits)


definition open_network :: "(unit, unit, unit) network" where
  "open_network = \<lparr> net_dial = (\<lambda>_ _. Inr ()), net_server_name = Some, net_tls_connect = (\<lambda>_ _. Inr ()), net_http1 = (\<lambda>_. Inr ()) \<rparr>"

definition upgrade_http_request :: "header_list http_request" where
  "upgrade_http_request = \<lparr> rq_method = ''GET'', rq_path = ''/repos/a'', rq_query = None,
     rq_headers = q_headers demo_request @ [(''connection'', ''Upgrade''), (''upgrade'', ''websocket'')], rq_body = Some [], rq_on_upgrade = True \<rparr>"

lemma upgrade_tunnelled:
  obtains plan g' where "proxy_decide list_env upgrade_http_request 5 demo_gateway = Some (TunnelPlan plan, g')"
    "fp_url plan = ''https://up.example.com/repos/a''"
proof -
  have "case proxy_decide list_env upgrade_http_request 5 demo_gateway of
      Some (TunnelPlan plan, _) \<Rightarrow> fp_url plan = ''https://up.example.com/repos/a'' | _ \<Rightarrow> False"
    by code_simp
  then show thesis by (auto split: option.splits proxy_step.splits intro: that)
qed


end
