(* ===== verification/Program.thy ===== *)
theory Program
  imports MintCommand Runtime
begin

text \<open>
  The whole of the \<^verbatim>\<open>hackamore\<close> command, \<^verbatim>\<open>cli/src/main.rs\<close>: \<^verbatim>\<open>serve\<close> from reading the configuration to the end of the
  listeners, and the choice of the subcommand. What the operating system and the framework's server do with
  a listener is a record of parameters; the parsing of arguments and the set-up of logging are libraries.
\<close>

section \<open>The serve subcommand\<close>

record serve_args =
  sa_config :: string

record ('c, 'tcp, 'tls, 'l) platform =
  pl_bind :: "string \<Rightarrow> string + 'l"
  pl_axum_end :: "'l \<Rightarrow> string option"
  pl_accept_tls :: "'c \<Rightarrow> 'tcp \<Rightarrow> string + 'tls"
  pl_incoming :: "'l \<Rightarrow> 'tcp accepted list"

text \<open>The gateway that is served and how serving goes, or the error before anything is served.\<close>

definition serve ::
  "'h env \<Rightarrow> 'k provider_env \<Rightarrow> ('k, 'c) world \<Rightarrow> ('c, 'tcp, 'tls, 'l) platform \<Rightarrow> serve_args \<Rightarrow> u64 \<Rightarrow> nat
   \<Rightarrow> string + gateway \<times> 'l serving" where
  "serve E P w pl args now draws0 =
     and_then (serve_setup E P w (sa_config args) now draws0) (\<lambda>st.
       case server_serve (pl_bind pl) (pl_axum_end pl) (pl_accept_tls pl) (pl_incoming pl)
              (st_proxy_addr st) (st_admin_addr st) (st_tls st) of
         NotBound e \<Rightarrow> Inl e
       | running \<Rightarrow> Inr (st_gateway st, running))"

section \<open>The command\<close>

datatype command = Serve serve_args | Mint mint_args

text \<open>A server that does not end, the line that \<^verbatim>\<open>mint\<close> prints, or the error that \<^verbatim>\<open>main\<close> returns.\<close>

datatype 'l outcome = Running gateway 'l 'l | Printed string | Failed string

definition main ::
  "'h env \<Rightarrow> 'k provider_env \<Rightarrow> ('k, 'c) world \<Rightarrow> ('c, 'tcp, 'tls, 'l) platform \<Rightarrow> mint_client \<Rightarrow> u64 \<Rightarrow> nat
   \<Rightarrow> command \<Rightarrow> 'l outcome" where
  "main E P w pl mc now draws0 command =
     (case command of
        Serve args \<Rightarrow>
          (case serve E P w pl args now draws0 of
             Inl e \<Rightarrow> Failed e
           | Inr (_, NotBound e) \<Rightarrow> Failed e
           | Inr (_, Serving _ _ (Some e)) \<Rightarrow> Failed e
           | Inr (g, Serving proxy_listener admin_listener None) \<Rightarrow> Running g proxy_listener admin_listener)
      | Mint args \<Rightarrow>
          (case mint_command mc args of
             Inl e \<Rightarrow> Failed e
           | Inr line \<Rightarrow> Printed line))"

section \<open>What a running server is\<close>

text \<open>TLS in the configuration is TLS on the listener, with the material of the configured files.\<close>

lemma build_tls_some:
  assumes "build_tls w (Some t) = Inr (tls, ca)"
  obtains cert key c where "w_read w (tc_cert t) = Inr cert" "w_read w (tc_key t) = Inr key" "tls = Some c"
    "server_config (w_decode w) (w_to_key w) (w_build_tls w) \<lparr> cert_pem = cert, key_pem = key, ca_pem = ca \<rparr> = Inr c"
  using assms by (auto simp: build_tls_def and_then_Inr map_err_def split: sum.splits)

lemma server_serve_running:
  assumes "server_serve bind_addr axum_end accept_tls incoming proxy_addr admin_addr tls = Serving lp la None"
  shows "bind_addr proxy_addr = Inr lp \<and> bind_addr admin_addr = Inr la \<and> axum_end la = None
    \<and> (case tls of None \<Rightarrow> axum_end lp = None | Some c \<Rightarrow> snd (serve_proxy_tls (accept_tls c) (incoming lp)) = None)"
  using assms by (cases tls) (auto simp: server_serve_def try_join_def split: sum.splits option.splits)

lemma serve_served:
  assumes "serve E P w pl args now n = Inr (g, r)"
  shows "\<exists>st. serve_setup E P w (sa_config args) now n = Inr st \<and> g = st_gateway st
     \<and> r = server_serve (pl_bind pl) (pl_axum_end pl) (pl_accept_tls pl) (pl_incoming pl)
         (st_proxy_addr st) (st_admin_addr st) (st_tls st)"
proof -
  obtain st where st: "serve_setup E P w (sa_config args) now n = Inr st"
    and r: "(case server_serve (pl_bind pl) (pl_axum_end pl) (pl_accept_tls pl) (pl_incoming pl)
         (st_proxy_addr st) (st_admin_addr st) (st_tls st) of NotBound e \<Rightarrow> Inl e | running \<Rightarrow> Inr (st_gateway st, running)) = Inr (g, r)"
    using assms unfolding serve_def and_then_Inr by blast
  from r show ?thesis by (intro exI [of _ st]) (auto simp: st split: serving.split_asm)
qed

lemma main_running:
  assumes "main E P w pl mc now n command = Running g lp la"
  obtains args st where "command = Serve args" "serve_setup E P w (sa_config args) now n = Inr st" "g = st_gateway st"
    "pl_bind pl (st_proxy_addr st) = Inr lp" "pl_bind pl (st_admin_addr st) = Inr la" "pl_axum_end pl la = None"
    "case st_tls st of None \<Rightarrow> pl_axum_end pl lp = None
       | Some c \<Rightarrow> snd (serve_proxy_tls (pl_accept_tls pl c) (pl_incoming pl lp)) = None"
proof -
  obtain args where args: "command = Serve args" "serve E P w pl args now n = Inr (g, Serving lp la None)"
    using assms by (auto simp: main_def split: command.splits sum.splits serving.splits option.splits)
  then obtain st where st: "serve_setup E P w (sa_config args) now n = Inr st" "g = st_gateway st"
    "server_serve (pl_bind pl) (pl_axum_end pl) (pl_accept_tls pl) (pl_incoming pl)
       (st_proxy_addr st) (st_admin_addr st) (st_tls st) = Serving lp la None"
    by (metis serve_served)
  with args(1) server_serve_running [OF st(3)] that show thesis by blast
qed

lemma serve_setup_addresses:
  assumes "serve_setup E P w path now n = Inr st" "config_load w path = Inr cfg"
  shows "w_addr w (c_proxy_addr cfg) = Inr (st_proxy_addr st)" "w_addr w (c_admin_addr cfg) = Inr (st_admin_addr st)"
    "build_tls w (c_tls cfg) = Inr (st_tls st, g_ca (st_gateway st))"
    "build_audit w cfg = Inr ()"
  using assms by (auto simp: serve_setup_def and_then_Inr Let_def with_ca_def)

text \<open>
  A server runs only on the addresses of a configuration that loaded, with its audit log opened and, when the
  configuration has TLS, only over TLS with the certificate and key of the configured files: it never falls
  back to plain HTTP. Its gateway satisfies the invariant that every run of requests preserves.
\<close>

theorem running_server_is_configured:
  assumes "main E P w pl mc now n command = Running g lp la"
  shows "\<exists>args cfg proxy_addr admin_addr. command = Serve args \<and> config_load w (sa_config args) = Inr cfg
    \<and> w_addr w (c_proxy_addr cfg) = Inr proxy_addr \<and> pl_bind pl proxy_addr = Inr lp
    \<and> w_addr w (c_admin_addr cfg) = Inr admin_addr \<and> pl_bind pl admin_addr = Inr la
    \<and> build_audit w cfg = Inr () \<and> g_router g = map build_service (c_services cfg) \<and> server_inv g
    \<and> (\<forall>t. c_tls cfg = Some t \<longrightarrow> (\<exists>cert key c. w_read w (tc_cert t) = Inr cert \<and> w_read w (tc_key t) = Inr key
         \<and> server_config (w_decode w) (w_to_key w) (w_build_tls w) \<lparr> cert_pem = cert, key_pem = key, ca_pem = g_ca g \<rparr> = Inr c
         \<and> snd (serve_proxy_tls (pl_accept_tls pl c) (pl_incoming pl lp)) = None))"
proof -
  obtain args st where m: "command = Serve args" "serve_setup E P w (sa_config args) now n = Inr st" "g = st_gateway st"
    "pl_bind pl (st_proxy_addr st) = Inr lp" "pl_bind pl (st_admin_addr st) = Inr la"
    and ends: "case st_tls st of None \<Rightarrow> pl_axum_end pl lp = None
       | Some c \<Rightarrow> snd (serve_proxy_tls (pl_accept_tls pl c) (pl_incoming pl lp)) = None"
    by (rule main_running [OF assms])
  from startup_reflects_config [OF m(2)] obtain cfg where cfg: "config_load w (sa_config args) = Inr cfg"
    "server_inv g" "g_router g = map build_service (c_services cfg)" unfolding m(3) by blast
  note a = serve_setup_addresses [OF m(2) cfg(1)]
  have "\<exists>cert key c. w_read w (tc_cert t) = Inr cert \<and> w_read w (tc_key t) = Inr key
         \<and> server_config (w_decode w) (w_to_key w) (w_build_tls w) \<lparr> cert_pem = cert, key_pem = key, ca_pem = g_ca g \<rparr> = Inr c
         \<and> snd (serve_proxy_tls (pl_accept_tls pl c) (pl_incoming pl lp)) = None" if t: "c_tls cfg = Some t" for t
  proof -
    obtain cert key c where c: "w_read w (tc_cert t) = Inr cert" "w_read w (tc_key t) = Inr key" "st_tls st = Some c"
      "server_config (w_decode w) (w_to_key w) (w_build_tls w) \<lparr> cert_pem = cert, key_pem = key, ca_pem = g_ca g \<rparr> = Inr c"
      using a(3) [folded m(3)] unfolding t by (rule build_tls_some)
    from ends have "snd (serve_proxy_tls (pl_accept_tls pl c) (pl_incoming pl lp)) = None" by (simp add: c(3))
    with c(1,2,4) show ?thesis by blast
  qed
  with m cfg a(1,2,4) show ?thesis by blast
qed

text \<open>A start that fails does so before any listener is bound, whatever the platform would do.\<close>

lemma failed_setup_binds_nothing:
  "serve_setup E P w (sa_config args) now n = Inl e \<Longrightarrow> main E P w pl mc now n (Serve args) = Failed e"
  by (simp add: main_def serve_def and_then_def)

section \<open>A run\<close>

definition demo_platform :: "(unit, unit, unit, string) platform" where
  "demo_platform = \<lparr> pl_bind = Inr, pl_axum_end = (\<lambda>_. None), pl_accept_tls = (\<lambda>_ _. Inl []), pl_incoming = (\<lambda>_. []) \<rparr>"

theorem running_server_is_configured_witness:
  "\<exists>g lp la. main plain_env demo_provider_env demo_world demo_platform (demo_mint_client empty_gateway) 0 0
      (Serve \<lparr> sa_config = ''c.json'' \<rparr>) = Running g lp la \<and> server_inv g"
proof -
  obtain st where st: "serve_setup plain_env demo_provider_env demo_world ''c.json'' 0 0 = Inr st" by (rule demo_startup)
  then have "\<exists>g lp la. main plain_env demo_provider_env demo_world demo_platform (demo_mint_client empty_gateway) 0 0
      (Serve \<lparr> sa_config = ''c.json'' \<rparr>) = Running g lp la"
    by (simp add: main_def serve_def and_then_def server_serve_def demo_platform_def try_join_def split: option.split)
  then obtain g lp la where r: "main plain_env demo_provider_env demo_world demo_platform (demo_mint_client empty_gateway) 0 0
      (Serve \<lparr> sa_config = ''c.json'' \<rparr>) = Running g lp la" by blast
  from running_server_is_configured [OF r] r show ?thesis by blast
qed

end
