(* ===== verification/Secrecy.thy ===== *)
theory Secrecy
  imports Interleaving
begin

text \<open>
  Secrecy of the operator's credentials, as noninterference. Two gateways are \<open>gateways_alike\<close> when they
  differ in secret values only: the same services, tokens, tenants and log, the same credential ids, values
  that are legal header values in both or in neither, and providers that mint at the same times with the same
  expiry. What a gateway shows is the list of its \<open>observation\<close>s: the answers of its own, on both listeners,
  and the plans it sends upstream. The unwinding lemmas show operation by operation that alike gateways show
  the same, up to the headers an outbound stance injects, and stay alike. The last section is the other half
  of isolation: of the token table a request sees one entry, the one it presents.
\<close>

section \<open>Unwinding\<close>

text \<open>
  A deterministic machine with outputs whose runs list the outputs of their steps. If one step from alike
  states shows alike outputs and leads to alike states, so does a run. What counts as alike outputs may depend on a
  part of the state that no step changes.
\<close>

locale unwinding =
  fixes step :: "'i \<Rightarrow> 's \<Rightarrow> 'o \<times> 's"
    and run :: "'i list \<Rightarrow> 's \<Rightarrow> 'o list \<times> 's"
    and alike :: "'s \<Rightarrow> 's \<Rightarrow> bool"
    and shows_alike :: "'s \<Rightarrow> 'o \<Rightarrow> 'o \<Rightarrow> bool"
  assumes run_Nil: "run [] s = ([], s)"
    and run_Cons: "run (i # is) s = (fst (step i s) # fst (run is (snd (step i s))), snd (run is (snd (step i s))))"
    and outputs_alike: "alike s s' \<Longrightarrow> shows_alike s (fst (step i s)) (fst (step i s'))"
    and states_alike: "alike s s' \<Longrightarrow> alike (snd (step i s)) (snd (step i s'))"
    and shows_step: "shows_alike (snd (step i s)) = shows_alike s"
begin

lemma runs_alike:
  assumes "alike s s'"
  shows "list_all2 (shows_alike s) (fst (run is s)) (fst (run is s')) \<and> alike (snd (run is s)) (snd (run is s'))"
  using assms
proof (induction "is" arbitrary: s s')
  case (Cons i "is")
  from Cons.IH [OF states_alike [OF Cons.prems]] outputs_alike [OF Cons.prems] show ?case
    by (simp add: run_Cons shows_step)
qed (simp add: run_Nil)

lemma observers_cannot_tell:
  assumes "alike s s'" "\<And>o' o''. shows_alike s o' o'' \<Longrightarrow> o' = o''"
  shows "fst (run is s) = fst (run is s')"
  using runs_alike [OF assms(1), of "is"] assms(2) by (simp add: list_all2_conv_all_nth list_eq_iff_nth_eq)

end

section \<open>Gateways that differ in secret values\<close>

definition secrets_alike :: "'h env \<Rightarrow> secret \<Rightarrow> secret \<Rightarrow> bool" where
  "secrets_alike E s s' \<longleftrightarrow>
     (value_from_str E s = None \<longleftrightarrow> value_from_str E s' = None)
     \<and> (value_from_str E (''Bearer '' @ s) = None \<longleftrightarrow> value_from_str E (''Bearer '' @ s') = None)"

definition minted_alike :: "'h env \<Rightarrow> minted_secret \<Rightarrow> minted_secret \<Rightarrow> bool" where
  "minted_alike E m m' \<longleftrightarrow> secrets_alike E (ms_secret m) (ms_secret m') \<and> ms_expires_at_ms m = ms_expires_at_ms m'"

text \<open>Why a mint failed is only logged by the process, so the messages may differ.\<close>

definition providers_alike :: "'h env \<Rightarrow> string \<times> provider \<Rightarrow> string \<times> provider \<Rightarrow> bool" where
  "providers_alike E ip jq \<longleftrightarrow> fst ip = fst jq \<and> prov_refresh_skew_ms (snd ip) = prov_refresh_skew_ms (snd jq)
     \<and> (\<forall>now. rel_sum (\<lambda>_ _. True) (minted_alike E) (prov_mint (snd ip) now) (prov_mint (snd jq) now))"

definition caches_alike :: "'h env \<Rightarrow> caching \<Rightarrow> caching \<Rightarrow> bool" where
  "caches_alike E c c' \<longleftrightarrow> list_all2 (providers_alike E) (providers c) (providers c')
     \<and> (\<forall>i. rel_option (secrets_alike E) (map_of (static_secrets c) i) (map_of (static_secrets c') i))
     \<and> (\<forall>i. rel_option (minted_alike E) (map_of (cache c) i) (map_of (cache c') i))"

fun vaults_alike :: "'h env \<Rightarrow> credential_store \<Rightarrow> credential_store \<Rightarrow> bool" where
  "vaults_alike E (InMemoryStore v) (InMemoryStore v') \<longleftrightarrow>
     (\<forall>i. rel_option (secrets_alike E) (in_memory_resolve v i) (in_memory_resolve v' i))"
| "vaults_alike E (CachingStore c) (CachingStore c') \<longleftrightarrow> caches_alike E c c'"
| "vaults_alike E _ _ \<longleftrightarrow> False"

definition controls_alike :: "'h env \<Rightarrow> control \<Rightarrow> control \<Rightarrow> bool" where
  "controls_alike E c c' \<longleftrightarrow> cp_tokens c = cp_tokens c' \<and> cp_tenants c = cp_tenants c' \<and> cp_audit c = cp_audit c'
     \<and> vaults_alike E (cp_credentials c) (cp_credentials c')"

definition gateways_alike :: "'h env \<Rightarrow> gateway \<Rightarrow> gateway \<Rightarrow> bool" where
  "gateways_alike E g g' \<longleftrightarrow> g_router g = g_router g' \<and> g_catalogs g = g_catalogs g' \<and> g_ca g = g_ca g'
     \<and> controls_alike E (g_control g) (g_control g')"

lemma resolve_alike:
  "vaults_alike E v v' \<Longrightarrow> rel_option (secrets_alike E) (store_resolve v i) (store_resolve v' i)"
proof (induction E v v' rule: vaults_alike.induct)
  case (2 E c c')
  then have "rel_option (secrets_alike E) (map_of (static_secrets c) i) (map_of (static_secrets c') i)"
    "rel_option (minted_alike E) (map_of (cache c) i) (map_of (cache c') i)"
    by (simp_all add: caches_alike_def)
  then show ?case
    by (cases "map_of (static_secrets c) i"; cases "map_of (static_secrets c') i";
        cases "map_of (cache c) i"; cases "map_of (cache c') i")
      (simp_all add: caching_resolve_def minted_alike_def)
qed simp_all

lemma controls_alikeD:
  assumes "controls_alike E c c'"
  shows "cp_tokens c' = cp_tokens c" "cp_tenants c' = cp_tenants c" "cp_audit c' = cp_audit c"
    "rel_option (secrets_alike E) (store_resolve (cp_credentials c) i) (store_resolve (cp_credentials c') i)"
  using assms resolve_alike by (auto simp: controls_alike_def)

lemma controls_alike_audit [simp]:
  "controls_alike E c c' \<Longrightarrow> controls_alike E (audit a v d now c) (audit a v d now c')"
  "controls_alike E c c' \<Longrightarrow> controls_alike E (audit_raw h v d now c) (audit_raw h v d now c')"
  by (simp_all add: controls_alike_def audit_raw_def audit_def)

section \<open>What a gateway shows\<close>

text \<open>Plans that differ at most in the values of headers that one service's stance injects.\<close>

definition plans_alike :: "'h env \<Rightarrow> service list \<Rightarrow> 'h forward_plan \<Rightarrow> 'h forward_plan \<Rightarrow> bool" where
  "plans_alike E services p p' \<longleftrightarrow> fp_url p = fp_url p' \<and> fp_method p = fp_method p' \<and> fp_body p = fp_body p'
     \<and> list_ex (\<lambda>svc. \<forall>n. n \<in> injected_names E svc \<or> header_values E (fp_headers p) n = header_values E (fp_headers p') n) services"

fun outcomes_alike :: "'h env \<Rightarrow> service list \<Rightarrow> 'h outcome \<Rightarrow> 'h outcome \<Rightarrow> bool" where
  "outcomes_alike E services (Reject r) (Reject r') \<longleftrightarrow> r = r'"
| "outcomes_alike E services (Forward p) (Forward p') \<longleftrightarrow> plans_alike E services p p'"
| "outcomes_alike E services _ _ \<longleftrightarrow> False"

lemma outcomes_alike_refl [simp]: "\<not> is_forward out \<Longrightarrow> outcomes_alike E services out out"
  by (cases out) (simp_all add: is_forward_def)

section \<open>The request path\<close>

text \<open>Two results of the outbound stance: the same early answer, or headers that agree outside it, and the same detail.\<close>

definition stances_alike ::
  "'h env \<Rightarrow> service \<Rightarrow> ('h outcome + 'h \<times> string) \<times> control \<Rightarrow> ('h outcome + 'h \<times> string) \<times> control \<Rightarrow> bool" where
  "stances_alike E svc r r' \<longleftrightarrow> controls_alike E (snd r) (snd r')
     \<and> rel_sum (\<lambda>out out'. out = out' \<and> \<not> is_forward out)
         (\<lambda>(h, d) (h', d'). d = d' \<and> (\<forall>n. n \<in> injected_names E svc \<or> header_values E h n = header_values E h' n))
         (fst r) (fst r')"

lemma resolve_header_value_alike:
  assumes "controls_alike E c c'" "pfx = [] \<or> pfx = ''Bearer ''"
  obtains (refused) out d d' where "resolve_header_value E act cred pfx now c = (Inl out, d)"
      "resolve_header_value E act cred pfx now c' = (Inl out, d')" "\<not> is_forward out" "controls_alike E d d'"
    | (found) v v' where "resolve_header_value E act cred pfx now c = (Inr v, c)"
      "resolve_header_value E act cred pfx now c' = (Inr v', c')"
proof -
  from controls_alikeD(4) [OF assms(1), of cred] assms(2)
  consider "store_resolve (cp_credentials c) cred = None" "store_resolve (cp_credentials c') cred = None"
    | s s' where "store_resolve (cp_credentials c) cred = Some s" "store_resolve (cp_credentials c') cred = Some s'"
      "value_from_str E (pfx @ s) = None" "value_from_str E (pfx @ s') = None"
    | s s' v v' where "store_resolve (cp_credentials c) cred = Some s" "store_resolve (cp_credentials c') cred = Some s'"
      "value_from_str E (pfx @ s) = Some v" "value_from_str E (pfx @ s') = Some v'"
    by (cases "store_resolve (cp_credentials c) cred"; cases "store_resolve (cp_credentials c') cred")
      (auto simp: secrets_alike_def)
  then show thesis
  proof cases
    case 1
    show ?thesis
      by (rule refused [of "bad_gateway ''required credential is not configured''"
          "audit act DecDeny (not_configured cred) now c" "audit act DecDeny (not_configured cred) now c'"])
        (use 1 assms(1) in \<open>auto simp: resolve_header_value_def\<close>)
  next
    case 2
    show ?thesis
      by (rule refused [of "bad_gateway ''credential is not header-safe''"
          "audit act DecDeny ''credential not header-safe'' now c" "audit act DecDeny ''credential not header-safe'' now c'"])
        (use 2 assms(1) in \<open>auto simp: resolve_header_value_def expose_def\<close>)
  next
    case 3
    then show ?thesis by (intro found) (simp_all add: resolve_header_value_def expose_def)
  qed
qed

text \<open>Whether signing panics does not depend on the secret; the signature is in one header only.\<close>

lemma sign_alike:
  "rel_option (\<lambda>sg sg'. sg_amz_date sg = sg_amz_date sg' \<and> sg_content_sha256 sg = sg_content_sha256 sg')
     (sign E cr reg svc method host path query body t) (sign E cr' reg svc method host path query body t)"
proof (cases "sign E cr reg svc method host path query body t")
  case None
  then have "sign E cr' reg svc method host path query body t = None"
    by (metis (no_types) not_Some_eq sign_eq)
  with None show ?thesis by simp
next
  case (Some sg)
  then obtain sg' where sg': "sign E cr' reg svc method host path query body t = Some sg'"
    unfolding sign_eq by blast
  have "sg_amz_date sg = sg_amz_date sg' \<and> sg_content_sha256 sg = sg_content_sha256 sg'"
    using Some sg' by (auto simp: sign_eq)
  then show ?thesis unfolding Some sg' by simp
qed

lemma apply_outbound_alike:
  assumes laws: "http_laws E" and c: "controls_alike E c c'"
  shows "rel_option (stances_alike E svc) (apply_outbound E svc act req h now c) (apply_outbound E svc act req h now c')"
proof (cases "s_outbound svc")
  case Passthrough
  with c show ?thesis by (simp add: apply_outbound_def stances_alike_def)
next
  case (Bearer cred)
  show ?thesis
    by (rule resolve_header_value_alike [OF c, of "''Bearer ''" act cred now])
      (use Bearer c in \<open>simp_all add: apply_outbound_def stances_alike_def injected_names_def http_insert [OF laws]\<close>)
next
  case (Header nm cred)
  show ?thesis
  proof (cases "name_from_bytes E nm")
    case None
    with Header c show ?thesis by (simp add: apply_outbound_def stances_alike_def)
  next
    case (Some m)
    from http_name [OF laws Some] have m: "to_ascii_lowercase m = to_ascii_lowercase nm" by simp
    show ?thesis
      by (rule resolve_header_value_alike [OF c, of "[]" act cred now])
        (use Header Some c m in \<open>simp_all add: apply_outbound_def stances_alike_def injected_names_def http_insert [OF laws]\<close>)
  qed
next
  case (OutSigV4 cred akid rgn aws)
  show ?thesis
  proof (cases "store_resolve (cp_credentials c) cred")
    case None
    with controls_alikeD(4) [OF c, of cred] OutSigV4 c show ?thesis by (simp add: apply_outbound_def stances_alike_def)
  next
    case (Some s)
    with controls_alikeD(4) [OF c, of cred] obtain s' where s': "store_resolve (cp_credentials c') cred = Some s'"
      by (auto simp: option_rel_Some1)
    let ?sign = "\<lambda>s. sign E \<lparr> cr_access_key_id = akid, cr_secret_access_key = expose s \<rparr> rgn aws (q_method req)
      (host_of (s_upstream_base svc)) (q_path req) (q_query req) (q_body req) now"
    have "rel_option (\<lambda>sg sg'. sg_amz_date sg = sg_amz_date sg' \<and> sg_content_sha256 sg = sg_content_sha256 sg') (?sign s) (?sign s')"
      by (rule sign_alike)
    moreover have "n \<in> injected_names E svc \<or> header_values E (set_header E ''x-amz-content-sha256'' v1
        (set_header E ''x-amz-date'' v2 (set_header E ''authorization'' v3 h))) n = header_values E (set_header E
        ''x-amz-content-sha256'' v1 (set_header E ''x-amz-date'' v2 (set_header E ''authorization'' v4 h))) n" for v1 v2 v3 v4 n
      using OutSigV4 by (cases "n \<in> injected_names E svc") (simp_all add: injected_names_def set_header_other [OF laws])
    ultimately show ?thesis
      by (cases "?sign s"; cases "?sign s'") (use OutSigV4 Some s' c in \<open>auto simp: apply_outbound_def stances_alike_def Let_def\<close>)
  qed
qed

lemma plan_forward_alike:
  assumes laws: "http_laws E" and c: "controls_alike E c c'" and svc: "svc \<in> set services"
  shows "rel_option (rel_prod (outcomes_alike E services) (controls_alike E))
     (plan_forward E svc act req source now c) (plan_forward E svc act req source now c')"
proof -
  let ?a = "\<lambda>c. apply_outbound E svc act req (sanitize_headers E (q_headers req) source) now c"
  from apply_outbound_alike [OF laws c] have "rel_option (stances_alike E svc) (?a c) (?a c')" .
  then consider "?a c = None" "?a c' = None"
    | out d d' where "?a c = Some (Inl out, d)" "?a c' = Some (Inl out, d')" "\<not> is_forward out" "controls_alike E d d'"
    | h h' v d d' where "?a c = Some (Inr (h, v), d)" "?a c' = Some (Inr (h', v), d')" "controls_alike E d d'"
      "\<forall>n. n \<in> injected_names E svc \<or> header_values E h n = header_values E h' n"
    by (cases "?a c"; cases "?a c'")
      (auto simp: stances_alike_def rel_sum_simps split: prod.splits elim!: rel_sum.cases)
  then show ?thesis
  proof cases
    case 3
    with svc have "list_ex (\<lambda>svc. \<forall>n. n \<in> injected_names E svc \<or> header_values E h n = header_values E h' n) services"
      by (auto simp: list_ex_iff)
    with 3 show ?thesis by (simp add: plan_forward_def plans_alike_def)
  qed (simp_all add: plan_forward_def)
qed

lemma handle_authenticated_alike:
  assumes laws: "http_laws E" and c: "controls_alike E c c'"
  shows "rel_option (rel_prod (outcomes_alike E services) (controls_alike E))
     (handle_authenticated E services req pol source now c) (handle_authenticated E services req pol source now c')"
proof -
  define host where "host = (case extract_host E (q_headers req) of Some h \<Rightarrow> h | None \<Rightarrow> [])"
  have r: "rel_option (rel_prod (outcomes_alike E services) (controls_alike E)) (Some (reject a b m, d)) (Some (reject a b m, d'))"
    if "controls_alike E d d'" for a b m d d' using that by simp
  show ?thesis
  proof (cases "route services host")
    case None
    with c show ?thesis unfolding handle_authenticated_def Let_def host_def [symmetric] by simp
  next
    case (Some svc)
    then have svc: "svc \<in> set services" by (simp add: routeD)
    show ?thesis
      using Some c plan_forward_alike [OF laws c svc]
      unfolding handle_authenticated_def Let_def host_def [symmetric]
      by (cases "canonicalize (q_path req)")
        (auto split: sum.split canon_error.split verdict.split Option.bind_split)
  qed
qed

lemma handle_alike:
  assumes laws: "http_laws E" and g: "gateways_alike E g g'"
  shows "rel_option (rel_prod (outcomes_alike E (g_router g)) (gateways_alike E)) (handle E req now g) (handle E req now g')"
proof -
  from g have c: "controls_alike E (g_control g) (g_control g')" and same: "g_router g' = g_router g"
    "cp_tokens (g_control g') = cp_tokens (g_control g)"
    by (auto simp: gateways_alike_def controls_alike_def)
  have upd: "gateways_alike E (g\<lparr> g_control := d \<rparr>) (g'\<lparr> g_control := d' \<rparr>)" if "controls_alike E d d'" for d d'
    using g that by (simp add: gateways_alike_def)
  show ?thesis
  proof (cases "authenticate E (cp_tokens (g_control g)) req now")
    case None
    with same show ?thesis by (simp add: handle_def)
  next
    case (Some a)
    show ?thesis
    proof (cases a)
      case (Inl out)
      with Some same g authenticate_reject [of E _ req now out] show ?thesis by (simp add: handle_def)
    next
      case (Inr ps)
      obtain pol source where ps: "ps = (pol, source)" by (cases ps)
      let ?h = "\<lambda>c. handle_authenticated E (g_router g) req pol source now c"
      have "rel_option (rel_prod (outcomes_alike E (g_router g)) (controls_alike E)) (?h (g_control g)) (?h (g_control g'))"
        by (rule handle_authenticated_alike [OF laws c])
      with upd show ?thesis
        by (cases "?h (g_control g)"; cases "?h (g_control g')")
          (auto simp: handle_def Some Inr ps same)
    qed
  qed
qed

section \<open>Both listeners\<close>

datatype 'h observation =
    Said "'h response"
  | Sent "'h forward_plan"
  | Tunnelled "'h forward_plan"
  | Silent

fun shown :: "'h proxy_step \<Rightarrow> 'h observation" where
  "shown (Answer r) = Said r"
| "shown (Send plan) = Sent plan"
| "shown (TunnelPlan plan) = Tunnelled plan"

text \<open>
  A turn of the server, or of the credential refresher. What the upstream answers is not a part of it: the
  routers hand an answer back as it comes and it changes no state.
\<close>

datatype 'h turn = Serve "'h server_event" | Refresh u64

definition refresh_vault :: "u64 \<Rightarrow> gateway \<Rightarrow> gateway" where
  "refresh_vault now g =
     (case cp_credentials (g_control g) of
        InMemoryStore _ \<Rightarrow> g
      | CachingStore c \<Rightarrow> g\<lparr> g_control := (g_control g)\<lparr> cp_credentials := CachingStore (snd (refresh_due now c)) \<rparr> \<rparr>)"

fun take_turn ::
  "'h env \<Rightarrow> ('h http_request \<Rightarrow> nat + policy \<times> u64) \<Rightarrow> ('h http_request \<Rightarrow> nat + string)
   \<Rightarrow> 'h turn \<Rightarrow> gateway \<Rightarrow> 'h observation \<times> gateway" where
  "take_turn E json_mint json_revoke (Serve (ProxyEvent request now)) g =
     (if rq_path request = PROVISION_PATH then
        (case proxy_router E (\<lambda>_. Inl []) (\<lambda>_. BadGateway []) request now g of
           None \<Rightarrow> (Silent, g)
         | Some (r, g') \<Rightarrow> (Said r, g'))
      else
        (case proxy_decide E request now g of
           None \<Rightarrow> (Silent, g)
         | Some (step, g') \<Rightarrow> (shown step, g')))"
| "take_turn E json_mint json_revoke (Serve (AdminEvent request now)) g =
     (let (r, g') = admin_router E json_mint json_revoke request now g in (Said r, g'))"
| "take_turn E json_mint json_revoke (Serve (SweepEvent now)) g = (Silent, snd (sweep_expired now g))"
| "take_turn E json_mint json_revoke (Refresh now) g = (Silent, refresh_vault now g)"

fun turns ::
  "'h env \<Rightarrow> ('h http_request \<Rightarrow> nat + policy \<times> u64) \<Rightarrow> ('h http_request \<Rightarrow> nat + string)
   \<Rightarrow> 'h turn list \<Rightarrow> gateway \<Rightarrow> 'h observation list \<times> gateway" where
  "turns E json_mint json_revoke [] g = ([], g)"
| "turns E json_mint json_revoke (t # ts) g =
     (let (obs, g') = take_turn E json_mint json_revoke t g;
          (rest, g'') = turns E json_mint json_revoke ts g'
      in (obs # rest, g''))"

text \<open>The turns are the server's: the proxy's answer is the observation, or what became of the plan it shows.\<close>

definition answer_of ::
  "'h env \<Rightarrow> ('h forward_plan \<Rightarrow> string + nat \<times> 'h \<times> bytes) \<Rightarrow> ('h forward_plan \<Rightarrow> 'h relay)
   \<Rightarrow> 'h observation \<Rightarrow> 'h response option" where
  "answer_of E client relay obs =
     (case obs of
        Said r \<Rightarrow> Some r
      | Sent plan \<Rightarrow> Some (forward E client plan)
      | Tunnelled plan \<Rightarrow> Some (relay_response (relay plan))
      | Silent \<Rightarrow> None)"

lemma turn_proxy_router:
  "take_turn E json_mint json_revoke (Serve (ProxyEvent request now)) g = (obs, g')
   \<Longrightarrow> proxy_router E client relay request now g = map_option (\<lambda>r. (r, g')) (answer_of E client relay obs)
     \<and> (obs = Silent \<longrightarrow> g' = g)"
  by (auto simp: proxy_router_def proxy_handler_def answer_of_def Let_def split: if_splits option.splits prod.splits proxy_step.splits)

lemma server_step_turn:
  "server_step E client relay json_mint json_revoke g ev g' \<longleftrightarrow> snd (take_turn E json_mint json_revoke (Serve ev) g) = g'"
proof (cases ev)
  case (ProxyEvent request now)
  obtain obs h where t: "take_turn E json_mint json_revoke (Serve (ProxyEvent request now)) g = (obs, h)" by fastforce
  note r = turn_proxy_router [OF t, of client relay]
  have "answer_of E client relay obs = None \<longleftrightarrow> obs = Silent" by (simp add: answer_of_def split: observation.split)
  with r show ?thesis unfolding ProxyEvent t
    by (cases "answer_of E client relay obs") (auto simp: server_step.simps)
next
  case (AdminEvent request now)
  then show ?thesis by (auto simp: server_step.simps split: prod.split)
next
  case (SweepEvent now)
  then show ?thesis by (auto simp: server_step.simps intro: prod.collapse [symmetric])
qed

lemma server_run_turns:
  "server_run E client relay json_mint json_revoke g evs g' \<longleftrightarrow> snd (turns E json_mint json_revoke (map Serve evs) g) = g'"
proof (induction evs arbitrary: g)
  case Nil
  show ?case by (subst server_run.simps) auto
next
  case (Cons ev evs)
  have "server_run E client relay json_mint json_revoke g (ev # evs) g' \<longleftrightarrow>
      server_run E client relay json_mint json_revoke (snd (take_turn E json_mint json_revoke (Serve ev) g)) evs g'"
    by (subst server_run.simps) (auto simp: server_step_turn)
  then show ?case unfolding Cons.IH by (simp add: split_beta Let_def del: take_turn.simps)
qed

fun observations_alike :: "'h env \<Rightarrow> service list \<Rightarrow> 'h observation \<Rightarrow> 'h observation \<Rightarrow> bool" where
  "observations_alike E services (Said r) (Said r') \<longleftrightarrow> r = r'"
| "observations_alike E services (Sent p) (Sent p') \<longleftrightarrow> plans_alike E services p p'"
| "observations_alike E services (Tunnelled p) (Tunnelled p') \<longleftrightarrow> plans_alike E services p p'"
| "observations_alike E services Silent Silent \<longleftrightarrow> True"
| "observations_alike E services _ _ \<longleftrightarrow> False"

lemma carry_alike:
  assumes laws: "http_laws E" and p: "plans_alike E services p p'"
  shows "plans_alike E services (p\<lparr> fp_headers := carry_upgrade_headers E original (fp_headers p) \<rparr>)
    (p'\<lparr> fp_headers := carry_upgrade_headers E original (fp_headers p') \<rparr>)"
proof -
  define f where "f = (\<lambda>nm plan. case headers_get E original nm of None \<Rightarrow> plan
    | Some v \<Rightarrow> (case name_from_bytes E nm of Some hn \<Rightarrow> headers_insert E plan hn v | None \<Rightarrow> plan))"
  have step: "header_values E h n = header_values E h' n \<Longrightarrow> header_values E (f nm h) n = header_values E (f nm h') n" for nm h h' n
    by (simp add: f_def http_insert [OF laws] split: option.split)
  have fold: "header_values E h n = header_values E h' n \<Longrightarrow> header_values E (fold f ns h) n = header_values E (fold f ns h') n" for ns h h' n
  proof (induction ns arbitrary: h h')
    case (Cons nm ns)
    from Cons.IH [OF step [OF Cons.prems]] show ?case by simp
  qed simp
  from p obtain svc where svc: "svc \<in> set services"
    "\<And>n. n \<in> injected_names E svc \<or> header_values E (fp_headers p) n = header_values E (fp_headers p') n"
    unfolding plans_alike_def list_ex_iff by blast
  have "n \<in> injected_names E svc \<or> header_values E (carry_upgrade_headers E original (fp_headers p)) n
      = header_values E (carry_upgrade_headers E original (fp_headers p')) n" for n
    using svc(2) [of n] fold unfolding carry_upgrade_headers_def f_def [symmetric] by blast
  with p svc(1) show ?thesis unfolding plans_alike_def list_ex_iff by auto
qed

lemma proxy_decide_alike:
  assumes laws: "http_laws E" and g: "gateways_alike E g g'"
  shows "rel_option (rel_prod (\<lambda>s s'. observations_alike E (g_router g) (shown s) (shown s')) (gateways_alike E))
    (proxy_decide E request now g) (proxy_decide E request now g')"
proof (cases "body_within (rq_body request)")
  case None
  with g show ?thesis by (simp add: proxy_decide_def)
next
  case (Some body)
  let ?rq = "\<lparr> q_method = rq_method request, q_path = rq_path request,
    q_query = (case rq_query request of Some q \<Rightarrow> q | None \<Rightarrow> []), q_headers = rq_headers request, q_body = body \<rparr>"
  have "rel_option (rel_prod (outcomes_alike E (g_router g)) (gateways_alike E)) (handle E ?rq now g) (handle E ?rq now g')"
    by (rule handle_alike [OF laws g])
  then show ?thesis using Some carry_alike [OF laws]
    by (cases "handle E ?rq now g"; cases "handle E ?rq now g'")
      (auto simp: proxy_decide_def Let_def split: outcome.split)
qed

text \<open>Minting, provisioning, revoking and sweeping do not look at the vault at all.\<close>

lemma gateways_alikeD:
  assumes "gateways_alike E g g'"
  shows "g_router g' = g_router g" "g_catalogs g' = g_catalogs g" "g_ca g' = g_ca g"
    "cp_tokens (g_control g') = cp_tokens (g_control g)" "cp_tenants (g_control g') = cp_tenants (g_control g)"
    "cp_audit (g_control g') = cp_audit (g_control g)"
    "gateways_alike E (g\<lparr> g_control := (g_control g)\<lparr> cp_tokens := ts \<rparr> \<rparr>) (g'\<lparr> g_control := (g_control g')\<lparr> cp_tokens := ts \<rparr> \<rparr>)"
  using assms by (simp_all add: gateways_alike_def controls_alike_def)

lemma mint_checked_alike:
  assumes "gateways_alike E g g'"
  shows "rel_prod (=) (gateways_alike E) (mint_checked E pol ttl tenant now g) (mint_checked E pol ttl tenant now g')"
proof -
  note same = gateways_alikeD [OF assms]
  have "check_tenant g' pol tenant = check_tenant g pol tenant" "validate_catalog g' pol = validate_catalog g pol"
    by (simp_all add: check_tenant_def validate_catalog_def same split: option.split)
  with assms same show ?thesis
    by (simp add: mint_checked_def gateway_mint_def Let_def split: option.split prod.split)
qed

lemma provision_alike:
  assumes "gateways_alike E g g'"
  shows "rel_prod (=) (gateways_alike E) (provision E token now g) (provision E token now g')"
  using assms by (simp add: provision_def gateways_alikeD [OF assms] split: option.split prod.split)

lemma admin_router_alike:
  assumes "gateways_alike E g g'"
  shows "rel_prod (=) (gateways_alike E) (admin_router E json_mint json_revoke request now g)
    (admin_router E json_mint json_revoke request now g')"
proof -
  have mint: "rel_prod (=) (gateways_alike E) (mint_handler E h pol ttl now g) (mint_handler E h pol ttl now g')" for h pol ttl
    using mint_checked_alike [OF assms, of pol ttl "tenant_header E h" now]
    by (auto simp: mint_handler_def split: sum.split prod.split)
  have revoke: "rel_prod (=) (gateways_alike E) (revoke_handler token g) (revoke_handler token g')" for token
    using assms by (simp add: revoke_handler_def gateway_revoke_def gateways_alikeD [OF assms] split: prod.split)
  show ?thesis using assms mint revoke by (auto simp: admin_router_def split: sum.split)
qed

lemma provision_handler_alike:
  assumes "gateways_alike E g g'"
  shows "rel_prod (=) (gateways_alike E) (provision_handler E h now g) (provision_handler E h now g')"
proof (cases "token_from_headers E h")
  case None
  with assms show ?thesis by (simp add: provision_handler_def)
next
  case (Some token)
  with provision_alike [OF assms, of token now] show ?thesis
    by (auto simp: provision_handler_def split: prod.split option.split)
qed

lemma sweep_alike: "gateways_alike E g g' \<Longrightarrow> gateways_alike E (snd (sweep_expired now g)) (snd (sweep_expired now g'))"
  by (simp add: sweep_expired_def gateways_alikeD split: prod.split)

text \<open>A refresh asks the same providers at the same times, because their expiries agree.\<close>

lemma refresh_loop_alike:
  assumes "list_all2 (providers_alike E) ps ps'"
    and "\<forall>i. rel_option (minted_alike E) (map_of (cache c) i) (map_of (cache c') i)"
  shows "rel_prod (=) (\<lambda>d d'. \<forall>i. rel_option (minted_alike E) (map_of (cache d) i) (map_of (cache d') i))
    (refresh_loop now ps c) (refresh_loop now ps' c')"
  using assms
proof (induction ps ps' arbitrary: c c' rule: list_all2_induct)
  case (Cons ip ps jq ps')
  obtain i p q where ip: "ip = (i, p)" "jq = (i, q)" and p: "prov_refresh_skew_ms p = prov_refresh_skew_ms q"
    and m: "rel_sum (\<lambda>_ _. True) (minted_alike E) (prov_mint p now) (prov_mint q now)"
    using Cons.hyps(1) by (cases ip; cases jq) (auto simp: providers_alike_def)
  from Cons.prems have "rel_option (minted_alike E) (map_of (cache c) i) (map_of (cache c') i)" ..
  then have due: "needs_refresh c' i q now = needs_refresh c i p now"
    using p by (cases "map_of (cache c) i"; cases "map_of (cache c') i") (auto simp: needs_refresh_def minted_alike_def)
  show ?case
  proof (cases "needs_refresh c i p now")
    case False
    with Cons.IH [OF Cons.prems] due ip show ?thesis by simp
  next
    case True
    consider e e' where "prov_mint p now = Inl e" "prov_mint q now = Inl e'"
      | v v' where "prov_mint p now = Inr v" "prov_mint q now = Inr v'" "minted_alike E v v'"
      using m by (cases rule: rel_sum.cases) auto
    then show ?thesis
    proof cases
      case 1
      with Cons.IH [OF Cons.prems] True due ip show ?thesis by simp
    next
      case 2
      have "\<forall>j. rel_option (minted_alike E) (map_of (cache (c\<lparr> cache := hm_insert i v (cache c) \<rparr>)) j)
          (map_of (cache (c'\<lparr> cache := hm_insert i v' (cache c') \<rparr>)) j)"
        using Cons.prems 2(3) by (simp add: hm_insert_def update_conv')
      from Cons.IH [OF this] 2 True due ip show ?thesis by (auto split: prod.split)
    qed
  qed
qed simp

lemma refresh_alike:
  assumes "caches_alike E c c'"
  shows "caches_alike E (snd (refresh_due now c)) (snd (refresh_due now c'))"
proof -
  have kept: "static_secrets (snd (refresh_loop now ps c)) = static_secrets c \<and> providers (snd (refresh_loop now ps c)) = providers c" for ps c
    by (induction now ps c rule: refresh_loop.induct) (auto simp: split_beta Let_def split: sum.split)
  from assms have "rel_prod (=) (\<lambda>d d'. \<forall>i. rel_option (minted_alike E) (map_of (cache d) i) (map_of (cache d') i))
      (refresh_due now c) (refresh_due now c')"
    unfolding refresh_due_def by (intro refresh_loop_alike) (simp_all add: caches_alike_def)
  with assms kept show ?thesis by (auto simp: caches_alike_def refresh_due_def rel_prod_sel)
qed

lemma refresh_vault_alike: "gateways_alike E g g' \<Longrightarrow> gateways_alike E (refresh_vault now g) (refresh_vault now g')"
  by (cases "cp_credentials (g_control g)"; cases "cp_credentials (g_control g')")
    (auto simp: gateways_alike_def controls_alike_def refresh_vault_def refresh_alike)

lemma take_turn_alike:
  assumes laws: "http_laws E" and g: "gateways_alike E g g'"
  shows "rel_prod (observations_alike E (g_router g)) (gateways_alike E)
    (take_turn E json_mint json_revoke t g) (take_turn E json_mint json_revoke t g')"
proof (cases t)
  case (Refresh now)
  with refresh_vault_alike [OF g] show ?thesis by simp
next
  case (Serve ev)
  show ?thesis
  proof (cases ev)
    case (ProxyEvent request now)
    show ?thesis
    proof (cases "rq_path request = PROVISION_PATH")
      case True
      with provision_handler_alike [OF g, of "rq_headers request" now] g show ?thesis
        by (auto simp: Serve ProxyEvent proxy_router_def Let_def split: prod.split)
    next
      case False
      with proxy_decide_alike [OF laws g, of request now] g show ?thesis
        by (cases "proxy_decide E request now g"; cases "proxy_decide E request now g'") (auto simp: Serve ProxyEvent)
    qed
  next
    case (AdminEvent request now)
    with admin_router_alike [OF g, of json_mint json_revoke request now] show ?thesis
      by (auto simp: Serve split: prod.split)
  next
    case (SweepEvent now)
    with sweep_alike [OF g, of now] show ?thesis by (simp add: Serve)
  qed
qed

lemma take_turn_router [simp]: "g_router (snd (take_turn E json_mint json_revoke t g)) = g_router g"
proof -
  have mint: "g_router (snd (mint_checked E pol ttl tenant now g)) = g_router g" for pol ttl tenant now
    by (simp add: mint_checked_def gateway_mint_def Let_def split: option.split prod.split)
  have prov: "g_router (snd (provision E token now g)) = g_router g" for token now
    by (simp add: provision_def split: option.split prod.split)
  have decide: "proxy_decide E request now g = Some (step, g') \<Longrightarrow> g_router g' = g_router g" for request now step g'
    by (erule proxy_decide_cases) (auto dest: handle_effect(1) simp: admissible_def config_same_def)
  have prov_h: "g_router (snd (provision_handler E h now g)) = g_router g" for h now
  proof (cases "token_from_headers E h")
    case (Some token)
    with prov [of token now] show ?thesis by (cases "fst (provision E token now g)") (auto simp: provision_handler_def split: prod.splits)
  qed (simp add: provision_handler_def)
  have mint_h: "mint_handler E h pol ttl now g = (r, g') \<Longrightarrow> g_router g' = g_router g" for h pol ttl now r g'
    using mint [of pol ttl "tenant_header E h" now] by (auto simp: mint_handler_def split: prod.splits sum.splits)
  show ?thesis
  proof (cases t)
    case (Refresh now)
    then show ?thesis by (simp add: refresh_vault_def split: credential_store.split)
  next
    case (Serve ev)
    then show ?thesis
    proof (cases ev)
      case (ProxyEvent request now)
      then show ?thesis using Serve decide prov_h [of "rq_headers request" now]
        by (auto simp: proxy_router_def Let_def split: option.split prod.split)
    next
      case (AdminEvent request now)
      then show ?thesis using Serve
        by (auto dest: mint_h simp: admin_router_def revoke_handler_def gateway_revoke_def Let_def split: prod.split sum.split)
    qed (simp add: sweep_expired_def split: prod.split)
  qed
qed

text \<open>The server as a machine that unwinds: the local lemma of a turn gives the statement about runs.\<close>

interpretation server_machine: unwinding "take_turn E json_mint json_revoke" "turns E json_mint json_revoke"
    "\<lambda>g g'. http_laws E \<and> gateways_alike E g g'" "\<lambda>g. observations_alike E (g_router g)" for E json_mint json_revoke
proof unfold_locales
  fix i g g'
  assume "http_laws E \<and> gateways_alike E g g'"
  then have "rel_prod (observations_alike E (g_router g)) (gateways_alike E)
      (take_turn E json_mint json_revoke i g) (take_turn E json_mint json_revoke i g')" by (simp add: take_turn_alike)
  then show "observations_alike E (g_router g) (fst (take_turn E json_mint json_revoke i g)) (fst (take_turn E json_mint json_revoke i g'))"
    and "http_laws E \<and> gateways_alike E (snd (take_turn E json_mint json_revoke i g)) (snd (take_turn E json_mint json_revoke i g'))"
    using \<open>http_laws E \<and> gateways_alike E g g'\<close> by (simp_all add: rel_prod_sel)
qed (simp_all add: split_beta Let_def del: take_turn.simps)

section \<open>One entry of the token table\<close>

text \<open>The key of the token table a request presents: an access key id, or a token.\<close>

definition presented_key :: "'h env \<Rightarrow> 'h proxy_request \<Rightarrow> string option" where
  "presented_key E req =
     (case header_value E (q_headers req) ''authorization'' of
        Some auth \<Rightarrow>
          if starts_with ''AWS4-HMAC-SHA256'' auth then map_option p_access_key_id (parse_authorization auth)
          else map_option fst (extract_auth E (q_headers req))
      | None \<Rightarrow> map_option fst (extract_auth E (q_headers req)))"

lemma authenticate_one_entry:
  assumes "\<And>k. presented_key E req = Some k \<Longrightarrow> map_of (entries ts) k = map_of (entries ts') k"
  shows "authenticate E ts req now = authenticate E ts' req now"
proof -
  have live: "live now ts k = live now ts' k" if "presented_key E req = Some k" for k
    using assms [OF that] by (simp add: live_def)
  show ?thesis
    using live unfolding authenticate_eq presented_key_def
    by (auto simp: authenticate_token_def authenticate_sigv4_def resolve_live resolve_sigv4_live split: option.split if_splits)
qed

section \<open>Properties\<close>

text \<open>A second operator: the same server, holding another secret under the same id.\<close>

definition other_gateway :: gateway where
  "other_gateway = demo_gateway\<lparr> g_control := (g_control demo_gateway)\<lparr>
     cp_credentials := InMemoryStore (in_memory_insert ''pat'' ''an0ther-key'' in_memory_new) \<rparr> \<rparr>"

definition demo_turns :: "header_list turn list" where
  "demo_turns = [Serve (ProxyEvent \<lparr> rq_method = ''GET'', rq_path = ''/repos/./a'', rq_query = None,
     rq_headers = q_headers demo_request, rq_body = Some [], rq_on_upgrade = False \<rparr> 5)]"

lemma other_gateway_alike: "gateways_alike list_env demo_gateway other_gateway"
proof -
  have "secrets_alike list_env ''s3cret'' ''an0ther-key''" by code_simp
  then show ?thesis
    by (simp add: gateways_alike_def controls_alike_def other_gateway_def demo_gateway_def gateway_new_def
        in_memory_resolve_def in_memory_insert_def in_memory_new_def hm_insert_def)
qed

lemma demo_turns_sent:
  "fst (turns list_env (\<lambda>_. Inl 400) (\<lambda>_. Inl 400) demo_turns demo_gateway) = [Sent \<lparr> fp_url = ''https://up.example.com/repos/a'',
     fp_method = ''GET'', fp_headers = [(''accept'', ''*/*''), (''authorization'', ''Bearer s3cret'')], fp_body = [] \<rparr>]"
  "fst (turns list_env (\<lambda>_. Inl 400) (\<lambda>_. Inl 400) demo_turns other_gateway) = [Sent \<lparr> fp_url = ''https://up.example.com/repos/a'',
     fp_method = ''GET'', fp_headers = [(''accept'', ''*/*''), (''authorization'', ''Bearer an0ther-key'')], fp_body = [] \<rparr>]"
  by code_simp+

text \<open>C4. Noninterference of the secrets. Take two gateways that differ in secret values only, and let the same
  requests arrive on both listeners, the sweeper and the refresher tick at the same times, in any order. Then they say
  the same: every rejection, provision document, mint and revocation answer agrees, a handler panics on both or
  on neither, and the plans they send upstream agree in everything but the values of the headers which
  the outbound stance of a configured service injects; afterwards they still differ in secret values only,
  so the audit logs and the token tables agree too. What a consumer learns about a secret it learns from an upstream.\<close>

theorem secrets_reach_only_injected_headers:
  assumes "http_laws E" "gateways_alike E g g'"
  shows "list_all2 (observations_alike E (g_router g)) (fst (turns E json_mint json_revoke ts g)) (fst (turns E json_mint json_revoke ts g'))
    \<and> gateways_alike E (snd (turns E json_mint json_revoke ts g)) (snd (turns E json_mint json_revoke ts g'))"
  using server_machine.runs_alike [of E g g' json_mint json_revoke ts] assms by simp

theorem secrets_reach_only_injected_headers_witness:
  "\<exists>p p'. fst (turns list_env (\<lambda>_. Inl 400) (\<lambda>_. Inl 400) demo_turns demo_gateway) = [Sent p]
    \<and> fst (turns list_env (\<lambda>_. Inl 400) (\<lambda>_. Inl 400) demo_turns other_gateway) = [Sent p']
    \<and> fp_headers p \<noteq> fp_headers p' \<and> plans_alike list_env [demo_service] p p'"
  using secrets_reach_only_injected_headers [OF http_laws_list_env other_gateway_alike, of "\<lambda>_. Inl 400" "\<lambda>_. Inl 400" demo_turns]
  by (simp add: demo_turns_sent) (simp add: demo_gateway_def gateway_new_def)

text \<open>C27. Isolation of agents. Of the token table a request depends on one entry, that of the key it presents: if two
  tables agree there, the request has the same outcome and leaves the same audit event on both, whatever else
  was minted, provisioned, revoked or swept for others.\<close>

theorem requests_see_only_their_credential:
  assumes "\<And>k. presented_key E req = Some k \<Longrightarrow> map_of (entries ts) k = map_of (entries ts') k"
  shows "handle E req now (with_tokens ts g) = map_option (map_prod id (with_tokens ts)) (handle E req now (with_tokens ts' g))"
proof -
  have same: "authenticate E ts req now = authenticate E ts' req now"
    by (rule authenticate_one_entry) (rule assms)
  show ?thesis
  proof (cases "authenticate E ts' req now")
    case None
    with same show ?thesis by (simp add: handle_def)
  next
    case (Some a)
    with same show ?thesis
      by (cases a; cases "handle_authenticated E (g_router g) req (fst (projr a)) (snd (projr a)) now (g_control g)")
        (auto simp: handle_def handle_authenticated_tokens with_tokens_def)
  qed
qed

theorem requests_see_only_their_credential_witness:
  "\<exists>plan g'. handle list_env demo_request 5 (with_tokens (demo_tokens\<lparr> entries := (''other'',
      \<lparr> t_policy = demo_policy, t_expires_at_ms = 9, t_secret = None \<rparr>) # entries demo_tokens \<rparr>) demo_gateway) = Some (Forward plan, g')"
proof -
  let ?ts = "demo_tokens\<lparr> entries := (''other'', \<lparr> t_policy = demo_policy, t_expires_at_ms = 9, t_secret = None \<rparr>) # entries demo_tokens \<rparr>"
  have k: "presented_key list_env demo_request = Some ''tok''" by code_simp
  have "with_tokens demo_tokens demo_gateway = demo_gateway"
    by (simp add: with_tokens_def demo_gateway_def gateway_new_def)
  then obtain plan g' where "handle list_env demo_request 5 (with_tokens demo_tokens demo_gateway) = Some (Forward plan, g')"
    using demo_forwards by metis
  with requests_see_only_their_credential [of list_env demo_request ?ts demo_tokens 5 demo_gateway] k show ?thesis by simp
qed

end
