(* ===== verification/AuditSinks.thy ===== *)
theory AuditSinks
  imports Server
begin

text \<open>
  The sinks of \<^verbatim>\<open>control/src/audit.rs\<close> behind the trait the gateway holds, and why the rest of the development
  can use the in-memory one: a sink is a \<open>record_log\<close>, whose contents are, record by record, what it makes of
  each event. So whatever sink is plugged in, a run of the server leaves in it the image of the events
  that the run leaves in the in-memory log. The \<^verbatim>\<open>Debug\<close> text of a verb (a generated type) and the JSON
  codec are parameters.
\<close>

section \<open>The sinks\<close>

text \<open>The fields of the structured record the tracing sink emits; the stream of records is its state.\<close>

record trace_record =
  tr_target :: string
  tr_decision :: string
  tr_resource :: string
  tr_verb :: string
  tr_detail :: string
  tr_message :: string

fun debug_decision :: "decision \<Rightarrow> string" where
  "debug_decision DecAllow = ''Allow''"
| "debug_decision DecDeny = ''Deny''"

definition trace_of :: "(verb \<Rightarrow> string) \<Rightarrow> audit_event \<Rightarrow> trace_record" where
  "trace_of debug_verb ev = \<lparr> tr_target = a_target (e_action ev), tr_decision = debug_decision (e_decision ev),
     tr_resource = r_path (a_resource (e_action ev)), tr_verb = debug_verb (a_verb (e_action ev)),
     tr_detail = e_detail ev, tr_message = ''hackamore decision'' \<rparr>"

definition tracing_record :: "(verb \<Rightarrow> string) \<Rightarrow> audit_event \<Rightarrow> trace_record list \<Rightarrow> trace_record list" where
  "tracing_record debug_verb ev emitted = emitted @ [trace_of debug_verb ev]"

text \<open>The trait object: the sink that the server was started with, and the one operation of the trait.\<close>

datatype audit_sink = InMemoryAudit in_memory_audit | TracingAudit "trace_record list" | FileAudit bytes

fun sink_record :: "(verb \<Rightarrow> string) \<Rightarrow> (audit_event \<Rightarrow> string option) \<Rightarrow> bool \<Rightarrow> audit_event \<Rightarrow> audit_sink \<Rightarrow> audit_sink" where
  "sink_record debug_verb to_json write_ok ev (InMemoryAudit a) = InMemoryAudit (in_memory_record ev a)"
| "sink_record debug_verb to_json write_ok ev (TracingAudit emitted) = TracingAudit (tracing_record debug_verb ev emitted)"
| "sink_record debug_verb to_json write_ok ev (FileAudit contents) = FileAudit (file_record to_json write_ok ev contents)"

section \<open>Logs of records\<close>

locale record_log =
  fixes record_event :: "audit_event \<Rightarrow> 's \<Rightarrow> 's"
    and contents :: "'s \<Rightarrow> 'v list"
    and entry :: "audit_event \<Rightarrow> 'v list"
  assumes contents_record: "contents (record_event ev s) = contents s @ entry ev"
begin

lemma contents_fold: "contents (fold record_event evs s) = contents s @ concat (map entry evs)"
  by (induction evs arbitrary: s) (simp_all add: contents_record)

lemma contents_grow: "contents s = take (length (contents s)) (contents (fold record_event evs s))"
  by (simp add: contents_fold)

end

definition json_line :: "(audit_event \<Rightarrow> string option) \<Rightarrow> bool \<Rightarrow> audit_event \<Rightarrow> bytes" where
  "json_line to_json write_ok ev = (case to_json ev of Some l \<Rightarrow> if write_ok then l @ [chr 10] else [] | None \<Rightarrow> [])"

interpretation in_memory_log: record_log in_memory_record events_of "\<lambda>ev. [ev]"
  by unfold_locales (simp add: in_memory_record_def)

interpretation tracing_log: record_log "tracing_record debug_verb" "\<lambda>emitted. emitted" "\<lambda>ev. [trace_of debug_verb ev]" for debug_verb
  by unfold_locales (simp add: tracing_record_def)

interpretation file_log: record_log "file_record to_json write_ok" "\<lambda>b. b" "json_line to_json write_ok" for to_json write_ok
  by unfold_locales (simp add: file_record_def json_line_def split: option.split)

section \<open>The log of a run\<close>

definition new_events :: "gateway \<Rightarrow> gateway \<Rightarrow> audit_event list" where
  "new_events g g' = drop (length (events_of (cp_audit (g_control g)))) (events_of (cp_audit (g_control g')))"

lemma new_events_run:
  assumes "server_run E client relay json_mint json_revoke g evs g'" "server_inv g"
  shows "events_of (cp_audit (g_control g')) = events_of (cp_audit (g_control g)) @ new_events g g'"
  using server_run_admissible [OF assms] by (auto simp: admissible_def log_extends_def new_events_def)

text \<open>What the other sinks hold after the same run.\<close>

lemma tracing_of_run:
  assumes "server_run E client relay json_mint json_revoke g evs g'" "server_inv g"
    and "emitted = map (trace_of debug_verb) (events_of (cp_audit (g_control g)))"
  shows "fold (tracing_record debug_verb) (new_events g g') emitted = map (trace_of debug_verb) (events_of (cp_audit (g_control g')))"
proof -
  have c: "concat (map (\<lambda>ev. [trace_of debug_verb ev]) evs) = map (trace_of debug_verb) evs" for evs
    by (induction evs) simp_all
  show ?thesis unfolding tracing_log.contents_fold c new_events_run [OF assms(1,2)] assms(3) by simp
qed

text \<open>A tracing record says who was decided on and how, but neither when nor the fields of the action.\<close>

lemma trace_of_eq_iff:
  assumes "inj debug_verb"
  shows "trace_of debug_verb e = trace_of debug_verb e' \<longleftrightarrow> a_target (e_action e) = a_target (e_action e')
    \<and> e_decision e = e_decision e' \<and> r_path (a_resource (e_action e)) = r_path (a_resource (e_action e'))
    \<and> a_verb (e_action e) = a_verb (e_action e') \<and> e_detail e = e_detail e'"
proof -
  have "debug_decision d = debug_decision d' \<longleftrightarrow> d = d'" for d d' by (cases d; cases d') simp_all
  then show ?thesis by (auto simp: trace_of_def dest: injD [OF assms])
qed

section \<open>Records cut short\<close>

text \<open>
  The sink writes a record with a call for the line and one for the line feed, and the kernel may take a part of
  them: when the process dies or the disk is full, the file keeps \<open>k\<close> of the bytes.
\<close>

definition file_record_torn :: "(audit_event \<Rightarrow> string option) \<Rightarrow> nat \<Rightarrow> audit_event \<Rightarrow> bytes \<Rightarrow> bytes" where
  "file_record_torn to_json k ev contents =
     (case to_json ev of None \<Rightarrow> contents | Some line \<Rightarrow> contents @ take k (line @ [chr 10]))"

text \<open>A character that is cut cannot be completed by what is written next, which starts with a character of its own.\<close>

lemma utf8_seq_cont:
  assumes "fst (utf8_seq s)" "0 < i" "i < snd (utf8_seq s)"
  shows "is_cont (byte (s ! i))"
proof -
  from assms(2,3) obtain c r where s: "s = c # r" by (cases s) auto
  have i: "i < length s" using assms(3) utf8_seq_le [of s] by simp
  have second: "second3 b x \<Longrightarrow> is_cont x" "second4 b x \<Longrightarrow> is_cont x" for b x
    by (auto simp: second3_def second4_def is_cont_def split: if_splits)
  have at: "s ! i = r ! (i - 1)" "i - 1 < length r" using assms(2) i by (simp_all add: s nth_Cons')
  have g: "byte (s ! i) = safe_get r (i - 1)" using at by (simp add: safe_get_def)
  have "snd (utf8_seq s) \<le> 4" by (auto simp: s Let_def)
  then have "i = 1 \<or> i = 2 \<or> i = 3" using assms(2,3) by linarith
  then show ?thesis unfolding g using assms second by (auto simp: s Let_def split: if_splits)
qed

lemma cont_not_utf8: "is_cont (byte c) \<Longrightarrow> \<not> utf8 (c # s)"
  by (subst utf8.simps) (simp add: Let_def is_cont_def)

lemma utf8_torn: "\<not> utf8 p \<Longrightarrow> utf8 q \<Longrightarrow> \<not> utf8 (p @ q)"
proof (induction p rule: utf8.induct)
  case (1 p)
  from "1.prems"(1) have p: "p \<noteq> []" by auto
  show ?case
  proof
    assume u: "utf8 (p @ q)"
    let ?n = "snd (utf8_seq (p @ q))"
    from utf8_stepD [OF u] p have v: "fst (utf8_seq (p @ q))" and d: "utf8 (drop ?n (p @ q))" by auto
    show False
    proof (cases "?n \<le> length p")
      case True
      then have "take ?n (p @ q) @ drop ?n p = p" "drop ?n (p @ q) = drop ?n p @ q" by simp_all
      with utf8_seq_local [OF v, of "drop ?n p"] p have seq: "utf8_seq p = (True, ?n)" by simp
      have "\<not> utf8 (drop ?n p)" using utf8_step [of p] seq "1.prems"(1) by auto
      with "1.IH" [OF p] seq "1.prems"(2) have "\<not> utf8 (drop ?n p @ q)" by simp
      with d True show False by simp
    next
      case False
      then have "q \<noteq> []" using utf8_seq_le [of "p @ q"] by (cases q) auto
      then obtain c s where q: "q = c # s" by (cases q) auto
      from utf8_seq_cont [OF v, of "length p"] False p have "is_cont (byte c)" by (simp add: q)
      with "1.prems"(2) show False by (simp add: q cont_not_utf8)
    qed
  qed
qed

lemma utf8_cancel: "utf8 s \<Longrightarrow> utf8 (s @ t) \<longleftrightarrow> utf8 t"
proof (induction s rule: utf8.induct)
  case (1 s)
  show ?case
  proof (cases "s = []")
    case False
    let ?n = "snd (utf8_seq s)"
    from utf8_stepD [OF "1.prems" False] have v: "fst (utf8_seq s)" and d: "utf8 (drop ?n s)" by auto
    have "take ?n s @ drop ?n s @ t = s @ t" by (metis append_assoc append_take_drop_id)
    with utf8_seq_local [OF v, of "drop ?n s @ t"] False have "utf8_seq (s @ t) = (True, ?n)" by simp
    then have "utf8 (s @ t) \<longleftrightarrow> utf8 (drop ?n s @ t)"
      using False utf8_seq_le [of s] by (subst utf8.simps) simp
    with "1.IH" [OF False v d] show ?thesis by simp
  qed simp
qed

text \<open>What the log assumes of the codec on the events that are written.\<close>

definition codec_ok :: "(audit_event \<Rightarrow> string option) \<Rightarrow> (string \<Rightarrow> audit_event option) \<Rightarrow> audit_event \<Rightarrow> bool" where
  "codec_ok to_json from_json e \<longleftrightarrow> (case to_json e of
      None \<Rightarrow> False
    | Some l \<Rightarrow> from_json l = Some e \<and> utf8 l \<and> chr 10 \<notin> set l \<and> strip_cr l = l \<and> trim l \<noteq> [])"

definition document :: "(audit_event \<Rightarrow> string option) \<Rightarrow> audit_event list \<Rightarrow> bytes" where
  "document to_json es = concat (map (json_line to_json True) es)"

definition parsed_lines :: "(string \<Rightarrow> audit_event option) \<Rightarrow> bytes \<Rightarrow> audit_event list" where
  "parsed_lines from_json text = List.map_filter from_json (filter (\<lambda>l. trim l \<noteq> []) (lines text))"

lemma file_read_eq: "file_read from_json b = (if utf8 b then Some (parsed_lines from_json b) else None)"
  by (simp add: file_read_def from_utf8_def parsed_lines_def)

lemma recorded: "fold (file_record to_json True) es b = b @ document to_json es"
  by (simp add: file_log.contents_fold document_def)

lemma document_tail:
  assumes "list_all (codec_ok to_json from_json) es"
  shows "utf8 (document to_json es)" "parsed_lines from_json (document to_json es @ t) = es @ parsed_lines from_json t"
proof -
  have "utf8 (document to_json es) \<and> parsed_lines from_json (document to_json es @ t) = es @ parsed_lines from_json t"
    using assms
  proof (induction es)
    case (Cons e es)
    then obtain l where l: "to_json e = Some l" "from_json l = Some e" "utf8 l" "chr 10 \<notin> set l" "strip_cr l = l" "trim l \<noteq> []"
      by (auto simp: codec_ok_def split: option.splits)
    have d: "document to_json (e # es) = l @ [chr 10] @ document to_json es"
      by (simp add: document_def json_line_def l(1))
    have "utf8 ([chr 10] @ document to_json es)" using Cons by (simp add: utf8_ascii_Cons)
    moreover have "parsed_lines from_json (l @ [chr 10] @ x) = e # parsed_lines from_json x" for x
      using l unfolding parsed_lines_def lines_append [OF l(4)] by (simp add: List.map_filter_def)
    ultimately show ?case using Cons l(3) unfolding d by (simp add: utf8_append)
  qed (simp_all add: document_def parsed_lines_def)
  then show "utf8 (document to_json es)" "parsed_lines from_json (document to_json es @ t) = es @ parsed_lines from_json t" by auto
qed

text \<open>A line that a record begins and the next one ends is one line of the file.\<close>

lemma strip_cr_append: "l \<noteq> [] \<Longrightarrow> strip_cr l = l \<Longrightarrow> strip_cr (p @ l) = p @ l"
  by (cases l rule: rev_cases) (auto simp: strip_cr_def strip_suffix_def strip_prefix_def split: if_splits)

lemma lines_last: "chr 10 \<notin> set l \<Longrightarrow> lines l = (if l = [] then [] else [l])"
  by (simp add: lines_def split_on_noop)

lemma merged_line:
  assumes "chr 10 \<notin> set p" "chr 10 \<notin> set l" "l \<noteq> []" "strip_cr l = l"
  shows "parsed_lines from_json (p @ l @ [chr 10] @ t) = parsed_lines from_json (p @ l) @ parsed_lines from_json t"
proof -
  have n: "chr 10 \<notin> set (p @ l)" using assms by simp
  have "lines (p @ l @ [chr 10] @ t) = lines (p @ l) @ lines t"
    using lines_append [OF n, of t] lines_last [OF n] strip_cr_append [OF assms(3,4), of p] assms(3) by simp
  then show ?thesis unfolding parsed_lines_def by (simp add: List.map_filter_def)
qed

section \<open>Properties\<close>


text \<open>A codec for three events, one of whose lines has a character of two bytes.\<close>

definition sample_event :: "u64 \<Rightarrow> audit_event" where
  "sample_event t = \<lparr> at_ms = t, e_action = action_of ''t'' (Crud Read) (resource_of [] ''root''), e_decision = DecAllow, e_detail = [] \<rparr>"

definition sample_line :: "audit_event \<Rightarrow> string option" where
  "sample_line ev = Some (if at_ms ev = 1 then ''{1}'' else if at_ms ev = 2 then ''{'' @ [chr 195, chr 169] @ ''}'' else ''{3}'')"

definition sample_parse :: "string \<Rightarrow> audit_event option" where
  "sample_parse l = (if l = ''{1}'' then Some (sample_event 1) else if l = ''{'' @ [chr 195, chr 169] @ ''}'' then Some (sample_event 2)
     else if l = ''{3}'' then Some (sample_event 3) else None)"


end
