(* ===== verification/Typing.thy ===== *)
theory Typing
  imports Enforcement
begin

text \<open>
  What the types of the source promise and the model has to prove. A Rust \<^verbatim>\<open>String\<close> is valid UTF-8 and a
  \<^verbatim>\<open>serde_json::Map\<close> is ordered by its keys; here a string is any list of bytes and an object any
  association list. The predicates below say that a value of the model is the image of a value of the source,
  and the lemmas that the operations of the request path keep them: cutting a string at an ASCII byte,
  decoding, merging and capturing fields, and so the whole of \<^verbatim>\<open>normalize\<close>.
\<close>

section \<open>Cutting a string at an ASCII byte\<close>

text \<open>The bytes of a character after its first one are not ASCII, so a character ends before an ASCII byte.\<close>

lemma safe_get_append: "safe_get (a @ b) i = (if i < length a then safe_get a i else safe_get b (i - length a))"
  by (auto simp: safe_get_def nth_append)

lemma trailing_byte: "is_cont x \<Longrightarrow> 128 \<le> x" "second3 b x \<Longrightarrow> 128 \<le> x" "second4 b x \<Longrightarrow> 128 \<le> x"
  by (auto simp: is_cont_def second3_def second4_def split: if_splits)

lemma utf8_seq_before_ascii:
  assumes "byte c < 128" "a \<noteq> []" "fst (utf8_seq (a @ c # b))"
  shows "snd (utf8_seq (a @ c # b)) \<le> length a"
proof -
  obtain x r where a: "a = x # r" using assms(2) by (cases a) auto
  let ?g = "safe_get (r @ c # b)"
  have less: "n \<le> length r" if "list_all (\<lambda>j. 128 \<le> ?g j) [0..<n]" for n
  proof (rule ccontr)
    assume "\<not> n \<le> length r"
    then have "128 \<le> ?g (length r)" using that by (auto simp: list_all_iff)
    then show False using assms(1) by (simp add: safe_get_append)
  qed
  have 1: "Suc 0 \<le> length r" if "128 \<le> ?g 0" using less [of "Suc 0"] that by simp
  have 2: "2 \<le> length r" if "128 \<le> ?g 0" "128 \<le> ?g 1"
    using less [of 2] that by (simp add: numeral_2_eq_2)
  have 3: "3 \<le> length r" if "128 \<le> ?g 0" "128 \<le> ?g 1" "128 \<le> ?g 2"
    using less [of 3] that by (simp add: numeral_3_eq_3 numeral_2_eq_2)
  show ?thesis
    using assms(3) 1 2 3 trailing_byte unfolding a by (auto simp: Let_def split: if_splits)
qed

lemma utf8_cut:
  assumes "byte c < 128" shows "utf8 (a @ c # b) \<longleftrightarrow> utf8 a \<and> utf8 b"
proof
  assume "utf8 a \<and> utf8 b"
  then show "utf8 (a @ c # b)" using utf8_append [of a "c # b"] utf8_ascii_Cons [OF assms] by simp
next
  show "utf8 (a @ c # b) \<Longrightarrow> utf8 a \<and> utf8 b"
  proof (induction "length a" arbitrary: a rule: less_induct)
    case less
    show ?case
    proof (cases "a = []")
      case True
      with less.prems show ?thesis by (simp add: utf8_ascii_Cons [OF assms])
    next
      case False
      let ?s = "a @ c # b"
      let ?n = "snd (utf8_seq ?s)"
      have v: "fst (utf8_seq ?s)" and d: "utf8 (drop ?n ?s)" using utf8_stepD [OF less.prems] by auto
      have n: "?n \<le> length a" by (rule utf8_seq_before_ascii [OF assms False v])
      have pos: "0 < ?n" using utf8_seq_pos [of ?s] by simp
      have "utf8_seq (take ?n ?s @ drop ?n a) = (True, ?n)" using utf8_seq_local [OF v] by blast
      then have a: "utf8_seq a = (True, ?n)" using n by simp
      have "utf8 (drop ?n a @ c # b)" using d n by simp
      then have "utf8 (drop ?n a) \<and> utf8 b" using less.hyps [of "drop ?n a"] pos False by simp
      then show ?thesis using utf8_step [of a] a by simp
    qed
  qed
qed

lemma utf8_split: "byte d < 128 \<Longrightarrow> utf8 s \<Longrightarrow> p \<in> set (split_on d s) \<Longrightarrow> utf8 p"
proof (induction "split_on d s" arbitrary: s p)
  case Nil
  then show ?case by simp
next
  case (Cons q qs)
  have s: "join [d] (q # qs) = s" using Cons.hyps(2) by (metis join_split)
  show ?case
  proof (cases "qs = []")
    case True
    with s Cons.prems Cons.hyps(2) [symmetric] show ?thesis by simp
  next
    case False
    let ?r = "join [d] qs"
    have s: "s = q @ d # ?r" using s False by (simp add: join_Cons)
    have ur: "utf8 q" "utf8 ?r" using Cons.prems(2) utf8_cut [OF Cons.prems(1)] by (simp_all add: s)
    have "qs = split_on d ?r"
    proof (rule split_join [symmetric, OF False])
      show "d \<notin> set p" if "p \<in> set qs" for p
        using split_on_no_sep [of p d s] Cons.hyps(2) [symmetric] that by simp
    qed
    then show ?thesis
      using Cons.hyps(1) [OF _ Cons.prems(1) ur(2), of p] Cons.prems(3) Cons.hyps(2) [symmetric] ur(1) by auto
  qed
qed

lemma utf8_join: "utf8 sep \<Longrightarrow> list_all utf8 ps \<Longrightarrow> utf8 (join sep ps)"
  by (induction sep ps rule: join.induct) (auto intro: utf8_append)

lemma utf8_dropWhile: "byte d < 128 \<Longrightarrow> utf8 s \<Longrightarrow> utf8 (dropWhile ((=) d) s)"
  by (induction s) (auto simp: utf8_ascii_Cons)

lemma utf8_trim_start_matches: "byte d < 128 \<Longrightarrow> utf8 s \<Longrightarrow> utf8 (trim_start_matches d s)"
  by (simp add: trim_start_matches_def utf8_dropWhile)

lemma utf8_split_once: "byte d < 128 \<Longrightarrow> utf8 s \<Longrightarrow> split_once d s = Some (a, b) \<Longrightarrow> utf8 a \<and> utf8 b"
  by (auto simp: split_once_Some_iff utf8_cut)

lemma utf8_rsplit_once: "byte d < 128 \<Longrightarrow> utf8 s \<Longrightarrow> rsplit_once d s = Some (a, b) \<Longrightarrow> utf8 a \<and> utf8 b"
  by (auto simp: rsplit_once_Some_iff utf8_cut)

section \<open>Typed values\<close>

fun json_ok :: "json \<Rightarrow> bool" where
  "json_ok (String s) = utf8 s"
| "json_ok (Array js) = list_all json_ok js"
| "json_ok (Object m) = (bt_inv m \<and> (\<forall>kv \<in> set m. utf8 (fst kv) \<and> json_ok (snd kv)))"
| "json_ok Null = True"
| "json_ok (Bool _) = True"
| "json_ok (Number _) = True"

fun verb_ok :: "verb \<Rightarrow> bool" where
  "verb_ok (Crud _) = True"
| "verb_ok (NamedAction n) = utf8 n"

definition action_ok :: "action \<Rightarrow> bool" where
  "action_ok a \<longleftrightarrow> utf8 (a_target a) \<and> verb_ok (a_verb a) \<and> utf8 (r_path (a_resource a)) \<and> utf8 (r_kind (a_resource a))
     \<and> json_ok (a_fields a) \<and> as_object (a_fields a) \<noteq> None"

fun outbound_ok :: "outbound \<Rightarrow> bool" where
  "outbound_ok Passthrough = True"
| "outbound_ok (Bearer credential) = utf8 credential"
| "outbound_ok (Header nm credential) = (utf8 nm \<and> utf8 credential)"
| "outbound_ok (OutSigV4 credential akid rgn aws) = (utf8 credential \<and> utf8 akid \<and> utf8 rgn \<and> utf8 aws)"

definition service_ok :: "service \<Rightarrow> bool" where
  "service_ok svc \<longleftrightarrow> utf8 (s_name svc) \<and> utf8 (s_upstream_base svc) \<and> outbound_ok (s_outbound svc)
     \<and> (case x_path_template (s_extract svc) of Some t \<Rightarrow> utf8 t | None \<Rightarrow> True)"

definition event_ok :: "audit_event \<Rightarrow> bool" where
  "event_ok ev \<longleftrightarrow> action_ok (e_action ev) \<and> utf8 (e_detail ev)"

definition request_ok :: "'h proxy_request \<Rightarrow> bool" where
  "request_ok req \<longleftrightarrow> utf8 (q_path req) \<and> utf8 (q_query req)"

text \<open>What the JSON parser promises: the value it returns is a value of its type.\<close>

definition json_laws :: "'h env \<Rightarrow> bool" where
  "json_laws E \<longleftrightarrow> (\<forall>b v. json_from_slice E b = Some v \<longrightarrow> json_ok v)"

section \<open>Fields\<close>

lemma json_ok_Object_Nil [simp]: "json_ok (Object [])"
  by simp

lemma bt_insert_set: "set (bt_insert k v m) \<subseteq> insert (k, v) (set m)"
  by (induction k v m rule: bt_insert.induct) auto

lemma json_ok_insert:
  "json_ok (Object m) \<Longrightarrow> utf8 k \<Longrightarrow> json_ok v \<Longrightarrow> json_ok (Object (bt_insert k v m))"
  using bt_insert_set [of k v m] by (fastforce simp: bt_insert_inv)

lemma json_ok_insert_all:
  "json_ok (Object m) \<Longrightarrow> \<forall>(k, v) \<in> set kvs. utf8 k \<and> json_ok v
    \<Longrightarrow> json_ok (Object (fold (\<lambda>(k, v). bt_insert k v) kvs m))"
  by (induction kvs arbitrary: m) (auto simp del: json_ok.simps intro!: json_ok_insert)

lemma decode_field_utf8: "decode_field s = Some t \<Longrightarrow> utf8 t"
  by (auto simp: decode_field_def map_option_Some_iff)

lemma parse_pair_utf8: "parse_pair p = Some (k, v) \<Longrightarrow> utf8 k \<and> utf8 v"
  by (auto simp: parse_pair_def bind_Some_iff dest: decode_field_utf8 split: option.splits)

lemma parse_query_utf8: "parse_query q = Some kvs \<Longrightarrow> (k, v) \<in> set kvs \<Longrightarrow> utf8 k \<and> utf8 v"
proof -
  assume q: "parse_query q = Some kvs" and kv: "(k, v) \<in> set kvs"
  show ?thesis
  proof (cases "q = []")
    case False
    with q obtain ps where "map parse_pair ps = map Some kvs"
      by (auto simp: parse_query_def map_panic_Some_iff)
    then have "Some (k, v) \<in> parse_pair ` set ps" using kv by (metis image_eqI set_map)
    then show ?thesis by (auto dest: parse_pair_utf8 sym)
  qed (use q kv in \<open>simp add: parse_query_def\<close>)
qed

text \<open>The members that come from the query, the body and the template.\<close>

definition pairs_ok :: "(string \<times> json) list \<Rightarrow> bool" where
  "pairs_ok kvs \<longleftrightarrow> (\<forall>(k, v) \<in> set kvs. utf8 k \<and> json_ok v)"

lemma pairs_ok_simps [simp]:
  "pairs_ok []" "pairs_ok ((k, v) # kvs) \<longleftrightarrow> utf8 k \<and> json_ok v \<and> pairs_ok kvs"
  "pairs_ok (xs @ ys) \<longleftrightarrow> pairs_ok xs \<and> pairs_ok ys"
  by (auto simp: pairs_ok_def)

lemma string_pairs_ok: "parse_query q = Some kvs \<Longrightarrow> pairs_ok (string_pairs kvs)"
  using parse_query_utf8 [of q kvs] by (fastforce simp: string_pairs_def pairs_ok_def)

lemma body_pairs_ok:
  assumes "json_laws E" "body_pairs E body = Some kvs" shows "pairs_ok kvs"
proof (cases "\<exists>o1. json_from_slice E body = Some (Object o1)")
  case True
  with assms show ?thesis by (fastforce simp: body_pairs_def json_laws_def pairs_ok_def)
next
  case False
  then have "kvs = [] \<or> (\<exists>ps. parse_query body = Some ps \<and> kvs = string_pairs ps)"
    using assms(2) by (auto simp: body_pairs_def map_option_Some_iff split: option.splits json.splits if_splits)
  then show ?thesis by (auto intro: string_pairs_ok)
qed

lemma captures_ok: "list_all utf8 p \<Longrightarrow> list_all utf8 t \<Longrightarrow> pairs_ok (captures p i t)"
proof (induction p i t rule: captures.induct)
  case (2 p i seg t)
  have rest: "utf8 (join ''/'' (drop i p))"
    using 2 by (intro utf8_join) (auto simp: utf8_ascii_Cons list_all_iff dest: in_set_dropD)
  have get: "i < length p \<Longrightarrow> utf8 (p ! i)" using 2 by (simp add: list_all_length)
  have name: "utf8 nm" if "Option.bind (strip_prefix ''{'' seg) (strip_suffix ''}'') = Some nm" for nm
  proof -
    have "seg = ''{'' @ nm @ ''}''" using that by (auto simp: bind_Some_iff strip_prefix_Some_iff strip_suffix_Some_iff)
    with 2 show ?thesis by (simp add: utf8_ascii_Cons utf8_cut)
  qed
  have rest_name: "utf8 r" if "utf8 nm" "strip_suffix ''+'' nm = Some r" for r nm
    using that by (auto simp: strip_suffix_Some_iff utf8_cut)
  show ?case using 2 rest get name rest_name by (auto split: option.split)
qed simp

lemma utf8_segments: "utf8 s \<Longrightarrow> list_all utf8 (split_on (CHR ''/'') s)"
  by (auto simp: list_all_iff intro: utf8_split [of "CHR ''/''"])

lemma normalize_fields_ok:
  assumes "json_laws E" "service_ok svc" "utf8 path" "normalize E svc req path = Some act"
  shows "json_ok (a_fields act) \<and> as_object (a_fields act) \<noteq> None"
proof (rule normalize_fields [OF assms(4)])
  fix qs bs
  assume q: "parse_query (q_query req) = Some qs" and b: "body_pairs E (q_body req) = Some bs"
    and f: "a_fields act = Object (fold (\<lambda>(k, v). bt_insert k v) (string_pairs qs @ bs @ template_captures svc path) [])"
  have "pairs_ok (template_captures svc path)"
    using assms(2,3) by (auto simp: template_captures_def service_ok_def utf8_segments utf8_trim_start_matches
        intro!: captures_ok split: option.splits)
  then have "pairs_ok (string_pairs qs @ bs @ template_captures svc path)"
    using string_pairs_ok [OF q] body_pairs_ok [OF assms(1) b] by simp
  then show ?thesis unfolding f by (auto simp: pairs_ok_def simp del: json_ok.simps intro!: json_ok_insert_all)
qed

section \<open>Actions\<close>

lemma visible_utf8: "list_all visible s \<Longrightarrow> utf8 s"
  by (rule ascii_utf8) (auto simp: ascii_def visible_def list_all_iff)

lemma visible_header: "http_laws E \<Longrightarrow> Option.bind h (value_to_str E) = Some v \<Longrightarrow> utf8 v"
  by (auto simp: bind_Some_iff http_to_str visible_utf8 split: if_splits)

lemma find_action_utf8: "parse_query q = Some kvs \<Longrightarrow> find_action kvs = Some v \<Longrightarrow> utf8 v"
proof -
  assume q: "parse_query q = Some kvs" and "find_action kvs = Some v"
  then obtain k where "List.find (\<lambda>(k, _). k = ''Action'') kvs = Some (k, v)"
    by (auto simp: find_action_def map_option_Some_iff)
  then have "(k, v) \<in> set kvs" by (rule find_SomeD [THEN conjunct1])
  then show ?thesis using parse_query_utf8 [OF q] by simp
qed

lemma UNPARSED_utf8 [simp]: "utf8 UNPARSED"
  by (rule ascii_utf8) (simp add: UNPARSED_def)

lemma after_last_dot_utf8: "utf8 s \<Longrightarrow> utf8 (after_last_dot s)"
proof (cases "rsplit_once (CHR ''.'') s")
  case (Some ab)
  moreover assume "utf8 s"
  ultimately show ?thesis
    using utf8_rsplit_once [of "CHR ''.''" s "fst ab" "snd ab"] by (cases ab) (simp add: after_last_dot_def)
qed (simp add: after_last_dot_def)

lemma aws_query_action_ok:
  assumes "aws_query_action req = Some v" shows "verb_ok v"
proof -
  obtain from_body opn where body: "(case from_utf8 (q_body req) of
         Some b \<Rightarrow> map_option find_action (parse_query b) | None \<Rightarrow> Some None) = Some from_body"
    and opn: "(case from_body of Some v \<Rightarrow> Some (Some v)
       | None \<Rightarrow> map_option find_action (parse_query (q_query req))) = Some opn"
    and v: "v = (case opn of Some v \<Rightarrow> if v \<noteq> [] then verb_action v else verb_action UNPARSED
       | None \<Rightarrow> verb_action UNPARSED)"
    using assms unfolding aws_query_action_def bind_Some_iff by blast
  have "utf8 n" if "from_body = Some n" for n
    using body that find_action_utf8 by (auto split: option.splits)
  then have "utf8 n" if "opn = Some n" for n
    using opn that find_action_utf8 by (auto split: option.splits)
  then show ?thesis by (auto simp: v verb_action_def split: option.split)
qed

lemma aws_json_action_ok: "http_laws E \<Longrightarrow> verb_ok (aws_json_action E req)"
  using visible_header [of E] after_last_dot_utf8
  by (auto simp: aws_json_action_def verb_action_def split: option.split)

lemma verb_for_protocol_ok: "http_laws E \<Longrightarrow> verb_for_protocol E p req = Some v \<Longrightarrow> verb_ok v"
  by (cases p) (auto simp: verb_for_protocol_def verb_for_def verb_crud_def aws_json_action_ok dest: aws_query_action_ok)

text \<open>The kind of a resource is a literal or a segment of its path.\<close>

lemma github_kind_ok: "list_all utf8 segs \<Longrightarrow> utf8 (github_kind segs)"
  by (auto simp: github_kind_def github_collection_kind_def utf8_ascii_Cons split: list.split)

lemma k8s_kind_ok: "list_all utf8 segs \<Longrightarrow> utf8 (k8s_kind segs)"
  by (auto simp: k8s_kind_def list_get_def utf8_ascii_Cons list_all_iff bind_Some_iff split: option.split if_splits)

lemma generic_kind_ok: "list_all utf8 segs \<Longrightarrow> utf8 (case segs of k # _ \<Rightarrow> k | [] \<Rightarrow> ''other'')"
  by (auto simp: utf8_ascii_Cons split: list.split)

lemma resource_ok:
  assumes "utf8 path" "res = github_resource path \<or> res = k8s_resource path \<or> res = generic_resource path"
  shows "utf8 (r_path res) \<and> utf8 (r_kind res)"
  using assms utf8_segments [OF assms(1)]
  by (auto simp: github_resource_def k8s_resource_def generic_resource_def resource_of_def utf8_ascii_Cons
      github_kind_ok k8s_kind_ok generic_kind_ok)

lemma normalize_ok:
  assumes "http_laws E" "json_laws E" "service_ok svc" "utf8 path" "normalize E svc req path = Some act"
  shows "action_ok act"
proof -
  let ?p = "trim_start_matches (CHR ''/'') path"
  obtain v fs where v: "verb_for_protocol E (x_protocol (s_extract svc)) req = Some v"
    and act: "act = with_fields fs (action_of (s_name svc) v (case s_flavor svc of
        Github \<Rightarrow> github_resource ?p | K8s \<Rightarrow> k8s_resource ?p | Generic \<Rightarrow> generic_resource ?p))"
    using assms(5) unfolding normalize_def Let_def bind_Some_iff by blast
  have "utf8 ?p" using assms(4) by (simp add: utf8_trim_start_matches)
  from resource_ok [OF this] have "utf8 (r_path (a_resource act)) \<and> utf8 (r_kind (a_resource act))"
    by (simp add: act with_fields_def action_of_def split: flavor.split)
  with assms(3) verb_for_protocol_ok [OF assms(1) v] normalize_fields_ok [OF assms(2-5)]
  show ?thesis by (simp add: action_ok_def act with_fields_def action_of_def service_ok_def)
qed

section \<open>The request path\<close>

lemma canonicalize_ok:
  assumes "canonicalize raw = Some (Inr cp)" shows "utf8 (cp_decoded cp)" "utf8 (cp_encoded cp)"
proof -
  obtain stack where good: "list_all good_segment stack" and cp: "cp = path_of_stack stack"
    using canonicalize_Inr [OF assms] by metis
  have "list_all utf8 stack" using good by (auto simp: list_all_iff good_segment_def)
  then show "utf8 (cp_decoded cp)"
    unfolding cp path_of_stack_def by (simp add: utf8_ascii_Cons utf8_join)
  have "list_all utf8 (map (\<lambda>s. uri_encode s True) stack)"
    by (simp add: list_all_iff ascii_utf8)
  then show "utf8 (cp_encoded cp)"
    unfolding cp path_of_stack_def by (simp add: utf8_ascii_Cons utf8_join)
qed

lemma utf8_snoc: "byte d < 128 \<Longrightarrow> utf8 (s @ [d]) \<longleftrightarrow> utf8 s"
  using utf8_cut [of d s "[]"] by simp

lemma utf8_trim_end_matches: "byte d < 128 \<Longrightarrow> utf8 s \<Longrightarrow> utf8 (trim_end_matches d s)"
  by (induction s rule: rev_induct) (auto simp: trim_end_matches_def utf8_snoc)

lemma upstream_url_ok: "utf8 base \<Longrightarrow> utf8 path \<Longrightarrow> utf8 query \<Longrightarrow> utf8 (upstream_url base path query)"
  by (auto simp: upstream_url_def Let_def utf8_ascii_Cons intro!: utf8_append utf8_trim_end_matches)

definition control_ok :: "control \<Rightarrow> bool" where
  "control_ok c \<longleftrightarrow> list_all event_ok (events_of (cp_audit c))"

lemma audit_ok: "control_ok c \<Longrightarrow> action_ok a \<Longrightarrow> utf8 d \<Longrightarrow> control_ok (audit a v d now c)"
  by (simp add: control_ok_def event_ok_def)

lemma audit_raw_ok: "control_ok c \<Longrightarrow> utf8 h \<Longrightarrow> utf8 d \<Longrightarrow> control_ok (audit_raw h v d now c)"
  unfolding audit_raw_def
  by (rule audit_ok) (simp_all add: action_ok_def action_of_def verb_crud_def resource_of_def empty_fields_def utf8_ascii_Cons)

definition outcome_ok :: "'h outcome \<Rightarrow> bool" where
  "outcome_ok out = (case out of Forward plan \<Rightarrow> utf8 (fp_url plan) | Reject rj \<Rightarrow> utf8 (rj_message rj))"

lemma reject_ok [simp]: "outcome_ok (reject status reason m) \<longleftrightarrow> utf8 m"
  "outcome_ok (bad_gateway m) \<longleftrightarrow> utf8 m"
  by (simp_all add: outcome_ok_def reject_def bad_gateway_def)

lemma not_configured_ok: "utf8 credential \<Longrightarrow> utf8 (not_configured credential)"
  unfolding not_configured_def by (intro utf8_append) (simp_all add: utf8_ascii_Cons)

lemma resolve_header_value_ok:
  assumes "control_ok c" "action_ok act" "utf8 credential" "resolve_header_value E act credential pfx now c = (r, c')"
  shows "control_ok c' \<and> (case r of Inl out \<Rightarrow> outcome_ok out | Inr _ \<Rightarrow> True)"
  using assms audit_ok [OF assms(1,2)] not_configured_ok [OF assms(3)]
  by (auto simp: resolve_header_value_def utf8_ascii_Cons split: option.splits)

lemma apply_outbound_ok:
  assumes "control_ok c" "action_ok act" "service_ok svc" "apply_outbound E svc act req h now c = Some (r, c')"
  shows "control_ok c' \<and> (case r of Inl out \<Rightarrow> outcome_ok out | Inr (h', detail) \<Rightarrow> utf8 detail)"
proof (cases "s_outbound svc")
  case Passthrough
  with assms show ?thesis by (auto simp: apply_outbound_def utf8_ascii_Cons)
next
  case (Bearer cred)
  then have cred: "utf8 cred" using assms(3) by (simp add: service_ok_def)
  obtain r1 c1 where r: "resolve_header_value E act cred ''Bearer '' now c = (r1, c1)" by fastforce
  have "utf8 (''allowed; injected bearer ['' @ cred @ '']'')"
    using cred by (intro utf8_append) (simp_all add: utf8_ascii_Cons)
  with resolve_header_value_ok [OF assms(1,2) cred r] assms(4) Bearer r show ?thesis
    by (cases r1) (auto simp: apply_outbound_def)
next
  case (Header nm cred)
  then have cred: "utf8 cred" "utf8 nm" using assms(3) by (simp_all add: service_ok_def)
  obtain r1 c1 where r: "resolve_header_value E act cred [] now c = (r1, c1)" by fastforce
  have d: "utf8 (''allowed; injected header '' @ nm @ '' ['' @ cred @ '']'')"
    using cred by (intro utf8_append) (simp_all add: utf8_ascii_Cons)
  have e: "utf8 ''invalid header name''" "utf8 ''configured header name is invalid''"
    by (simp_all add: utf8_ascii_Cons)
  show ?thesis
    using resolve_header_value_ok [OF assms(1,2) cred(1) r] assms(4) Header r d audit_ok [OF assms(1,2) e(1)] e(2)
    by (cases "name_from_bytes E nm"; cases r1) (auto simp: apply_outbound_def)
next
  case (OutSigV4 cred akid rgn aws)
  then have cred: "utf8 cred" using assms(3) by (simp add: service_ok_def)
  have d: "utf8 (''allowed; sigv4 re-signed ['' @ cred @ '']'')"
    using cred by (intro utf8_append) (simp_all add: utf8_ascii_Cons)
  have e: "utf8 ''required credential is not configured''" by (simp add: utf8_ascii_Cons)
  show ?thesis
    using assms(1,4) OutSigV4 d e audit_ok [OF assms(1,2) not_configured_ok [OF cred]]
    by (auto simp: apply_outbound_def bind_Some_iff Let_def split: option.splits)
qed

lemma plan_forward_ok:
  assumes "control_ok c" "action_ok act" "service_ok svc" "request_ok req"
    and "plan_forward E svc act req source now c = Some (out, c')"
  shows "control_ok c' \<and> outcome_ok out"
proof -
  obtain r c1 where r: "apply_outbound E svc act req (sanitize_headers E (q_headers req) source) now c = Some (r, c1)"
    using assms(5) by (auto simp: plan_forward_def bind_Some_iff)
  have "utf8 (upstream_url (s_upstream_base svc) (q_path req) (q_query req))"
    using assms(3,4) by (auto simp: service_ok_def request_ok_def intro!: upstream_url_ok)
  with apply_outbound_ok [OF assms(1-3) r] assms(2,5) r show ?thesis
    by (cases r) (auto simp: plan_forward_def outcome_ok_def intro: audit_ok)
qed

lemma host_ok: "http_laws E \<Longrightarrow> utf8 (case extract_host E h of Some v \<Rightarrow> v | None \<Rightarrow> [])"
  using visible_header [of E] by (auto simp: extract_host_def split: option.split)

lemma handle_authenticated_ok:
  assumes "http_laws E" "json_laws E" "control_ok c" "list_all service_ok services" "request_ok req"
    and "handle_authenticated E services req pol source now c = Some (out, c')"
  shows "control_ok c' \<and> outcome_ok out"
proof -
  define host where "host = (case extract_host E (q_headers req) of Some h \<Rightarrow> h | None \<Rightarrow> [])"
  have host: "utf8 host" unfolding host_def by (rule host_ok [OF assms(1)])
  note h = assms(6) [unfolded handle_authenticated_def Let_def, folded host_def]
  have lit: "utf8 ''no service for host''" "utf8 ''non-canonical path''" "utf8 ''no service configured for this host''"
    "utf8 ''non-canonical request path''" "utf8 ''denied by policy''" "utf8 (debug_reason reason)" for reason
    by (cases reason; simp add: utf8_ascii_Cons)+
  note raw = audit_raw_ok [OF assms(3) host]
  show ?thesis
  proof (cases "route services host")
    case None
    with h raw [OF lit(1)] lit(3) show ?thesis by auto
  next
    case (Some svc)
    note route = this
    then have svc: "service_ok svc" using assms(4) by (auto simp: list_all_iff dest: routeD)
    obtain r where r: "canonicalize (q_path req) = Some r" using h route by (auto simp: bind_Some_iff)
    show ?thesis
    proof (cases r)
      case (Inl e)
      then show ?thesis using h route r raw [OF lit(2)] lit(4) by (cases e) auto
    next
      case (Inr cp)
      note cp = canonicalize_ok [OF r [unfolded Inr]]
      obtain act where act: "normalize E svc req (cp_decoded cp) = Some act"
        using h route r Inr by (auto simp: bind_Some_iff)
      have a: "action_ok act" by (rule normalize_ok [OF assms(1,2) svc cp(1) act])
      show ?thesis
      proof (cases "decide act pol")
        case (Allow obs)
        have "request_ok (req\<lparr> q_path := cp_encoded cp \<rparr>)" using assms(5) cp(2) by (simp add: request_ok_def)
        from plan_forward_ok [OF assms(3) a svc this] show ?thesis using h route r Inr act Allow by auto
      next
        case (Deny reason)
        then show ?thesis using h route r Inr act audit_ok [OF assms(3) a lit(6)] lit(5) by auto
      qed
    qed
  qed
qed

lemma authenticate_reject_ok:
  assumes "authenticate E ts req now = Some (Inl out)" shows "outcome_ok out"
proof -
  have t: "outcome_ok out" if "authenticate_token E ts req now = Inl out"
    using that by (auto simp: authenticate_token_def utf8_ascii_Cons split: option.splits)
  have s: "outcome_ok out" if "authenticate_sigv4 E ts req auth now = Some (Inl out)" for auth
    using that by (rule authenticate_sigv4_cases) (simp_all add: unauth_sigv4_def utf8_ascii_Cons)
  show ?thesis by (rule authenticate_cases [OF assms]) (rule s, assumption, rule t)
qed

section \<open>Property\<close>

definition gateway_ok :: "gateway \<Rightarrow> bool" where
  "gateway_ok g \<longleftrightarrow> list_all service_ok (g_router g) \<and> control_ok (g_control g)"


text \<open>A request whose path and query carry escapes of bytes that are not UTF-8.\<close>

definition escaped_request :: "header_list proxy_request" where
  "escaped_request = demo_request\<lparr> q_path := ''/repos/%FF%C3%A9'', q_query := ''a=%80&b'' \<rparr>"


end
