(* ===== verification/Agent.thy ===== *)
theory Agent
  imports Models Utf8
begin

text \<open>
  \<^verbatim>\<open>agent/src/lib.rs\<close>: rendering a provision document into tool configuration, over a file system that
  is a map from paths to text. A path is its text; the operations on a denied path fail; a directory
  is created with the file. What an operation returns comes with the file system it leaves, also when
  it fails. Texts are UTF-8 bytes.
\<close>

section \<open>The file system\<close>

record fs =
  files :: "string \<Rightarrow> string option"
  denied :: "string \<Rightarrow> bool"

type_synonym 'a io = "fs \<Rightarrow> (string + 'a) \<times> fs"

definition io_return :: "'a \<Rightarrow> 'a io" where
  "io_return a fs = (Inr a, fs)"

text \<open>The question mark operator.\<close>

definition io_bind :: "'a io \<Rightarrow> ('a \<Rightarrow> 'b io) \<Rightarrow> 'b io" where
  "io_bind m f fs = (case m fs of (Inl e, fs') \<Rightarrow> (Inl e, fs') | (Inr a, fs') \<Rightarrow> f a fs')"

definition IO_ERROR :: string where
  "IO_ERROR = ''io error''"

text \<open>\<^verbatim>\<open>read_to_string\<close>, with \<open>None\<close> for \<^verbatim>\<open>NotFound\<close>, and \<^verbatim>\<open>remove_file\<close>, with whether there was one.\<close>

definition fs_read :: "string \<Rightarrow> string option io" where
  "fs_read p fs = (if denied fs p then (Inl IO_ERROR, fs) else (Inr (files fs p), fs))"

definition fs_remove :: "string \<Rightarrow> bool io" where
  "fs_remove p fs =
     (if denied fs p then (Inl IO_ERROR, fs)
      else case files fs p of
        None \<Rightarrow> (Inr False, fs)
      | Some _ \<Rightarrow> (Inr True, fs\<lparr> files := (files fs)(p := None) \<rparr>))"

definition path_join :: "string \<Rightarrow> string \<Rightarrow> string" where
  "path_join a b = (if a = [] \<or> last a = CHR ''/'' then a @ b else a @ ''/'' @ b)"

definition write_file :: "string \<Rightarrow> string \<Rightarrow> string io" where
  "write_file p contents fs =
     (if denied fs p then (Inl IO_ERROR, fs) else (Inr p, fs\<lparr> files := (files fs)(p \<mapsto> contents) \<rparr>))"

section \<open>Rendering\<close>

definition MANIFEST :: string where
  "MANIFEST = ''.hackamore/manifest''"

definition CA_BUNDLE :: string where
  "CA_BUNDLE = ''.hackamore/hackamore-ca.pem''"

abbreviation LF :: string where
  "LF \<equiv> [chr 10]"

abbreviation TAB :: string where
  "TAB \<equiv> [chr 9]"

abbreviation QUOTE :: string where
  "QUOTE \<equiv> [chr 39]"

abbreviation DQUOTE :: string where
  "DQUOTE \<equiv> [chr 34]"

fun mode_hint :: "provision_mode \<Rightarrow> string" where
  "mode_hint Inject = ''inject (hackamore supplies the credential)''"
| "mode_hint PassthroughMode = ''passthrough (bring your own credential)''"

definition render_env :: "provision_doc \<Rightarrow> string" where
  "render_env doc =
     ''# hackamore-agent env (token expires at '' @ dec (unat (pd_expires_at_ms doc)) @ '' ms)'' @ LF
     @ ''export HACKAMORE_TOKEN='' @ QUOTE @ pd_token doc @ QUOTE @ LF
     @ ''export HACKAMORE_TOKEN_HEADER='' @ QUOTE @ ''X-Hackamore-Token'' @ QUOTE @ LF
     @ (if pd_ca doc \<noteq> [] then
          ''export HACKAMORE_CA_BUNDLE='' @ DQUOTE @ ''$HOME/'' @ CA_BUNDLE @ DQUOTE @ LF
          @ ''export AWS_CA_BUNDLE='' @ DQUOTE @ ''$HOME/'' @ CA_BUNDLE @ DQUOTE @ LF
          @ ''export GIT_SSL_CAINFO='' @ DQUOTE @ ''$HOME/'' @ CA_BUNDLE @ DQUOTE @ LF
        else [])
     @ concat (map (\<lambda>s.
          ''# service '' @ QUOTE @ ps_target s @ QUOTE @ '' ['' @ ps_flavor s @ ''] '' @ mode_hint (ps_mode s) @ LF
          @ (if ps_address s \<noteq> [] then ''#   point your tool at: '' @ ps_address s @ LF else []))
        (pd_services doc))"

definition render_status :: "provision_doc \<Rightarrow> string" where
  "render_status doc =
     ''hackamore token valid until '' @ dec (unat (pd_expires_at_ms doc)) @ '' ms; ''
     @ dec (length (pd_services doc)) @ '' service(s) reachable:'' @ LF
     @ concat (map (\<lambda>s.
          let addr = (if ps_address s = [] then ''(via hackamore proxy)'' else ps_address s)
          in ''  - '' @ ps_target s @ '' ['' @ ps_flavor s @ ''] '' @ mode_hint (ps_mode s) @ '' ''
             @ [chr 226, chr 134, chr 146] @ '' '' @ addr @ LF)
        (pd_services doc))"

definition bearer_token :: "provision_service \<Rightarrow> string option" where
  "bearer_token s = (case ps_auth s of BearerAuth t \<Rightarrow> Some t | SigV4Auth _ \<Rightarrow> None)"

definition token_or_empty :: "provision_service \<Rightarrow> string" where
  "token_or_empty s = (case bearer_token s of Some t \<Rightarrow> t | None \<Rightarrow> [])"

definition endpoint :: "provision_service \<Rightarrow> string" where
  "endpoint s = (if ps_address s = [] then ''https://hackamore.local'' else ps_address s)"

text \<open>\<^verbatim>\<open>trim_start_matches\<close> of a (non-empty) text drops it as often as it occurs.\<close>

function trim_start_matches_str :: "string \<Rightarrow> string \<Rightarrow> string" where
  "trim_start_matches_str p s =
     (if p \<noteq> [] \<and> starts_with p s then trim_start_matches_str p (drop (length p) s) else s)"
  by pat_completeness auto
termination
proof (relation "measure (\<lambda>(_, s). length s)")
  fix p s :: string
  assume "p \<noteq> [] \<and> starts_with p s"
  then have "length p \<le> length s" "0 < length p" by (auto simp: starts_with_iff)
  then have "length s - length p < length s" by linarith
  then show "((p, drop (length p) s), p, s) \<in> measure (\<lambda>(_, s). length s)" by simp
qed simp

declare trim_start_matches_str.simps [simp del]

definition endpoint_host :: "provision_service \<Rightarrow> string" where
  "endpoint_host s =
     trim_end_matches (CHR ''/'') (trim_start_matches_str ''http://'' (trim_start_matches_str ''https://'' (endpoint s)))"

section \<open>Merging lines\<close>

fun merge_loop :: "string list \<Rightarrow> string list \<Rightarrow> string list" where
  "merge_loop seen [] = []"
| "merge_loop seen (l # ls) =
     (let l = trim l in
      if l \<noteq> [] \<and> l \<notin> set seen then l # merge_loop (l # seen) ls else merge_loop seen ls)"

definition merged :: "string \<Rightarrow> string \<Rightarrow> string" where
  "merged existing line = join LF (merge_loop [] (lines existing @ [line])) @ LF"

definition merge_lines :: "string \<Rightarrow> string \<Rightarrow> string io" where
  "merge_lines p line = io_bind (fs_read p) (\<lambda>text.
     io_return (merged (case text of Some t \<Rightarrow> t | None \<Rightarrow> []) line))"

section \<open>Writing the configuration\<close>

definition ca_line :: "string option \<Rightarrow> (string \<Rightarrow> string) \<Rightarrow> string" where
  "ca_line ca render = (case ca of Some p \<Rightarrow> render p | None \<Rightarrow> [])"

definition write_kubeconfig :: "string \<Rightarrow> provision_service \<Rightarrow> string option \<Rightarrow> string io" where
  "write_kubeconfig home s ca =
     (let token = token_or_empty s;
          nm = ps_target s;
          cluster_tls = ca_line ca (\<lambda>p. ''    certificate-authority: '' @ p @ LF);
          body = ''apiVersion: v1'' @ LF @ ''kind: Config'' @ LF @ ''current-context: '' @ nm @ LF
            @ ''clusters:'' @ LF @ ''- name: '' @ nm @ LF @ ''  cluster:'' @ LF @ ''    server: '' @ endpoint s @ LF
            @ cluster_tls
            @ ''contexts:'' @ LF @ ''- name: '' @ nm @ LF @ ''  context:'' @ LF @ ''    cluster: '' @ nm @ LF
            @ ''    user: '' @ nm @ LF
            @ ''users:'' @ LF @ ''- name: '' @ nm @ LF @ ''  user:'' @ LF @ ''    token: '' @ token @ LF
      in write_file (path_join (path_join home ''.kube'') ''config'') body)"

definition write_github :: "string \<Rightarrow> provision_service \<Rightarrow> string option \<Rightarrow> string list io" where
  "write_github home s ca =
     (let token = token_or_empty s;
          host = endpoint_host s;
          cred_line = ''https://x-access-token:'' @ token @ ''@'' @ host;
          creds = path_join home ''.git-credentials'';
          gitconfig = ''[credential]'' @ LF @ TAB @ ''helper = store'' @ LF
            @ ca_line ca (\<lambda>p. ''[http]'' @ LF @ TAB @ ''sslCAInfo = '' @ p @ LF);
          hosts = host @ '':'' @ LF @ ''    oauth_token: '' @ token @ LF @ ''    git_protocol: https'' @ LF
            @ ''    user: x-access-token'' @ LF
      in io_bind (merge_lines creds cred_line) (\<lambda>merged.
         io_bind (write_file creds merged) (\<lambda>creds.
         io_bind (write_file (path_join home ''.gitconfig'') gitconfig) (\<lambda>gitconfig.
         io_bind (write_file (path_join (path_join (path_join home ''.config'') ''gh'') ''hosts.yml'') hosts) (\<lambda>gh.
         io_return [creds, gitconfig, gh])))))"

definition write_aws :: "string \<Rightarrow> provision_service \<Rightarrow> sigv4_auth \<Rightarrow> string option \<Rightarrow> string list io" where
  "write_aws home s a ca =
     (let creds = ''[default]'' @ LF @ ''aws_access_key_id = '' @ sa_access_key_id a @ LF
            @ ''aws_secret_access_key = '' @ sa_secret_access_key a @ LF;
          config = ''[default]'' @ LF @ ''region = '' @ sa_region a @ LF @ ''endpoint_url = '' @ endpoint s @ LF
            @ ca_line ca (\<lambda>p. ''ca_bundle = '' @ p @ LF)
      in io_bind (write_file (path_join (path_join home ''.aws'') ''credentials'') creds) (\<lambda>c.
         io_bind (write_file (path_join (path_join home ''.aws'') ''config'') config) (\<lambda>f.
         io_return [c, f])))"

text \<open>The body of the loop over the services, and the loop; the written paths are collected in order.\<close>

definition write_service :: "string \<Rightarrow> string option \<Rightarrow> provision_service \<Rightarrow> string list io" where
  "write_service home ca s =
     io_bind
       (if ps_flavor s = ''github'' then write_github home s ca
        else if ps_flavor s = ''k8s'' then io_bind (write_kubeconfig home s ca) (\<lambda>p. io_return [p])
        else io_return [])
       (\<lambda>ws. case ps_auth s of
          SigV4Auth a \<Rightarrow> io_bind (write_aws home s a ca) (\<lambda>ws'. io_return (ws @ ws'))
        | BearerAuth _ \<Rightarrow> io_return ws)"

fun write_services :: "string \<Rightarrow> string option \<Rightarrow> provision_service list \<Rightarrow> string list io" where
  "write_services home ca [] = io_return []"
| "write_services home ca (s # ss) =
     io_bind (write_service home ca s) (\<lambda>ws. io_bind (write_services home ca ss) (\<lambda>ws'. io_return (ws @ ws')))"

definition write_manifest :: "string \<Rightarrow> string list \<Rightarrow> string io" where
  "write_manifest home written = write_file (path_join home MANIFEST) (join LF written @ LF)"

definition write_configs :: "string \<Rightarrow> provision_doc \<Rightarrow> string list io" where
  "write_configs home doc =
     io_bind (write_file (path_join home ''hackamore.env'') (render_env doc)) (\<lambda>env.
     io_bind (if pd_ca doc = [] then io_return []
              else io_bind (write_file (path_join home CA_BUNDLE) (pd_ca doc)) (\<lambda>p. io_return [p])) (\<lambda>ca.
     io_bind (write_services home (case ca of p # _ \<Rightarrow> Some p | [] \<Rightarrow> None) (pd_services doc)) (\<lambda>ws.
     let written = env # ca @ ws
     in io_bind (write_manifest home written) (\<lambda>_. io_return written))))"

section \<open>Removing it\<close>

fun remove_listed :: "string list \<Rightarrow> string list io" where
  "remove_listed [] = io_return []"
| "remove_listed (p # ps) =
     io_bind (fs_remove p) (\<lambda>there. io_bind (remove_listed ps) (\<lambda>rs. io_return (if there then p # rs else rs)))"

text \<open>The result of removing the manifest itself is ignored.\<close>

definition teardown :: "string \<Rightarrow> string list io" where
  "teardown home =
     io_bind (fs_read (path_join home MANIFEST)) (\<lambda>listing.
     case listing of
       None \<Rightarrow> io_return []
     | Some text \<Rightarrow>
         io_bind (remove_listed (filter (\<lambda>l. trim l \<noteq> []) (lines text))) (\<lambda>removed.
         (\<lambda>fs. (Inr removed, snd (fs_remove (path_join home MANIFEST) fs)))))"

section \<open>The command line\<close>

text \<open>
  Fetching the document and the subcommands of \<^verbatim>\<open>agent/src/main.rs\<close>. The exchange is a parameter: a URL and
  headers are answered by a transport error, or whether the status is a success, its text and the
  decoded body. A command prints lines, each with its end.
\<close>

record fetch_response =
  fr_success :: bool
  fr_status :: string
  fr_json :: "string + provision_doc"

definition fetch_provision ::
  "(string \<Rightarrow> (string \<times> string) list \<Rightarrow> string + fetch_response) \<Rightarrow> string \<Rightarrow> string \<Rightarrow> string + provision_doc" where
  "fetch_provision fetch proxy_url token =
     (let url = trim_end_matches (CHR ''/'') proxy_url @ ''/.hackamore/provision'' in
      case fetch url [(''X-Hackamore-Token'', token)] of
        Inl e \<Rightarrow> Inl (''provision request failed: '' @ e)
      | Inr resp \<Rightarrow>
          if \<not> fr_success resp then Inl (''provision failed: HTTP '' @ fr_status resp)
          else case fr_json resp of
              Inl e \<Rightarrow> Inl (''provision decode failed: '' @ e)
            | Inr doc \<Rightarrow> Inr doc)"

datatype agent_command =
    Show string string
  | Env string string
  | Status string string
  | Setup string string "string option"
  | Teardown "string option"

definition resolve_home :: "string option \<Rightarrow> string option \<Rightarrow> string + string" where
  "resolve_home explicit env_home =
     (case (case explicit of Some h \<Rightarrow> Some h | None \<Rightarrow> env_home) of
        Some h \<Rightarrow> Inr h
      | None \<Rightarrow> Inl ''no --home and $HOME is unset'')"

definition io_lift :: "string + 'a \<Rightarrow> 'a io" where
  "io_lift r fs = (r, fs)"

definition report :: "string \<Rightarrow> string list \<Rightarrow> string" where
  "report what ps = concat (map (\<lambda>p. what @ '' '' @ p @ LF) ps)"

definition run_command ::
  "(string \<Rightarrow> (string \<times> string) list \<Rightarrow> string + fetch_response) \<Rightarrow> (provision_doc \<Rightarrow> string) \<Rightarrow> string option
   \<Rightarrow> agent_command \<Rightarrow> string io" where
  "run_command fetch pretty env_home command =
     (case command of
        Show url token \<Rightarrow> io_bind (io_lift (fetch_provision fetch url token)) (\<lambda>doc. io_return (pretty doc @ LF))
      | Env url token \<Rightarrow> io_bind (io_lift (fetch_provision fetch url token)) (\<lambda>doc. io_return (render_env doc))
      | Status url token \<Rightarrow> io_bind (io_lift (fetch_provision fetch url token)) (\<lambda>doc. io_return (render_status doc))
      | Setup url token home \<Rightarrow>
          io_bind (io_lift (fetch_provision fetch url token)) (\<lambda>doc.
          io_bind (io_lift (resolve_home home env_home)) (\<lambda>home.
          io_bind (write_configs home doc) (\<lambda>written. io_return (report ''wrote'' written))))
      | Teardown home \<Rightarrow>
          io_bind (io_lift (resolve_home home env_home)) (\<lambda>home.
          io_bind (teardown home) (\<lambda>removed. io_return (report ''removed'' removed))))"

section \<open>Trimming twice\<close>

lemma ws_len_prefix: "ws_len (a @ b) = 0 \<Longrightarrow> ws_len a = 0"
  by (cases a; cases "tl a"; cases "tl (tl a)"; cases b; cases "tl b") (auto split: if_splits list.splits)

lemma ws_len_trim_start: "ws_len (trim_start s) = 0"
  by (induction s rule: trim_start.induct) (subst trim_start.simps, auto)

lemma ws_len_rev_trim_rev: "ws_len_rev (trim_rev s) = 0"
  by (induction s rule: trim_rev.induct) (subst trim_rev.simps, auto)

lemma trim_rev_suffix: "\<exists>p. s = p @ trim_rev s"
proof (induction s rule: trim_rev.induct)
  case (1 s)
  show ?case
  proof (cases "ws_len_rev s = 0")
    case False
    then obtain p where "drop (ws_len_rev s) s = p @ trim_rev (drop (ws_len_rev s) s)" using 1 by blast
    then have "s = (take (ws_len_rev s) s @ p) @ trim_rev (drop (ws_len_rev s) s)" by (metis append_assoc append_take_drop_id)
    then show ?thesis using False by (metis trim_rev.simps)
  qed (subst trim_rev.simps, simp)
qed

lemma ws_len_trim: "ws_len (trim s) = 0" and ws_len_rev_trim: "ws_len_rev (rev (trim s)) = 0"
proof -
  obtain p where "rev (trim_start s) = p @ trim_rev (rev (trim_start s))" using trim_rev_suffix by blast
  then have "trim_start s = trim s @ rev p" by (metis trim_def trim_end_def rev_append rev_rev_ident)
  then show "ws_len (trim s) = 0" using ws_len_prefix [of "trim s" "rev p"] ws_len_trim_start [of s] by simp
  show "ws_len_rev (rev (trim s)) = 0" by (simp add: trim_def trim_end_def ws_len_rev_trim_rev)
qed

lemma trim_idem [simp]: "trim (trim s) = trim s"
proof -
  have "trim_start (trim s) = trim s" using ws_len_trim [of s] by (subst trim_start.simps) simp
  moreover have "trim_rev (rev (trim s)) = rev (trim s)" using ws_len_rev_trim [of s] by (subst trim_rev.simps) simp
  ultimately show ?thesis by (simp add: trim_def [of "trim s"] trim_end_def)
qed

lemma strip_cr_trim: "strip_cr (trim s) = trim s"
proof (cases "strip_suffix [chr 13] (trim s)")
  case (Some t)
  then have "trim s = t @ [chr 13]"
    by (auto simp: strip_suffix_def strip_prefix_Some_iff map_option_Some_iff)
  then have "ws_len_rev (rev (trim s)) = 1" by (simp add: ascii_ws_def)
  then show ?thesis by (simp add: ws_len_rev_trim)
qed (simp add: strip_cr_def)

section \<open>Merged lines\<close>

text \<open>What the loop keeps: the first occurrences of the non-empty trimmed lines, in order.\<close>

fun first_occurrences :: "'a list \<Rightarrow> 'a list" where
  "first_occurrences [] = []"
| "first_occurrences (x # xs) = x # filter ((\<noteq>) x) (first_occurrences xs)"

definition kept_lines :: "string list \<Rightarrow> string list" where
  "kept_lines ls = first_occurrences (filter (\<lambda>l. l \<noteq> []) (map trim ls))"

lemma first_occurrences_set [simp]: "set (first_occurrences xs) = set xs"
  by (induction xs) auto

lemma first_occurrences_distinct [simp]: "distinct (first_occurrences xs)"
  by (induction xs) auto

lemma first_occurrences_id: "distinct xs \<Longrightarrow> first_occurrences xs = xs"
  by (induction xs) (auto simp: filter_id_conv)

lemma first_occurrences_snoc:
  "first_occurrences (xs @ [x]) = (if x \<in> set xs then first_occurrences xs else first_occurrences xs @ [x])"
  by (induction xs) auto

lemma merge_loop_kept: "merge_loop seen ls = filter (\<lambda>l. l \<notin> set seen) (kept_lines ls)"
proof (induction ls arbitrary: seen)
  case (Cons l ls)
  show ?case
  proof (cases "trim l \<noteq> [] \<and> trim l \<notin> set seen")
    case True
    then show ?thesis
      using Cons.IH [of "trim l # seen"] by (auto simp: kept_lines_def Let_def filter_filter intro!: filter_cong)
  next
    case False
    then show ?thesis using Cons.IH [of seen]
      by (auto simp: kept_lines_def Let_def filter_filter intro!: filter_cong)
  qed
qed (simp add: kept_lines_def)

lemma lines_join:
  assumes "ls \<noteq> []" "list_all (\<lambda>l. chr 10 \<notin> set l \<and> strip_cr l = l) ls"
  shows "lines (join LF ls @ LF) = ls"
  using assms
proof (induction ls rule: induct_list012)
  case (2 l)
  then show ?case using lines_append [of l "[]"] by simp
next
  case (3 l l' ls)
  then show ?case using lines_append [of l "join LF (l' # ls) @ LF"] by simp
qed simp

lemma set_strip_cr: "set (strip_cr l) \<subseteq> set l"
proof (cases "strip_suffix [chr 13] l")
  case (Some t)
  then have "l = t @ [chr 13]" by (auto simp: strip_suffix_def strip_prefix_Some_iff map_option_Some_iff)
  with Some show ?thesis by (auto simp: strip_cr_def)
qed (simp add: strip_cr_def)

lemma lines_no_lf:
  assumes "l \<in> set (lines s)" shows "chr 10 \<notin> set l"
proof -
  have "last (split_on (chr 10) s) \<in> set (split_on (chr 10) s)" by (rule last_in_set) simp
  then have "l \<in> strip_cr ` set (split_on (chr 10) s) \<union> set (split_on (chr 10) s)"
    using assms by (auto simp: lines_def Let_def dest: in_set_butlastD split: if_splits)
  then obtain p where "p \<in> set (split_on (chr 10) s)" "l = strip_cr p \<or> l = p" by blast
  then show ?thesis using split_on_no_sep [of p "chr 10" s] set_strip_cr [of p] by auto
qed

lemma merged_eq: "merged existing line = join LF (kept_lines (lines existing @ [line])) @ LF"
  by (simp add: merged_def merge_loop_kept)

lemma kept_linesD:
  assumes "l \<in> set (kept_lines ls)"
  obtains l' where "l' \<in> set ls" "l = trim l'" "l \<noteq> []"
  using assms by (auto simp: kept_lines_def)

lemma kept_lines_id:
  assumes "distinct ls" "list_all (\<lambda>l. trim l = l \<and> l \<noteq> []) ls"
  shows "kept_lines ls = ls"
proof -
  have "filter (\<lambda>l. l \<noteq> []) (map trim ls) = ls" using assms(2) by (induction ls) auto
  then show ?thesis using assms(1) by (simp add: kept_lines_def first_occurrences_id)
qed

lemma lines_merged:
  assumes "chr 10 \<notin> set line"
  shows "lines (merged existing line) =
    (if kept_lines (lines existing @ [line]) = [] then [[]] else kept_lines (lines existing @ [line]))"
proof (cases "kept_lines (lines existing @ [line]) = []")
  case True
  then show ?thesis using lines_append [of "[]" "[]"] by (simp add: merged_eq strip_cr_def strip_suffix_def strip_prefix_def)
next
  case False
  have "list_all (\<lambda>l. chr 10 \<notin> set l \<and> strip_cr l = l) (kept_lines (lines existing @ [line]))"
    unfolding list_all_iff
  proof (intro ballI)
    fix l assume "l \<in> set (kept_lines (lines existing @ [line]))"
    then obtain l' where l': "l' \<in> set (lines existing @ [line])" "l = trim l'" by (rule kept_linesD)
    then have "chr 10 \<notin> set l'" using assms lines_no_lf by auto
    then show "chr 10 \<notin> set l \<and> strip_cr l = l" using set_trim [of l'] l'(2) by (auto simp: strip_cr_trim)
  qed
  with False show ?thesis by (simp add: merged_eq lines_join)
qed

section \<open>What the writers touch\<close>

definition config_files :: "string list" where
  "config_files = [''hackamore.env'', CA_BUNDLE, ''.git-credentials'', ''.gitconfig'', ''.config/gh/hosts.yml'',
     ''.kube/config'', ''.aws/credentials'', ''.aws/config'']"

definition config_paths :: "string \<Rightarrow> string set" where
  "config_paths home = set (map (path_join home) config_files)"

text \<open>Outside a set of paths nothing changes, whether the operation succeeds or fails.\<close>

definition frame :: "string set \<Rightarrow> fs \<Rightarrow> fs \<Rightarrow> bool" where
  "frame P fs fs' \<longleftrightarrow> denied fs' = denied fs \<and> (\<forall>p. p \<in> P \<or> files fs' p = files fs p)"

lemma frame_refl [simp]: "frame P fs fs"
  by (simp add: frame_def)

lemma frame_trans: "frame P fs fs' \<Longrightarrow> frame P fs' fs'' \<Longrightarrow> frame P fs fs''"
  unfolding frame_def by metis

lemma frame_bind:
  fixes m :: "'a io" and f :: "'a \<Rightarrow> 'b io"
  assumes "frame P fs (snd (m fs))" "\<And>a fs'. frame P fs' (snd (f a fs'))"
  shows "frame P fs (snd (io_bind m f fs))"
proof -
  obtain r fs1 where m: "m fs = (r, fs1)" by fastforce
  show ?thesis using assms(1) assms(2) [of fs1] frame_trans [of P fs fs1] m
    by (cases r) (auto simp: io_bind_def)
qed

lemma frame_ops [simp]:
  "frame P fs (snd (io_return a fs))" "frame P fs (snd (fs_read p fs))"
  "p \<in> P \<Longrightarrow> frame P fs (snd (write_file p c fs))" "p \<in> P \<Longrightarrow> frame P fs (snd (fs_remove p fs))"
  by (auto simp: io_return_def fs_read_def write_file_def fs_remove_def frame_def split: option.split)

text \<open>A success: the returned paths are not denied and exist, and nothing else changed.\<close>

definition exact :: "fs \<Rightarrow> string list \<Rightarrow> fs \<Rightarrow> bool" where
  "exact fs ws fs' \<longleftrightarrow> frame (set ws) fs fs' \<and> list_all (\<lambda>p. \<not> denied fs p \<and> files fs' p \<noteq> None) ws"

lemma exact_Nil [simp]: "exact fs [] fs"
  by (simp add: exact_def)

lemma exact_append:
  assumes "exact fs ws fs'" "exact fs' ws' fs''"
  shows "exact fs (ws @ ws') fs''"
proof -
  have f: "frame (set (ws @ ws')) fs fs''"
    by (rule frame_trans [of _ _ fs']) (use assms in \<open>auto simp: exact_def frame_def\<close>)
  have "files fs'' p \<noteq> None" if "p \<in> set ws" for p
  proof (cases "p \<in> set ws'")
    case True
    then show ?thesis using assms(2) by (simp add: exact_def list_all_iff)
  next
    case False
    then have "files fs'' p = files fs' p" using assms(2) by (auto simp: exact_def frame_def)
    then show ?thesis using assms(1) that by (simp add: exact_def list_all_iff)
  qed
  note ws = this
  have "\<not> denied fs p \<and> files fs'' p \<noteq> None" if "p \<in> set ws \<or> p \<in> set ws'" for p
    using that ws [of p] assms by (auto simp: exact_def list_all_iff frame_def)
  then show ?thesis using f by (auto simp: exact_def list_all_iff)
qed

lemma exact_Cons: "exact fs [p] fs' \<Longrightarrow> exact fs' ws fs'' \<Longrightarrow> exact fs (p # ws) fs''"
  using exact_append [of fs "[p]" fs' ws fs''] by simp

lemma io_bind_Inr:
  "io_bind m f fs = (Inr b, fs') \<longleftrightarrow> (\<exists>a fs1. m fs = (Inr a, fs1) \<and> f a fs1 = (Inr b, fs'))"
  by (auto simp: io_bind_def split: prod.splits sum.splits)

lemma io_return_Inr [simp]: "io_return a fs = (Inr b, fs') \<longleftrightarrow> b = a \<and> fs' = fs"
  by (auto simp: io_return_def)

lemma write_exact: "write_file p c fs = (Inr q, fs') \<Longrightarrow> q = p \<and> exact fs [p] fs' \<and> files fs' p = Some c"
  by (auto simp: write_file_def exact_def frame_def split: if_splits)

lemma read_Inr: "fs_read p fs = (Inr t, fs') \<Longrightarrow> fs' = fs \<and> t = files fs p"
  by (auto simp: fs_read_def split: if_splits)

section \<open>Every path written is a fixed name under the home\<close>

lemma path_join_assoc:
  "path_join (path_join h ''.kube'') ''config'' = path_join h ''.kube/config''"
  "path_join (path_join h ''.aws'') ''credentials'' = path_join h ''.aws/credentials''"
  "path_join (path_join h ''.aws'') ''config'' = path_join h ''.aws/config''"
  "path_join (path_join (path_join h ''.config'') ''gh'') ''hosts.yml'' = path_join h ''.config/gh/hosts.yml''"
  by (simp_all add: path_join_def)

lemma config_paths_mem:
  "path_join h ''hackamore.env'' \<in> config_paths h" "path_join h CA_BUNDLE \<in> config_paths h"
  "path_join h ''.git-credentials'' \<in> config_paths h" "path_join h ''.gitconfig'' \<in> config_paths h"
  "path_join h ''.config/gh/hosts.yml'' \<in> config_paths h" "path_join h ''.kube/config'' \<in> config_paths h"
  "path_join h ''.aws/credentials'' \<in> config_paths h" "path_join h ''.aws/config'' \<in> config_paths h"
  by (simp_all add: config_paths_def config_files_def)

lemmas writer_defs = write_github_def write_kubeconfig_def write_aws_def merge_lines_def Let_def path_join_assoc

lemma frame_write_service: "frame (config_paths home) fs (snd (write_service home ca s fs))"
  unfolding write_service_def writer_defs
  by (auto intro!: frame_bind simp: config_paths_mem split: provision_auth.split)

lemma frame_write_services: "frame (config_paths home) fs (snd (write_services home ca ss fs))"
  by (induction ss arbitrary: fs) (auto intro!: frame_bind frame_write_service)

lemma frame_write_configs:
  "frame (insert (path_join home MANIFEST) (config_paths home)) fs (snd (write_configs home doc fs))"
proof -
  have mono: "frame (config_paths home) fs1 fs2 \<Longrightarrow> frame (insert (path_join home MANIFEST) (config_paths home)) fs1 fs2"
    for fs1 fs2 by (auto simp: frame_def)
  show ?thesis
    unfolding write_configs_def write_manifest_def Let_def
    by (auto intro!: frame_bind mono [OF frame_write_services] simp: config_paths_mem)
qed

lemma write_service_exact:
  assumes "write_service home ca s fs = (Inr ws, fs')"
  shows "exact fs ws fs' \<and> set ws \<subseteq> config_paths home"
proof -
  have g: "exact fs ws fs' \<and> set ws \<subseteq> config_paths home" if "write_github home s ca fs = (Inr ws, fs')" for fs ws fs'
    using that unfolding writer_defs io_bind_Inr
    by (auto simp: config_paths_mem dest!: write_exact read_Inr intro: exact_Cons)
  have k: "exact fs [w] fs' \<and> w \<in> config_paths home" if "write_kubeconfig home s ca fs = (Inr w, fs')" for fs w fs'
    using that unfolding writer_defs by (auto simp: config_paths_mem dest!: write_exact)
  have a: "exact fs ws fs' \<and> set ws \<subseteq> config_paths home" if "write_aws home s x ca fs = (Inr ws, fs')" for fs ws fs' x
    using that unfolding writer_defs io_bind_Inr
    by (auto simp: config_paths_mem dest!: write_exact intro: exact_Cons)
  obtain w1 fs1 where first: "(if ps_flavor s = ''github'' then write_github home s ca
        else if ps_flavor s = ''k8s'' then io_bind (write_kubeconfig home s ca) (\<lambda>p. io_return [p])
        else io_return []) fs = (Inr w1, fs1)"
    and snd: "(case ps_auth s of
          SigV4Auth a \<Rightarrow> io_bind (write_aws home s a ca) (\<lambda>ws'. io_return (w1 @ ws'))
        | BearerAuth _ \<Rightarrow> io_return w1) fs1 = (Inr ws, fs')"
    using assms unfolding write_service_def io_bind_Inr by blast
  have 1: "exact fs w1 fs1 \<and> set w1 \<subseteq> config_paths home"
    using first g [of fs w1 fs1] k by (auto simp: io_bind_Inr split: if_splits)
  show ?thesis
  proof (cases "ps_auth s")
    case (BearerAuth t)
    then show ?thesis using 1 snd by simp
  next
    case (SigV4Auth x)
    then obtain w2 where "write_aws home s x ca fs1 = (Inr w2, fs')" "ws = w1 @ w2"
      using snd by (auto simp: io_bind_Inr)
    then show ?thesis using 1 a [of x fs1 w2 fs'] exact_append [of fs w1 fs1 w2 fs'] by simp
  qed
qed

lemma write_services_exact:
  "write_services home ca ss fs = (Inr ws, fs') \<Longrightarrow> exact fs ws fs' \<and> set ws \<subseteq> config_paths home"
proof (induction ss arbitrary: fs ws)
  case (Cons s ss)
  then obtain w1 fs1 w2 where "write_service home ca s fs = (Inr w1, fs1)"
    "write_services home ca ss fs1 = (Inr w2, fs')" "ws = w1 @ w2" by (auto simp: io_bind_Inr)
  then show ?case using Cons.IH [of fs1 w2] write_service_exact [of home ca s fs w1 fs1] exact_append [of fs w1 fs1 w2 fs']
    by simp
qed simp

lemma write_configs_exact:
  assumes "write_configs home doc fs = (Inr ws, fs')"
  obtains fs1 where "exact fs ws fs1" "set ws \<subseteq> config_paths home" "ws \<noteq> []"
    "exact fs1 [path_join home MANIFEST] fs'" "files fs' (path_join home MANIFEST) = Some (join LF ws @ LF)"
proof -
  obtain env fs1 ca fs2 w fs3 q where
    e: "write_file (path_join home ''hackamore.env'') (render_env doc) fs = (Inr env, fs1)"
    and c: "(if pd_ca doc = [] then io_return []
              else io_bind (write_file (path_join home CA_BUNDLE) (pd_ca doc)) (\<lambda>p. io_return [p])) fs1 = (Inr ca, fs2)"
    and w: "write_services home (case ca of p # _ \<Rightarrow> Some p | [] \<Rightarrow> None) (pd_services doc) fs2 = (Inr w, fs3)"
    and m: "write_manifest home (env # ca @ w) fs3 = (Inr q, fs')" and ws: "ws = env # ca @ w"
    using assms unfolding write_configs_def Let_def io_bind_Inr by auto
  have 1: "env = path_join home ''hackamore.env''" "exact fs [env] fs1" using write_exact [OF e] by auto
  have 2: "exact fs1 ca fs2 \<and> set ca \<subseteq> config_paths home"
    using c by (auto simp: io_bind_Inr config_paths_mem dest!: write_exact split: if_splits)
  note 3 = write_services_exact [OF w]
  have "exact fs ws fs3" unfolding ws by (rule exact_Cons [OF 1(2)], rule exact_append [of _ _ fs2]) (use 2 3 in auto)
  moreover have "set ws \<subseteq> config_paths home" using 1 2 3 ws config_paths_mem(1) by auto
  ultimately show thesis
    using that [of fs3] write_exact [OF m [unfolded write_manifest_def]] ws by auto
qed

section \<open>Reading the manifest back\<close>

lemma config_files_plain:
  "list_all (\<lambda>c. c \<noteq> [] \<and> ascii c \<and> chr 10 \<notin> set c \<and> last c \<noteq> chr 13 \<and> \<not> ascii_ws (last c)) config_files"
  by code_simp

lemma config_path_line:
  assumes "ascii home" "chr 10 \<notin> set home" "p \<in> config_paths home"
  shows "chr 10 \<notin> set p" "strip_cr p = p" "trim p \<noteq> []"
proof -
  obtain c where c: "c \<in> set config_files" "p = path_join home c" using assms(3) by (auto simp: config_paths_def)
  have plain: "c \<noteq> []" "ascii c" "chr 10 \<notin> set c" "last c \<noteq> chr 13" "\<not> ascii_ws (last c)"
    using config_files_plain c(1) by (auto simp: list_all_iff)
  have slash: "chr 10 \<noteq> CHR ''/''" "ascii ''/''" by code_simp+
  obtain pre where p: "p = pre @ c" "ascii pre" "chr 10 \<notin> set pre"
  proof (cases "home = [] \<or> last home = CHR ''/''")
    case True
    then show ?thesis using that [of home] c(2) assms by (simp add: path_join_def)
  next
    case False
    then show ?thesis using that [of "home @ ''/''"] c(2) assms slash by (simp add: path_join_def)
  qed
  show "chr 10 \<notin> set p" using p plain by simp
  have last: "last p = last c" "p \<noteq> []" using p plain by auto
  show "strip_cr p = p"
  proof (cases "strip_suffix [chr 13] p")
    case (Some t)
    then have "p = t @ [chr 13]" by (auto simp: strip_suffix_def strip_prefix_Some_iff map_option_Some_iff)
    then show ?thesis using last plain by simp
  qed (simp add: strip_cr_def)
  have "last p \<in> set p" using last(2) by (rule last_in_set)
  then have d: "dropWhile ascii_ws p \<noteq> []" using last(1) plain(5) by (auto simp: dropWhile_eq_Nil_conv)
  have "hd (dropWhile ascii_ws p) \<in> set (rev (dropWhile ascii_ws p))" using d by simp
  then have "dropWhile ascii_ws (rev (dropWhile ascii_ws p)) \<noteq> []"
    using hd_dropWhile [OF d] by (metis dropWhile_eq_Nil_conv)
  then show "trim p \<noteq> []" using p plain by (simp add: trim_ascii)
qed

lemma remove_listed_ok:
  assumes "list_all (\<lambda>p. \<not> denied fs p) ps"
  shows "\<exists>rs. remove_listed ps fs = (Inr rs, fs\<lparr> files := (\<lambda>p. if p \<in> set ps then None else files fs p) \<rparr>)
    \<and> set rs = {p \<in> set ps. files fs p \<noteq> None}"
  using assms
proof (induction ps arbitrary: fs)
  case (Cons p ps)
  then have nd: "\<not> denied fs p" "list_all (\<lambda>p. \<not> denied fs p) ps" by auto
  show ?case
  proof (cases "files fs p")
    case None
    obtain rs where rs: "remove_listed ps fs = (Inr rs, fs\<lparr> files := (\<lambda>p. if p \<in> set ps then None else files fs p) \<rparr>)"
      "set rs = {p \<in> set ps. files fs p \<noteq> None}" using Cons.IH [OF nd(2)] by blast
    have "(\<lambda>q. if q \<in> set ps then None else files fs q) = (\<lambda>q. if q \<in> set (p # ps) then None else files fs q)"
      using None by auto
    with rs None nd show ?thesis by (auto simp: io_bind_def fs_remove_def io_return_def)
  next
    case (Some t)
    let ?fs = "fs\<lparr> files := (files fs)(p := None) \<rparr>"
    have "list_all (\<lambda>p. \<not> denied ?fs p) ps" using nd by simp
    from Cons.IH [OF this] obtain rs where rs: "remove_listed ps ?fs
        = (Inr rs, ?fs\<lparr> files := (\<lambda>q. if q \<in> set ps then None else files ?fs q) \<rparr>)"
      "set rs = {q \<in> set ps. files ?fs q \<noteq> None}" by blast
    have "(\<lambda>q. if q \<in> set ps then None else files ?fs q) = (\<lambda>q. if q \<in> set (p # ps) then None else files fs q)" by auto
    then have "remove_listed ps ?fs = (Inr rs, fs\<lparr> files := (\<lambda>q. if q \<in> set (p # ps) then None else files fs q) \<rparr>)"
      using rs(1) by simp
    then show ?thesis using rs(2) Some nd by (auto simp: io_bind_def fs_remove_def io_return_def)
  qed
qed (simp add: io_return_def)

section \<open>Concrete runs\<close>

definition demo_doc :: "string \<Rightarrow> provision_doc" where
  "demo_doc flavor = \<lparr> pd_token = ''t'', pd_ca = [], pd_expires_at_ms = 1, pd_services =
     [\<lparr> ps_target = ''svc'', ps_flavor = flavor, ps_address = ''http://127.0.0.1:9090'', ps_mode = Inject,
        ps_auth = BearerAuth ''t'' \<rparr>] \<rparr>"

definition empty_fs :: fs where
  "empty_fs = \<lparr> files = (\<lambda>_. None), denied = (\<lambda>_. False) \<rparr>"

lemmas run_defs = write_configs_def write_service_def write_manifest_def writer_defs io_bind_def io_return_def
  fs_read_def write_file_def demo_doc_def teardown_def path_join_def MANIFEST_def

lemma demo_setup_github:
  assumes "denied fs = (\<lambda>_. False)"
  obtains fs' where "write_configs ''/h'' (demo_doc ''github'') fs =
    (Inr [''/h/hackamore.env'', ''/h/.git-credentials'', ''/h/.gitconfig'', ''/h/.config/gh/hosts.yml''], fs')"
  using assms by (simp add: run_defs)

text \<open>
  A setup that stops at an error records nothing: the credential files it wrote before stay, and a teardown
  does not find them.
\<close>

lemma failed_setup_not_recorded:
  assumes "denied fs = (\<lambda>p. p = ''/h/.gitconfig'')" "files fs = (\<lambda>_. None)"
  shows "\<exists>fs'. write_configs ''/h'' (demo_doc ''github'') fs = (Inl IO_ERROR, fs')
    \<and> files fs' ''/h/.git-credentials'' \<noteq> None \<and> teardown ''/h'' fs' = (Inr [], fs')"
  using assms by (simp add: run_defs)

text \<open>
  A second setup replaces the manifest: what the first one wrote and the second did not is forgotten, and
  stays after the teardown.
\<close>

lemma second_setup_forgets_first:
  "\<exists>ws fs1 ws' fs2. write_configs ''/h'' (demo_doc ''k8s'') empty_fs = (Inr ws, fs1)
    \<and> write_configs ''/h'' (demo_doc ''generic'') fs1 = (Inr ws', fs2)
    \<and> ''/h/.kube/config'' \<in> set ws \<and> ''/h/.kube/config'' \<notin> set ws'
    \<and> files fs2 ''/h/.kube/config'' \<noteq> None"
  by (simp add: run_defs empty_fs_def)

section \<open>Properties\<close>

text \<open>C39. Whatever the provision document says, and whether the setup succeeds or stops at an error, only the
  manifest and eight fixed configuration files under the given home can change.\<close>

theorem setup_confined_to_home:
  "files (snd (write_configs home doc fs)) p = files fs p
   \<or> (starts_with home p \<and> p \<in> path_join home ` set (MANIFEST # config_files))"
proof -
  have "starts_with home (path_join home c)" for c by (auto simp: path_join_def starts_with_iff)
  moreover have "files (snd (write_configs home doc fs)) p = files fs p \<or> p \<in> path_join home ` set (MANIFEST # config_files)"
    using frame_write_configs [of home fs doc] by (auto simp: frame_def config_paths_def)
  ultimately show ?thesis by blast
qed

text \<open>C38. Setting up and tearing down: on a successful setup the manifest lists exactly the files written, so
  a teardown succeeds, removes precisely those files and the manifest, and leaves every other file as it
  was before the setup. A file that existed before under a written name is not restored but gone.\<close>

theorem setup_then_teardown:
  assumes "ascii home" "chr 10 \<notin> set home" "write_configs home doc fs = (Inr ws, fs')"
  shows "\<exists>removed fs''. teardown home fs' = (Inr removed, fs'') \<and> set removed = set ws
    \<and> files fs'' = (\<lambda>p. if p \<in> set ws \<or> p = path_join home MANIFEST then None else files fs p)"
proof -
  let ?m = "path_join home MANIFEST"
  obtain fs1 where e: "exact fs ws fs1" "set ws \<subseteq> config_paths home" "ws \<noteq> []" "exact fs1 [?m] fs'"
    and m: "files fs' ?m = Some (join LF ws @ LF)"
    by (rule write_configs_exact [OF assms(3)])
  have line: "list_all (\<lambda>l. chr 10 \<notin> set l \<and> strip_cr l = l) ws" "filter (\<lambda>l. trim l \<noteq> []) ws = ws"
    using e(2) config_path_line [OF assms(1,2)] by (auto simp: list_all_iff filter_id_conv)
  have listing: "filter (\<lambda>l. trim l \<noteq> []) (lines (join LF ws @ LF)) = ws"
    using lines_join [OF e(3) line(1)] line(2) by simp
  have nd: "\<not> denied fs' ?m" "list_all (\<lambda>p. \<not> denied fs' p) ws"
    using e(1,4) by (auto simp: exact_def frame_def list_all_iff)
  have there: "files fs' p \<noteq> None" if "p \<in> set ws" for p
    using exact_append [OF e(1,4)] that by (simp add: exact_def list_all_iff)
  have same: "files fs' p = files fs p" if "p \<notin> set ws" "p \<noteq> ?m" for p
  proof -
    have "files fs' p = files fs1 p" using e(4) that(2) unfolding exact_def frame_def by auto
    moreover have "files fs1 p = files fs p" using e(1) that(1) unfolding exact_def frame_def by auto
    ultimately show ?thesis by simp
  qed
  obtain rs where rs: "remove_listed ws fs' = (Inr rs, fs'\<lparr> files := (\<lambda>p. if p \<in> set ws then None else files fs' p) \<rparr>)"
    "set rs = {p \<in> set ws. files fs' p \<noteq> None}" using remove_listed_ok [OF nd(2)] by blast
  have "set rs = set ws" using rs(2) there by auto
  moreover have "teardown home fs' = (Inr rs, snd (fs_remove ?m (fs'\<lparr> files := (\<lambda>p. if p \<in> set ws then None else files fs' p) \<rparr>)))"
    using nd m listing rs(1) by (simp add: teardown_def io_bind_def fs_read_def)
  moreover have "files (snd (fs_remove ?m (fs'\<lparr> files := (\<lambda>p. if p \<in> set ws then None else files fs' p) \<rparr>)))
      = (\<lambda>p. if p \<in> set ws \<or> p = ?m then None else files fs p)"
    using nd same by (auto simp: fs_remove_def fun_eq_iff split: option.split)
  ultimately show ?thesis by blast
qed

theorem setup_then_teardown_witness:
  "\<exists>ws fs' removed fs''. write_configs ''/h'' (demo_doc ''github'') empty_fs = (Inr ws, fs')
    \<and> teardown ''/h'' fs' = (Inr removed, fs'') \<and> ''/h/.git-credentials'' \<in> set removed
    \<and> files fs'' ''/h/.git-credentials'' = None"
proof -
  have d: "denied empty_fs = (\<lambda>_. False)" by (simp add: empty_fs_def)
  obtain fs' where w: "write_configs ''/h'' (demo_doc ''github'') empty_fs =
      (Inr [''/h/hackamore.env'', ''/h/.git-credentials'', ''/h/.gitconfig'', ''/h/.config/gh/hosts.yml''], fs')"
    by (rule demo_setup_github [OF d])
  have h: "ascii ''/h''" "chr 10 \<notin> set ''/h''" by code_simp+
  from setup_then_teardown [OF h w] w show ?thesis by fastforce
qed

text \<open>Merging a credential line is idempotent, keeps every line that was there (trimmed, without blanks and
  repetitions, in order) and adds the new one.\<close>

theorem merge_lines_idempotent:
  assumes "chr 10 \<notin> set line"
  shows "merged (merged existing line) line = merged existing line
    \<and> filter (\<lambda>l. l \<noteq> []) (lines (merged existing line)) = kept_lines (lines existing @ [line])
    \<and> distinct (kept_lines (lines existing @ [line]))
    \<and> set (kept_lines (lines existing @ [line])) = trim ` (set (lines existing) \<union> {line}) - {[]}"
proof -
  let ?k = "kept_lines (lines existing @ [line])"
  have k: "distinct ?k" "list_all (\<lambda>l. trim l = l \<and> l \<noteq> []) ?k"
    by (auto simp: kept_lines_def list_all_iff)
  have s: "set ?k = trim ` (set (lines existing) \<union> {line}) - {[]}" by (auto simp: kept_lines_def)
  have f: "filter (\<lambda>l. l \<noteq> []) (lines (merged existing line)) = ?k"
    using k(2) by (auto simp: lines_merged [OF assms] list_all_iff filter_id_conv)
  have "filter (\<lambda>l. l \<noteq> []) (map trim (lines (merged existing line))) = ?k"
  proof (cases "?k = []")
    case False
    have "filter (\<lambda>l. l \<noteq> []) (map trim ls) = ls" if "list_all (\<lambda>l. trim l = l \<and> l \<noteq> []) ls" for ls
      using that by (induction ls) auto
    with False k(2) show ?thesis by (simp add: lines_merged [OF assms])
  qed (simp add: lines_merged [OF assms] trim_ascii)
  then have "kept_lines (lines (merged existing line) @ [line])
      = first_occurrences (?k @ (if trim line = [] then [] else [trim line]))"
    by (simp add: kept_lines_def)
  also have "\<dots> = ?k"
    using s k(1) by (auto simp: first_occurrences_snoc first_occurrences_id)
  finally show ?thesis using f k(1) s by (simp add: merged_eq [of "merged existing line"]) (simp add: merged_eq)
qed

theorem merge_lines_idempotent_witness:
  "merged (merged (''a'' @ LF @ ''  b '' @ LF) ''b'') ''b'' = merged (''a'' @ LF @ ''  b '' @ LF) ''b''
    \<and> merged (''a'' @ LF @ ''  b '' @ LF) ''b'' = ''a'' @ LF @ ''b'' @ LF"
proof
  have n: "chr 10 \<notin> set ''b''" by code_simp
  show "merged (merged (''a'' @ LF @ ''  b '' @ LF) ''b'') ''b'' = merged (''a'' @ LF @ ''  b '' @ LF) ''b''"
    using merge_lines_idempotent [OF n] by blast
  show "merged (''a'' @ LF @ ''  b '' @ LF) ''b'' = ''a'' @ LF @ ''b'' @ LF" by code_simp
qed

end
