(* ===== verification/TestsPolicy.thy ===== *)
theory TestsPolicy
  imports Policy
begin

text \<open>
  The unit tests of \<^verbatim>\<open>models/src/lib.rs\<close> and \<^verbatim>\<open>policy/src/lib.rs\<close>, run on the model: each test function is a
  boolean, the conjunction of its assertions, and a lemma that evaluates it in the kernel. They validate the
  definitions against what the repository itself expects of the code. The serializer that some tests
  call is not modelled, and neither are those tests.
\<close>

named_theorems passed_tests

section \<open>Wire types\<close>

definition verb_parse_shorthand_maps_crud_words_and_named_actions :: bool where
  "verb_parse_shorthand_maps_crud_words_and_named_actions \<longleftrightarrow>
     verb_parse ''read'' = verb_crud Read
     \<and> verb_parse ''DELETE'' = verb_crud Delete
     \<and> verb_parse ''ec2:DescribeInstances'' = verb_action ''ec2:DescribeInstances''"

definition verdict_helpers_build_expected_variants :: bool where
  "verdict_helpers_build_expected_variants \<longleftrightarrow>
     is_allow (verdict_allow [verdict_inject ''gh''])
     \<and> is_allow (verdict_allow [verdict_passthrough])
     \<and> \<not> is_allow (verdict_deny NotAllowed)"

lemma models_tests [passed_tests]:
  "verb_parse_shorthand_maps_crud_words_and_named_actions \<and> verdict_helpers_build_expected_variants"
  by code_simp

section \<open>Policy engine\<close>

definition empty_match :: rule_match where
  "empty_match = \<lparr> m_targets = [], m_verbs = [], m_resources = [], m_conditions = [] \<rparr>"

definition allow_rule :: "rule_match \<Rightarrow> rule" where
  "allow_rule m = \<lparr> effect = EAllow, matches = m \<rparr>"

definition deny_rule :: "rule_match \<Rightarrow> rule" where
  "deny_rule m = \<lparr> effect = EDeny, matches = m \<rparr>"

definition pr_create :: action where
  "pr_create = action_of ''github'' (verb_crud Create) (resource_of ''repos/octocat/hello/pulls'' ''pull_request'')"

definition empty_policy_denies_default :: bool where
  "empty_policy_denies_default \<longleftrightarrow> decide pr_create \<lparr> rules = [] \<rparr> = Deny NotAllowed"

definition matching_allow_rule_yields_bare_allow :: bool where
  "matching_allow_rule_yields_bare_allow \<longleftrightarrow>
     (let pol = \<lparr> rules = [allow_rule (empty_match\<lparr> m_verbs := [verb_crud Create],
            m_resources := [''repos/octocat/*/pulls''] \<rparr>)] \<rparr>
      in decide pr_create pol = Allow [])"

definition named_verb_matches_named_rule :: bool where
  "named_verb_matches_named_rule \<longleftrightarrow>
     (let describe = action_of ''aws-acct-a'' (verb_action ''ec2:DescribeInstances'') (resource_of [] ''root'');
          pol = \<lparr> rules = [allow_rule (empty_match\<lparr> m_verbs := [verb_action ''ec2:DescribeInstances''] \<rparr>)] \<rparr>;
          terminate = action_of ''aws-acct-a'' (verb_action ''ec2:TerminateInstances'') (resource_of [] ''root'')
      in is_allow (decide describe pol) \<and> \<not> is_allow (decide terminate pol))"

definition first_match_wins_deny_before_allow :: bool where
  "first_match_wins_deny_before_allow \<longleftrightarrow>
     (let pol = \<lparr> rules = [deny_rule (empty_match\<lparr> m_verbs := [verb_crud Create] \<rparr>), allow_rule empty_match] \<rparr>
      in decide pr_create pol = Deny ExplicitDeny)"

definition read_only_agent_denied_create :: bool where
  "read_only_agent_denied_create \<longleftrightarrow>
     (let pol = \<lparr> rules = [allow_rule (empty_match\<lparr> m_verbs := [verb_crud Read] \<rparr>)] \<rparr>;
          read = action_of ''github'' (verb_crud Read) (resource_of ''repos/octocat/hello'' ''repo'')
      in is_allow (decide read pol) \<and> \<not> is_allow (decide pr_create pol))"

definition condition_gates_on_field_value :: bool where
  "condition_gates_on_field_value \<longleftrightarrow>
     (let pol = \<lparr> rules = [allow_rule (empty_match\<lparr> m_verbs := [verb_crud Create],
            m_resources := [''repos/*/*/pulls''], m_conditions := [Equals ''base'' (String ''develop'')] \<rparr>)] \<rparr>;
          to_develop = with_fields (Object [(''base'', String ''develop'')]) pr_create;
          to_main = with_fields (Object [(''base'', String ''main'')]) pr_create
      in is_allow (decide to_develop pol) \<and> \<not> is_allow (decide to_main pol))"

definition one_of_and_exists_conditions :: bool where
  "one_of_and_exists_conditions \<longleftrightarrow>
     (let pol = \<lparr> rules = [allow_rule (empty_match\<lparr> m_conditions :=
            [OneOf ''base'' [String ''develop'', String ''staging''], Exists ''title''] \<rparr>)] \<rparr>;
          ok = with_fields (Object [(''base'', String ''staging''), (''title'', String ''x'')]) pr_create;
          no_title = with_fields (Object [(''base'', String ''staging'')]) pr_create;
          bad_base = with_fields (Object [(''base'', String ''main''), (''title'', String ''x'')]) pr_create
      in is_allow (decide ok pol) \<and> \<not> is_allow (decide no_title pol) \<and> \<not> is_allow (decide bad_base pol))"

definition glob_double_star_matches_remainder :: bool where
  "glob_double_star_matches_remainder \<longleftrightarrow>
     glob_matches ''repos/octocat/**'' ''repos/octocat/hello/pulls/1''
     \<and> glob_matches ''repos/*/*/pulls'' ''repos/a/b/pulls''
     \<and> \<not> glob_matches ''repos/*/*/pulls'' ''repos/a/b/issues''
     \<and> \<not> glob_matches ''repos/*/pulls'' ''repos/a/b/pulls''
     \<and> glob_matches ''repos/octocat/**'' ''repos/octocat''"

definition dotted_field_lookup :: bool where
  "dotted_field_lookup \<longleftrightarrow>
     (let fields = Object [(''head'', Object [(''ref'', String ''feature'')])]
      in lookup fields ''head.ref'' = Some (String ''feature'')
         \<and> lookup fields ''head.sha'' = None \<and> lookup fields ''missing'' = None)"

lemma policy_tests [passed_tests]:
  "empty_policy_denies_default \<and> matching_allow_rule_yields_bare_allow \<and> named_verb_matches_named_rule
   \<and> first_match_wins_deny_before_allow \<and> read_only_agent_denied_create \<and>
   condition_gates_on_field_value \<and> one_of_and_exists_conditions \<and> glob_double_star_matches_remainder \<and>
   dotted_field_lookup"
  by code_simp

end
