(* ===== verification/TestsGateway.thy ===== *)
theory TestsGateway
  imports Canonicalize Normalize Tls TestsPolicy
begin

text \<open>
  The unit tests of \<^verbatim>\<open>gateway/src/canonicalize.rs\<close>, \<^verbatim>\<open>gateway/src/service.rs\<close>, \<^verbatim>\<open>gateway/src/normalize.rs\<close> and \<^verbatim>\<open>gateway/src/tls.rs\<close>, run on
  the model. An \<^verbatim>\<open>unwrap\<close> is a comparison with the value of a successful result.
\<close>

section \<open>Canonicalization\<close>

definition decoded_is :: "string \<Rightarrow> string \<Rightarrow> bool" where
  "decoded_is raw expected \<longleftrightarrow>
     (case canonicalize raw of Some (Inr c) \<Rightarrow> cp_decoded c = expected | _ \<Rightarrow> False)"

definition resolves_dot_segments :: bool where
  "resolves_dot_segments \<longleftrightarrow>
     decoded_is ''/repos/octocat/../evil'' ''/repos/evil'' \<and> decoded_is ''/repos/./octocat'' ''/repos/octocat''"

definition collapses_empty_and_trailing_slashes :: bool where
  "collapses_empty_and_trailing_slashes \<longleftrightarrow>
     decoded_is ''/repos//octocat'' ''/repos/octocat'' \<and> decoded_is ''/repos/octocat/'' ''/repos/octocat''
     \<and> decoded_is ''/'' ''/'' \<and> decoded_is [] ''/''"

definition decodes_percent_escapes_so_they_cannot_disguise_a_segment :: bool where
  "decodes_percent_escapes_so_they_cannot_disguise_a_segment \<longleftrightarrow>
     decoded_is ''/repos/octocat/%2e%2e/evil'' ''/repos/evil'' \<and> decoded_is ''/repos/%65vil'' ''/repos/evil''"

definition root_escape_is_rejected :: bool where
  "root_escape_is_rejected \<longleftrightarrow>
     canonicalize ''/..'' = Some (Inl Escape) \<and> canonicalize ''/repos/../../etc'' = Some (Inl Escape)"

definition encoded_slash_decodes_for_matching_but_re_encodes_for_the_wire :: bool where
  "encoded_slash_decodes_for_matching_but_re_encodes_for_the_wire \<longleftrightarrow>
     canonicalize ''/repos/a%2Fb'' = Some (Inr \<lparr> cp_decoded = ''/repos/a/b'', cp_encoded = ''/repos/a%2Fb'' \<rparr>)"

definition plain_paths_are_unchanged :: bool where
  "plain_paths_are_unchanged \<longleftrightarrow>
     canonicalize ''/api/v1/namespaces/dev/pods'' = Some (Inr
       \<lparr> cp_decoded = ''/api/v1/namespaces/dev/pods'', cp_encoded = ''/api/v1/namespaces/dev/pods'' \<rparr>)"

lemma canonicalize_tests [passed_tests]:
  "resolves_dot_segments \<and> collapses_empty_and_trailing_slashes \<and>
   decodes_percent_escapes_so_they_cannot_disguise_a_segment \<and> root_escape_is_rejected \<and>
   encoded_slash_decodes_for_matching_but_re_encodes_for_the_wire \<and> plain_paths_are_unchanged"
  by code_simp

section \<open>Routing and catalogs\<close>

definition test_svc :: "string \<Rightarrow> string \<Rightarrow> service" where
  "test_svc nm host = service_new nm host (''https://'' @ nm @ ''.example'')"

definition routed_name :: "service list \<Rightarrow> string \<Rightarrow> string option" where
  "routed_name r host = map_option s_name (route r host)"

definition routes_by_exact_host_and_strips_port :: bool where
  "routes_by_exact_host_and_strips_port \<longleftrightarrow>
     (let r = [test_svc ''github'' ''api.github.com''] in
      routed_name r ''api.github.com'' = Some ''github''
      \<and> routed_name r ''api.github.com:443'' = Some ''github''
      \<and> routed_name r ''api.openai.com'' = None)"

definition wildcard_suffix_and_catch_all :: bool where
  "wildcard_suffix_and_catch_all \<longleftrightarrow>
     (let r = [test_svc ''oai'' ''*.openai.com'', test_svc ''any'' ''*''] in
      routed_name r ''api.openai.com'' = Some ''oai''
      \<and> routed_name r ''openai.com'' = Some ''oai''
      \<and> routed_name r ''example.org'' = Some ''any'')"

definition first_match_wins :: bool where
  "first_match_wins \<longleftrightarrow>
     routed_name [test_svc ''specific'' ''api.github.com'', test_svc ''catch'' ''*''] ''api.github.com'' = Some ''specific''"

text \<open>The members of an object are in the order of its keys.\<close>

definition openapi_ingester_collects_operation_ids_with_fallback :: bool where
  "openapi_ingester_collects_operation_ids_with_fallback \<longleftrightarrow>
     (let spec = Object [(''openapi'', String ''3.0.0''),
            (''paths'', Object
              [(''/pets'', Object [(''get'', Object [(''operationId'', String ''listPets'')]),
                                   (''post'', Object [(''operationId'', String ''createPet'')])]),
               (''/pets/{id}'', Object [(''get'', Object [])])])];
          c = from_openapi spec
      in \<not> catalog_is_empty c \<and> catalog_knows c ''listPets'' \<and> catalog_knows c ''createPet''
         \<and> catalog_knows c ''GET /pets/{id}'' \<and> \<not> catalog_knows c ''deletePet''
         \<and> catalog_is_empty (from_openapi (Object [])))"

definition flavor_parse_defaults_generic :: bool where
  "flavor_parse_defaults_generic \<longleftrightarrow>
     flavor_parse (Some ''github'') = Github \<and> flavor_parse (Some ''GitHub'') = Github
     \<and> flavor_parse (Some ''rest'') = Generic \<and> flavor_parse None = Generic"

lemma service_tests [passed_tests]:
  "routes_by_exact_host_and_strips_port \<and> wildcard_suffix_and_catch_all \<and> first_match_wins \<and>
   openapi_ingester_collects_operation_ids_with_fallback \<and> flavor_parse_defaults_generic"
  by code_simp

section \<open>Normalization\<close>

text \<open>
  The JSON parser is a parameter; in the tests it is the function that knows the texts they contain and
  rejects every other.
\<close>

definition json_env :: "(string \<times> json) list \<Rightarrow> header_list env" where
  "json_env texts = list_env\<lparr> json_from_slice := map_of texts \<rparr>"

definition flavored :: "string \<Rightarrow> flavor \<Rightarrow> service" where
  "flavored nm f = with_flavor f (service_new nm ''*'' ''https://upstream.example'')"

definition test_req :: "string \<Rightarrow> string \<Rightarrow> string \<Rightarrow> string \<Rightarrow> header_list proxy_request" where
  "test_req meth path query body =
     \<lparr> q_method = meth, q_path = path, q_query = query, q_headers = headers_new list_env, q_body = body \<rparr>"

definition test_norm :: "(string \<times> json) list \<Rightarrow> service \<Rightarrow> header_list proxy_request \<Rightarrow> action option" where
  "test_norm texts s r =
     (case canonicalize (q_path r) of
        Some (Inr c) \<Rightarrow> normalize (json_env texts) s r (cp_decoded c)
      | _ \<Rightarrow> None)"

definition github_flavor_parses_pull_request :: bool where
  "github_flavor_parses_pull_request \<longleftrightarrow>
     (let body = Object [(''base'', String ''main''), (''title'', String ''x'')] in
      test_norm [(''{\"base\":\"main\",\"title\":\"x\"}'', body)] (flavored ''github'' Github)
        (test_req ''POST'' ''/repos/octocat/hello/pulls'' [] ''{\"base\":\"main\",\"title\":\"x\"}'')
      = Some \<lparr> a_target = ''github'', a_verb = verb_crud Create,
          a_resource = \<lparr> r_path = ''repos/octocat/hello/pulls'', r_kind = ''pull_request'' \<rparr>, a_fields = body \<rparr>)"

definition generic_flavor_uses_first_segment_kind :: bool where
  "generic_flavor_uses_first_segment_kind \<longleftrightarrow>
     (let body = Object [(''model'', String ''gpt'')] in
      test_norm [(''{\"model\":\"gpt\"}'', body)] (flavored ''openai'' Generic) (test_req ''POST'' ''/v1/chat/completions'' [] ''{\"model\":\"gpt\"}'')
      = Some \<lparr> a_target = ''openai'', a_verb = verb_crud Create,
          a_resource = \<lparr> r_path = ''v1/chat/completions'', r_kind = ''v1'' \<rparr>, a_fields = body \<rparr>)"

definition verbs_map_from_methods :: bool where
  "verbs_map_from_methods \<longleftrightarrow>
     verb_for ''DELETE'' = verb_crud Delete \<and> verb_for ''PATCH'' = verb_crud Update
     \<and> verb_for ''HEAD'' = verb_crud Read"

definition body_overrides_query_fields :: bool where
  "body_overrides_query_fields \<longleftrightarrow>
     map_option a_fields (test_norm [(''{\"base\":\"develop\"}'', Object [(''base'', String ''develop'')])] (flavored ''svc'' Generic)
       (test_req ''POST'' ''/x'' ''base=main'' ''{\"base\":\"develop\"}'')) = Some (Object [(''base'', String ''develop'')])"

definition non_json_body_is_ignored_for_fields :: bool where
  "non_json_body_is_ignored_for_fields \<longleftrightarrow>
     map_option a_fields (test_norm [] (flavored ''svc'' Generic) (test_req ''POST'' ''/x'' [] ''not json'')) = Some (Object [])"

definition with_protocol :: "protocol \<Rightarrow> service \<Rightarrow> service" where
  "with_protocol p s = s\<lparr> s_extract := (s_extract s)\<lparr> x_protocol := p \<rparr> \<rparr>"

definition aws_query_protocol_sets_named_verb_and_form_fields :: bool where
  "aws_query_protocol_sets_named_verb_and_form_fields \<longleftrightarrow>
     (case test_norm [] (with_protocol AwsQuery (flavored ''aws'' Generic))
         (test_req ''POST'' ''/'' [] ''Action=DescribeInstances&InstanceId=i-123'') of
        Some a \<Rightarrow> a_verb a = verb_action ''DescribeInstances''
          \<and> a_fields a = Object [(''Action'', String ''DescribeInstances''), (''InstanceId'', String ''i-123'')]
      | None \<Rightarrow> False)"

definition aws_query_missing_action_fails_closed :: bool where
  "aws_query_missing_action_fails_closed \<longleftrightarrow>
     map_option a_verb (test_norm [] (with_protocol AwsQuery (flavored ''aws'' Generic))
       (test_req ''POST'' ''/'' [] ''Version=2016-11-15'')) = Some (verb_action ''__unparsed__'')"

definition aws_json_protocol_reads_target_header :: bool where
  "aws_json_protocol_reads_target_header \<longleftrightarrow>
     (let r = test_req ''POST'' ''/'' [] ''{\"TableName\":\"dev\"}'';
          r = r\<lparr> q_headers := headers_insert list_env (q_headers r) ''x-amz-target'' ''DynamoDB_20120810.PutItem'' \<rparr>
      in case test_norm [(''{\"TableName\":\"dev\"}'', Object [(''TableName'', String ''dev'')])] (with_protocol AwsJson (flavored ''ddb'' Generic)) r of
          Some a \<Rightarrow> a_verb a = verb_action ''PutItem'' \<and> a_fields a = Object [(''TableName'', String ''dev'')]
        | None \<Rightarrow> False)"

definition path_template_captures_named_segments :: bool where
  "path_template_captures_named_segments \<longleftrightarrow>
     (let s = flavored ''s3'' Generic;
          s = s\<lparr> s_extract := (s_extract s)\<lparr> x_path_template := Some ''/{bucket}/{key+}'' \<rparr> \<rparr>
      in case test_norm [] s (test_req ''PUT'' ''/my-data/reports/q1.csv'' [] []) of
          Some a \<Rightarrow> value_get (a_fields a) ''bucket'' = Some (String ''my-data'')
            \<and> value_get (a_fields a) ''key'' = Some (String ''reports/q1.csv'')
        | None \<Rightarrow> False)"

lemma normalize_tests [passed_tests]:
  "github_flavor_parses_pull_request \<and> generic_flavor_uses_first_segment_kind \<and> verbs_map_from_methods
   \<and> body_overrides_query_fields \<and> non_json_body_is_ignored_for_fields \<and>
   aws_query_protocol_sets_named_verb_and_form_fields \<and> aws_query_missing_action_fails_closed \<and>
   aws_json_protocol_reads_target_header \<and> path_template_captures_named_segments"
  by code_simp

section \<open>TLS material\<close>

text \<open>The base64 decoder is a parameter: the test needs of it that it rejects an exclamation mark.\<close>

definition strict_base64 :: "bytes \<Rightarrow> string + bytes" where
  "strict_base64 text = (if CHR ''!'' \<in> set text then Inl ''invalid symbol'' else Inr text)"

definition rejects_empty_and_malformed_material :: bool where
  "rejects_empty_and_malformed_material \<longleftrightarrow>
     (case server_config strict_base64 Inr (\<lambda>certs key. Inr (certs, key)) \<lparr> cert_pem = [], key_pem = ''key'', ca_pem = [] \<rparr> of
        Inl _ \<Rightarrow> True | Inr _ \<Rightarrow> False)
     \<and> (case pem_blocks strict_base64 ''CERTIFICATE'' (''-----BEGIN CERTIFICATE-----'' @ [chr 10] @ ''notb64!!'') of
          Inl _ \<Rightarrow> True | Inr _ \<Rightarrow> False)"

lemma tls_test [passed_tests]: "rejects_empty_and_malformed_material"
  by code_simp

end
