(* ===== verification/TestsSigning.thy ===== *)
theory TestsSigning
  imports SigV4 Upgrade TestsPolicy
begin

text \<open>
  The unit tests of \<^verbatim>\<open>gateway/src/sigv4.rs\<close> and \<^verbatim>\<open>gateway/src/upgrade.rs\<close>, run on the model. The two tests that
  compare with values AWS publishes use an instance of the digests that tabulates SHA-256 and
  HMAC-SHA-256 for exactly the messages of the published computation: a model that composed any other
  message would find no entry. The other tests run with the checksum of \<open>list_env\<close>.
\<close>

section \<open>Encodings and dates\<close>

definition test_headers :: "(string \<times> string) list \<Rightarrow> header_list" where
  "test_headers pairs = fold (\<lambda>(k, v) h. headers_insert list_env h k v) pairs (headers_new list_env)"

definition datetime_round_trips_known_epoch :: bool where
  "datetime_round_trips_known_epoch \<longleftrightarrow>
     (let (amz, date) = format_amz_datetime 1329264000000 in
      amz = ''20120215T000000Z'' \<and> date = ''20120215'' \<and> parse_amz_datetime amz = Some 1329264000000
      \<and> parse_amz_datetime ''nope'' = None \<and> parse_amz_datetime ''20120215T000000X'' = None)"

definition uri_and_query_canonicalization :: bool where
  "uri_and_query_canonicalization \<longleftrightarrow>
     uri_encode ''/foo bar/x'' False = ''/foo%20bar/x'' \<and> uri_encode ''a/b'' True = ''a%2Fb''
     \<and> canonical_query ''b=2&a=hello world'' = Some ''a=hello%20world&b=2''
     \<and> canonical_query ''k=a%2Bb'' = Some ''k=a%2Bb''"

definition header_value_whitespace_is_collapsed :: bool where
  "header_value_whitespace_is_collapsed \<longleftrightarrow> trim_header_value ''  a   b  '' = ''a b''"

definition parses_authorization_with_signed_headers :: bool where
  "parses_authorization_with_signed_headers \<longleftrightarrow>
     parse_authorization (''AWS4-HMAC-SHA256 Credential=AKIDEXAMPLE/20231114/us-east-1/ec2/aws4_request, ''
       @ ''SignedHeaders=host;x-amz-content-sha256;x-amz-date, Signature=abcd1234'')
     = Some \<lparr> p_access_key_id = ''AKIDEXAMPLE'', p_datestamp = ''20231114'', p_region = ''us-east-1'', p_service = ''ec2'',
         p_signed_headers = [''host'', ''x-amz-content-sha256'', ''x-amz-date''], p_signature = ''abcd1234'' \<rparr>
     \<and> parse_authorization ''AWS4-HMAC-SHA256 Credential=A/d/r/s/aws4_request, Signature=x'' = None
     \<and> parse_authorization ''Bearer xyz'' = None"

lemma encoding_tests [passed_tests]:
  "datetime_round_trips_known_epoch \<and> uri_and_query_canonicalization \<and> header_value_whitespace_is_collapsed
   \<and> parses_authorization_with_signed_headers"
  by code_simp

section \<open>Published vectors\<close>

text \<open>A chain of MACs: each message is authenticated under the MAC of the one before it.\<close>

fun mac_chain :: "bytes \<Rightarrow> (bytes \<times> bytes) list \<Rightarrow> ((bytes \<times> bytes) \<times> bytes) list" where
  "mac_chain key [] = []"
| "mac_chain key ((m, mac) # ms) = ((key, m), mac) # mac_chain mac ms"

definition tabulated :: "((bytes \<times> bytes) \<times> bytes) list \<Rightarrow> (bytes \<times> bytes) list \<Rightarrow> header_list env" where
  "tabulated macs digests = list_env
     \<lparr> hmac_sha256 := (\<lambda>k m. case map_of macs (k, m) of Some h \<Rightarrow> h | None \<Rightarrow> []),
       sha256 := (\<lambda>m. case map_of digests m of Some h \<Rightarrow> h | None \<Rightarrow> []) \<rparr>"

definition example_secret :: string where
  "example_secret = ''wJalrXUtnFEMI/K7MDENG+bPxRfiCYEXAMPLEKEY''"

definition documented_macs :: "((bytes \<times> bytes) \<times> bytes) list" where
  "documented_macs = mac_chain (''AWS4'' @ example_secret)
     [(''20120215'', [CHR 0x96, CHR 0x9F, CHR 0xBB, CHR 0x94, CHR 0xFE, CHR 0xB5, CHR 0x42, CHR 0xB7, CHR 0x1E, CHR 0xDE, CHR 0x6F, CHR 0x87,
          CHR 0xFE, CHR 0x4D, CHR 0x5F, CHR 0xA2, CHR 0x9C, CHR 0x78, CHR 0x93, CHR 0x42, CHR 0xB0, CHR 0xF4, CHR 0x07, CHR 0x47,
          CHR 0x46, CHR 0x70, CHR 0xF0, CHR 0xC2, CHR 0x48, CHR 0x9E, CHR 0x0A, CHR 0x0D]),
      (''us-east-1'', [CHR 0x69, CHR 0xDA, CHR 0xA0, CHR 0x20, CHR 0x9C, CHR 0xD9, CHR 0xC5, CHR 0xFF, CHR 0x5C, CHR 0x8C, CHR 0xED, CHR 0x46,
          CHR 0x4A, CHR 0x69, CHR 0x6F, CHR 0xD4, CHR 0x25, CHR 0x2E, CHR 0x98, CHR 0x14, CHR 0x30, CHR 0xB1, CHR 0x0E, CHR 0x3D,
          CHR 0x3F, CHR 0xD8, CHR 0xE2, CHR 0xF1, CHR 0x97, CHR 0xD7, CHR 0xA7, CHR 0x0C]),
      (''iam'', [CHR 0xF7, CHR 0x2C, CHR 0xFD, CHR 0x46, CHR 0xF2, CHR 0x6B, CHR 0xC4, CHR 0x64, CHR 0x3F, CHR 0x06, CHR 0xA1, CHR 0x1E,
          CHR 0xAB, CHR 0xB6, CHR 0xC0, CHR 0xBA, CHR 0x18, CHR 0x78, CHR 0x0C, CHR 0x19, CHR 0xA8, CHR 0xDA, CHR 0x0C, CHR 0x31,
          CHR 0xAC, CHR 0xE6, CHR 0x71, CHR 0x26, CHR 0x5E, CHR 0x3C, CHR 0x87, CHR 0xFA]),
      (''aws4_request'', [CHR 0xF4, CHR 0x78, CHR 0x0E, CHR 0x2D, CHR 0x9F, CHR 0x65, CHR 0xFA, CHR 0x89, CHR 0x5F, CHR 0x9C, CHR 0x67, CHR 0xB3,
          CHR 0x2C, CHR 0xE1, CHR 0xBA, CHR 0xF0, CHR 0xB0, CHR 0xD8, CHR 0xA4, CHR 0x35, CHR 0x05, CHR 0xA0, CHR 0x00, CHR 0xA1,
          CHR 0xA9, CHR 0xE0, CHR 0x90, CHR 0xD4, CHR 0x14, CHR 0xDB, CHR 0x40, CHR 0x4D])]"

definition signing_key_matches_aws_documented_vector :: bool where
  "signing_key_matches_aws_documented_vector \<longleftrightarrow>
     to_hex (derive_signing_key (tabulated documented_macs []) example_secret ''20120215'' ''us-east-1'' ''iam'')
     = ''f4780e2d9f65fa895f9c67b32ce1baf0b0d8a43505a000a1a9e090d414db404d''"

text \<open>The digests of the empty body and of the published canonical request.\<close>

definition vanilla_digests :: "(bytes \<times> bytes) list" where
  "vanilla_digests =
     [([], [CHR 0xE3, CHR 0xB0, CHR 0xC4, CHR 0x42, CHR 0x98, CHR 0xFC, CHR 0x1C, CHR 0x14, CHR 0x9A, CHR 0xFB, CHR 0xF4, CHR 0xC8,
          CHR 0x99, CHR 0x6F, CHR 0xB9, CHR 0x24, CHR 0x27, CHR 0xAE, CHR 0x41, CHR 0xE4, CHR 0x64, CHR 0x9B, CHR 0x93, CHR 0x4C,
          CHR 0xA4, CHR 0x95, CHR 0x99, CHR 0x1B, CHR 0x78, CHR 0x52, CHR 0xB8, CHR 0x55]),
      (''GET'' @ nl @ ''/'' @ nl @ nl @ ''host:example.amazonaws.com'' @ nl @ ''x-amz-date:20150830T123600Z'' @ nl @ nl
       @ ''host;x-amz-date'' @ nl @ ''e3b0c44298fc1c149afbf4c8996fb92427ae41e4649b934ca495991b7852b855'',
       [CHR 0xBB, CHR 0x57, CHR 0x97, CHR 0x72, CHR 0x31, CHR 0x7E, CHR 0xB0, CHR 0x40, CHR 0xAC, CHR 0x9E, CHR 0xD2, CHR 0x61,
          CHR 0x06, CHR 0x1D, CHR 0x46, CHR 0xC1, CHR 0xF1, CHR 0x7A, CHR 0x81, CHR 0x33, CHR 0x87, CHR 0x9D, CHR 0x61, CHR 0x29,
          CHR 0xB6, CHR 0xE1, CHR 0xC2, CHR 0x52, CHR 0x92, CHR 0x92, CHR 0x7E, CHR 0x63])]"

definition vanilla_macs :: "((bytes \<times> bytes) \<times> bytes) list" where
  "vanilla_macs = mac_chain (''AWS4'' @ example_secret)
     [(''20150830'', [CHR 0x01, CHR 0x38, CHR 0xC7, CHR 0xA6, CHR 0xCB, CHR 0xD6, CHR 0x0A, CHR 0xA7, CHR 0x27, CHR 0xB2, CHR 0xF6, CHR 0x53,
          CHR 0xA5, CHR 0x22, CHR 0x56, CHR 0x74, CHR 0x39, CHR 0xDF, CHR 0xB9, CHR 0xF3, CHR 0xE7, CHR 0x2B, CHR 0x21, CHR 0xF9,
          CHR 0xB2, CHR 0x59, CHR 0x41, CHR 0xA4, CHR 0x2F, CHR 0x04, CHR 0xA7, CHR 0xCD]),
      (''us-east-1'', [CHR 0xF3, CHR 0x3D, CHR 0x58, CHR 0x08, CHR 0x50, CHR 0x4B, CHR 0xF3, CHR 0x48, CHR 0x12, CHR 0xE5, CHR 0xFA, CHR 0xDE,
          CHR 0x63, CHR 0x30, CHR 0x8B, CHR 0x42, CHR 0x4B, CHR 0x24, CHR 0x4C, CHR 0x59, CHR 0x18, CHR 0x9B, CHR 0xE2, CHR 0xA5,
          CHR 0x91, CHR 0xDD, CHR 0x22, CHR 0x82, CHR 0xC7, CHR 0xCB, CHR 0x56, CHR 0x3F]),
      (''service'', [CHR 0xF7, CHR 0xFD, CHR 0x81, CHR 0x93, CHR 0x48, CHR 0xE5, CHR 0x37, CHR 0x89, CHR 0xA8, CHR 0x47, CHR 0x4F, CHR 0xB1,
          CHR 0xAE, CHR 0xBE, CHR 0xA7, CHR 0x78, CHR 0xF5, CHR 0xAF, CHR 0x85, CHR 0xC4, CHR 0x06, CHR 0x12, CHR 0xE0, CHR 0xF0,
          CHR 0x64, CHR 0xEE, CHR 0xCD, CHR 0x56, CHR 0x42, CHR 0xC8, CHR 0x1B, CHR 0xC1]),
      (''aws4_request'', [CHR 0x93, CHR 0x81, CHR 0x27, CHR 0xB5, CHR 0x33, CHR 0x68, CHR 0x10, CHR 0xDD, CHR 0xB6, CHR 0xA5, CHR 0xD6, CHR 0xAF,
          CHR 0x44, CHR 0x5F, CHR 0xCA, CHR 0xC9, CHR 0xE3, CHR 0x71, CHR 0xF9, CHR 0xED, CHR 0x41, CHR 0x8E, CHR 0xD3, CHR 0x86,
          CHR 0xB0, CHR 0x22, CHR 0xAE, CHR 0xD8, CHR 0x29, CHR 0x01, CHR 0xBE, CHR 0x75]),
      (''AWS4-HMAC-SHA256'' @ nl @ ''20150830T123600Z'' @ nl @ ''20150830/us-east-1/service/aws4_request'' @ nl
       @ ''bb579772317eb040ac9ed261061d46c1f17a8133879d6129b6e1c25292927e63'',
       [CHR 0x5F, CHR 0xA0, CHR 0x0F, CHR 0xA3, CHR 0x15, CHR 0x53, CHR 0xB7, CHR 0x3E, CHR 0xBF, CHR 0x19, CHR 0x42, CHR 0x67,
          CHR 0x6E, CHR 0x86, CHR 0x29, CHR 0x1E, CHR 0x83, CHR 0x72, CHR 0xFF, CHR 0x2A, CHR 0x22, CHR 0x60, CHR 0x95, CHR 0x6D,
          CHR 0x9B, CHR 0x8A, CHR 0xAE, CHR 0x1D, CHR 0x76, CHR 0x3F, CHR 0xBF, CHR 0x31])]"

definition matches_aws_sig_v4_test_suite_get_vanilla :: bool where
  "matches_aws_sig_v4_test_suite_get_vanilla \<longleftrightarrow>
     (let p = \<lparr> p_access_key_id = ''AKIDEXAMPLE'', p_datestamp = ''20150830'', p_region = ''us-east-1'', p_service = ''service'',
            p_signed_headers = [''host'', ''x-amz-date''],
            p_signature = ''5fa00fa31553b73ebf1942676e86291e8372ff2a2260956d9b8aae1d763fbf31'' \<rparr>;
          h = test_headers [(''host'', ''example.amazonaws.com''), (''x-amz-date'', ''20150830T123600Z'')]
      in case parse_amz_datetime ''20150830T123600Z'' of
          Some now \<Rightarrow> verify (tabulated vanilla_macs vanilla_digests) example_secret p ''GET'' ''/'' [] h [] now = Some (Inr ())
        | None \<Rightarrow> False)"

lemma vector_tests [passed_tests]:
  "signing_key_matches_aws_documented_vector \<and> matches_aws_sig_v4_test_suite_get_vanilla"
  by code_simp

section \<open>Signing and verifying\<close>

text \<open>An instance whose digests are cheap to evaluate: a MAC keeps the last byte of its message and of its key.\<close>

definition short_env :: "header_list env" where
  "short_env = list_env\<lparr> hmac_sha256 := (\<lambda>k m. [last (CHR ''.'' # m), last (CHR ''.'' # k)]), sha256 := take 2 \<rparr>"

definition tamper_creds :: creds where
  "tamper_creds = \<lparr> cr_access_key_id = ''AKIDEXAMPLE'', cr_secret_access_key = ''secret-key'' \<rparr>"

fun tamper_verify :: "header_list \<Rightarrow> string \<Rightarrow> u64 \<Rightarrow> parsed option \<Rightarrow> bool" where
  "tamper_verify h body now (Some p) \<longleftrightarrow>
     verify short_env ''secret-key'' p ''POST'' ''/'' [] h body now = Some (Inr ())
     \<and> verify short_env ''WRONG'' p ''POST'' ''/'' [] h body now = Some (Inl Mismatch)
     \<and> verify short_env ''secret-key'' p ''POST'' ''/'' [] h body (now + MAX_SKEW_MS + 1) = Some (Inl Stale)"
| "tamper_verify h body now None = False"

fun tamper_signed :: "string \<Rightarrow> u64 \<Rightarrow> signed option \<Rightarrow> bool" where
  "tamper_signed body now (Some sg) = tamper_verify
     (test_headers [(''host'', ''ec2.us-east-1.amazonaws.com''), (''x-amz-date'', sg_amz_date sg),
        (''x-amz-content-sha256'', sg_content_sha256 sg), (''authorization'', sg_authorization sg)])
     body now (parse_authorization (sg_authorization sg))"
| "tamper_signed body now None = False"

definition sign_then_verify_round_trips_and_detects_tampering :: bool where
  "sign_then_verify_round_trips_and_detects_tampering \<longleftrightarrow>
     tamper_signed ''Action=DescribeInstances&Version=2016-11-15'' 1700000000000
       (sign short_env tamper_creds ''us-east-1'' ''ec2'' ''POST'' ''ec2.us-east-1.amazonaws.com'' ''/'' []
          ''Action=DescribeInstances&Version=2016-11-15'' 1700000000000)"

fun larger_verify :: "string \<Rightarrow> parsed option \<Rightarrow> bool" where
  "larger_verify amz_date (Some p) \<longleftrightarrow>
     verify short_env ''sk'' p ''GET'' ''/'' [] (test_headers [(''x-amz-date'', amz_date), (''x-custom'', ''Value'')]) []
       1700000000000 = Some (Inr ())
     \<and> verify short_env ''sk'' p ''GET'' ''/'' [] (test_headers [(''x-amz-date'', amz_date)]) [] 1700000000000
       = Some (Inl (MissingSignedHeader ''x-custom''))"
| "larger_verify amz_date None = False"

fun larger_sign :: "string \<Rightarrow> string \<Rightarrow> string option \<Rightarrow> bool" where
  "larger_sign amz_date datestamp (Some canonical) = larger_verify amz_date (parse_authorization
     (''AWS4-HMAC-SHA256 Credential=AKID/'' @ datestamp @ ''/us-east-1/ec2/aws4_request, SignedHeaders=''
      @ ''x-amz-date;x-custom'' @ '', Signature=''
      @ signature_for short_env ''sk'' ''us-east-1'' ''ec2'' amz_date datestamp canonical))"
| "larger_sign amz_date datestamp None = False"

fun larger_dates :: "string \<times> string \<Rightarrow> bool" where
  "larger_dates (amz_date, datestamp) = larger_sign amz_date datestamp
     (canonical_request ''GET'' ''/'' [] [(''x-amz-date'', amz_date), (''x-custom'', ''Value'')] ''x-amz-date;x-custom''
        (sha256_hex short_env []) True)"

definition verify_honors_larger_signed_header_set :: bool where
  "verify_honors_larger_signed_header_set \<longleftrightarrow> larger_dates (format_amz_datetime 1700000000000)"

lemma signing_tests [passed_tests]:
  "sign_then_verify_round_trips_and_detects_tampering \<and> verify_honors_larger_signed_header_set"
  by code_simp

section \<open>Upgrades\<close>

definition detects_upgrade_requests :: bool where
  "detects_upgrade_requests \<longleftrightarrow>
     is_upgrade list_env (test_headers [(''connection'', ''Upgrade''), (''upgrade'', ''websocket'')])
     \<and> is_upgrade list_env (test_headers [(''connection'', ''keep-alive, Upgrade''), (''upgrade'', ''websocket'')])
     \<and> \<not> is_upgrade list_env (test_headers [(''upgrade'', ''websocket'')])
     \<and> \<not> is_upgrade list_env (test_headers [(''connection'', ''upgrade'')])
     \<and> \<not> is_upgrade list_env (test_headers [(''connection'', ''keep-alive'')])"

definition carry_upgrade_headers_copies_hop_by_hop_set :: bool where
  "carry_upgrade_headers_copies_hop_by_hop_set \<longleftrightarrow>
     (let original = test_headers [(''connection'', ''Upgrade''), (''upgrade'', ''websocket''),
            (''sec-websocket-key'', ''abc''), (''x-other'', ''ignored'')];
          plan = carry_upgrade_headers list_env original (test_headers [(''authorization'', ''Bearer real'')])
      in headers_get list_env plan ''upgrade'' = Some ''websocket''
         \<and> headers_get list_env plan ''connection'' = Some ''Upgrade''
         \<and> headers_get list_env plan ''sec-websocket-key'' = Some ''abc''
         \<and> headers_get list_env plan ''authorization'' = Some ''Bearer real''
         \<and> headers_get list_env plan ''x-other'' = None)"

definition parses_upstream_targets :: bool where
  "parses_upstream_targets \<longleftrightarrow>
     (case (target_parse ''https://api.k8s.example/api/v1/x?watch=1'', target_parse ''http://127.0.0.1:8080/exec'') of
        (Some t, Some t') \<Rightarrow>
          ut_tls t \<and> ut_host t = ''api.k8s.example'' \<and> ut_port t = 443
          \<and> ut_path_and_query t = ''/api/v1/x?watch=1'' \<and> target_authority t = ''api.k8s.example''
          \<and> \<not> ut_tls t' \<and> ut_port t' = 8080 \<and> target_authority t' = ''127.0.0.1:8080''
      | _ \<Rightarrow> False)
     \<and> target_parse ''ftp://nope'' = None"

lemma upgrade_tests [passed_tests]:
  "detects_upgrade_requests \<and> carry_upgrade_headers_copies_hop_by_hop_set \<and> parses_upstream_targets"
  by code_simp

end
