(* ===== verification/TestsControl.thy ===== *)
theory TestsControl
  imports Providers TestsSigning
begin

text \<open>
  The unit tests of \<^verbatim>\<open>control/src\<close>, run on the model. The random draws and the header map are those of
  \<open>list_env\<close>. A JSON line is a text that the test's codec knows; base64 is the identity, and the
  RSA library a function that returns 256 bytes, so the tests of the providers check everything around
  them. The key file of the GitHub test is replaced by a short block.
\<close>

section \<open>Tokens\<close>

definition empty_policy :: policy where
  "empty_policy = \<lparr> rules = [] \<rparr>"

definition mint_then_resolve_within_ttl :: bool where
  "mint_then_resolve_within_ttl \<longleftrightarrow>
     (let (minted, ts) = tokens_mint list_env empty_policy 60 1000 (tokens_new 0) in
      resolve ts (mr_token minted) 1000 \<noteq> None \<and> resolve ts (mr_token minted) 60999 \<noteq> None)"

definition token_expires :: bool where
  "token_expires \<longleftrightarrow>
     (let (minted, ts) = tokens_mint list_env empty_policy 60 1000 (tokens_new 0) in
      resolve ts (mr_token minted) 61000 = None)"

definition unknown_token_resolves_none :: bool where
  "unknown_token_resolves_none \<longleftrightarrow> resolve (tokens_new 0) ''bogus'' 1 = None"

definition sigv4_mint_resolves_by_access_key_id :: bool where
  "sigv4_mint_resolves_by_access_key_id \<longleftrightarrow>
     (let (m, ts) = mint_sigv4 list_env empty_policy 60 1000 (tokens_new 0);
          (bearer, ts') = tokens_mint list_env empty_policy 60 1000 ts
      in starts_with ''AKIAHACKAMORE'' (sm_access_key_id m)
         \<and> map_option snd (resolve_sigv4 ts (sm_access_key_id m) 1000) = Some (sm_secret_access_key m)
         \<and> resolve_sigv4 ts (sm_access_key_id m) 61000 = None
         \<and> resolve_sigv4 ts ''AKIAUNKNOWN'' 1000 = None
         \<and> resolve_sigv4 ts' (mr_token bearer) 1000 = None)"

definition revoke_invalidates :: bool where
  "revoke_invalidates \<longleftrightarrow>
     (let (minted, ts) = tokens_mint list_env empty_policy 60 0 (tokens_new 0);
          (first, ts') = revoke (mr_token minted) ts;
          (again, ts'') = revoke (mr_token minted) ts'
      in first \<and> resolve ts' (mr_token minted) 1 = None \<and> \<not> again)"

text \<open>A test that goes through several states passes each state to the function of the next stage.\<close>

fun sweep_twice :: "mint_response \<Rightarrow> mint_response \<Rightarrow> sigv4_mint \<Rightarrow> nat \<times> tokens \<Rightarrow> bool" where
  "sweep_twice short long dummy (n, ts) \<longleftrightarrow>
     n = 2 \<and> tokens_len ts = 1
     \<and> resolve ts (mr_token short) 61000 = None
     \<and> resolve_sigv4 ts (sm_access_key_id dummy) 61000 = None
     \<and> resolve ts (mr_token long) 61000 \<noteq> None
     \<and> fst (sweep 61000 ts) = 0"

fun sweep_three :: "mint_response \<Rightarrow> mint_response \<Rightarrow> sigv4_mint \<times> tokens \<Rightarrow> bool" where
  "sweep_three short long (dummy, ts) \<longleftrightarrow> tokens_len ts = 3 \<and> sweep_twice short long dummy (sweep 61000 ts)"

fun mint_dummy :: "mint_response \<Rightarrow> mint_response \<times> tokens \<Rightarrow> bool" where
  "mint_dummy short (long, ts) = sweep_three short long (mint_sigv4 list_env empty_policy 60 1000 ts)"

fun mint_long :: "mint_response \<times> tokens \<Rightarrow> bool" where
  "mint_long (short, ts) = mint_dummy short (tokens_mint list_env empty_policy 3600 1000 ts)"

definition sweep_evicts_only_expired_entries :: bool where
  "sweep_evicts_only_expired_entries \<longleftrightarrow> mint_long (tokens_mint list_env empty_policy 60 1000 (tokens_new 0))"

lemma tokens_tests [passed_tests]:
  "mint_then_resolve_within_ttl \<and> token_expires \<and> unknown_token_resolves_none \<and>
   sigv4_mint_resolves_by_access_key_id \<and> revoke_invalidates \<and> sweep_evicts_only_expired_entries"
  by code_simp

section \<open>Tenants and credentials\<close>

definition empty_until_seeded_then_resolves_owned :: bool where
  "empty_until_seeded_then_resolves_owned \<longleftrightarrow>
     (let t = tenants_insert ''tenant-a'' [''github'', ''eks-prod''] tenants_new in
      tenants_is_empty tenants_new \<and> \<not> tenants_is_empty t
      \<and> (case tenants_owned t ''tenant-a'' of
           Some owned \<Rightarrow> ''github'' \<in> owned \<and> ''aws-acct-b'' \<notin> owned | None \<Rightarrow> False)
      \<and> tenants_owned t ''nobody'' = None)"

definition secret_debug_is_redacted :: bool where
  "secret_debug_is_redacted \<longleftrightarrow>
     (let s = secret_new ''ghp_supersecret'' in secret_debug s = ''Secret(***)'' \<and> expose s = ''ghp_supersecret'')"

definition store_resolves_known_and_misses_unknown :: bool where
  "store_resolves_known_and_misses_unknown \<longleftrightarrow>
     (let store = in_memory_insert ''github-app'' (secret_new ''token-123'') in_memory_new in
      map_option expose (in_memory_resolve store ''github-app'') = Some ''token-123''
      \<and> in_memory_resolve store ''nope'' = None)"

definition with_defaults_wires_components :: bool where
  "with_defaults_wires_components \<longleftrightarrow>
     (case cp_credentials (with_defaults 0) of
        InMemoryStore creds \<Rightarrow>
          store_resolve (InMemoryStore (in_memory_insert ''github-app'' (secret_new ''tok'') creds)) ''github-app'' \<noteq> None
      | CachingStore _ \<Rightarrow> False)"

lemma credential_tests [passed_tests]:
  "with_defaults_wires_components \<and> empty_until_seeded_then_resolves_owned \<and> secret_debug_is_redacted \<and>
   store_resolves_known_and_misses_unknown"
  by code_simp

section \<open>Audit\<close>

definition test_event :: "u64 \<Rightarrow> decision \<Rightarrow> string \<Rightarrow> audit_event" where
  "test_event t verd detail = \<lparr> at_ms = t,
     e_action = action_of ''github'' (verb_crud Read) (resource_of ''repos/o/r'' ''repo''),
     e_decision = verd, e_detail = detail \<rparr>"

text \<open>A codec that knows three events.\<close>

definition event_lines :: "(string \<times> audit_event) list" where
  "event_lines = [(''{1}'', test_event 1 DecAllow ''allowed''), (''{2}'', test_event 2 DecDeny ''denied''),
     (''{3}'', test_event 3 DecAllow ''again'')]"

definition event_line :: "audit_event \<Rightarrow> string option" where
  "event_line ev = map_option fst (List.find (\<lambda>(_, e). at_ms e = at_ms ev) event_lines)"

definition file_audit_appends_jsonl_and_reads_back :: bool where
  "file_audit_appends_jsonl_and_reads_back \<longleftrightarrow>
     (let file = audit_open None;
          file = file_record event_line True (test_event 1 DecAllow ''allowed'') file;
          file = file_record event_line True (test_event 2 DecDeny ''denied'') file;
          file = audit_open (Some file);
          file = file_record event_line True (test_event 3 DecAllow ''again'') file
      in case file_read (map_of event_lines) file of
          Some [e1, e2, e3] \<Rightarrow> e_decision e1 = DecAllow \<and> e_decision e2 = DecDeny \<and> at_ms e3 = 3
        | _ \<Rightarrow> False)"

definition in_memory_audit_collects_in_order :: bool where
  "in_memory_audit_collects_in_order \<longleftrightarrow>
     (let sink = in_memory_record (test_event 1 DecDeny []) (in_memory_record (test_event 0 DecAllow []) in_memory_audit_new)
      in map e_decision (events_of sink) = [DecAllow, DecDeny])"

lemma audit_tests [passed_tests]:
  "file_audit_appends_jsonl_and_reads_back \<and> in_memory_audit_collects_in_order"
  by code_simp

section \<open>Providers\<close>

definition contains :: "string \<Rightarrow> string \<Rightarrow> bool" where
  "contains s p \<longleftrightarrow> find_sub p s \<noteq> None"

definition plain_provider_env :: "unit provider_env" where
  "plain_provider_env = \<lparr> b64_url_no_pad = (\<lambda>bs. bs), b64_standard_decode = Inr, rsa_from_pkcs8 = (\<lambda>_. Inr ()),
     rsa_sign = (\<lambda>_ _. Inr (replicate 256 (CHR ''S''))) \<rparr>"

definition test_eks :: eks_provider where
  "test_eks = \<lparr> eks_access_key_id = ''AKIDTEST'', eks_secret_access_key = secret_new example_secret,
     eks_region = ''us-east-1'', eks_cluster_name = ''prod-cluster'' \<rparr>"

fun eks_url_shape :: "string option \<Rightarrow> bool" where
  "eks_url_shape None = False"
| "eks_url_shape (Some url) \<longleftrightarrow>
     starts_with ''https://sts.us-east-1.amazonaws.com/?'' url
     \<and> contains url ''Action=GetCallerIdentity'' \<and> contains url ''X-Amz-Credential=AKIDTEST%2F''
     \<and> contains url ''X-Amz-Expires=900'' \<and> contains url ''X-Amz-SignedHeaders=host%3Bx-k8s-aws-id''
     \<and> contains url ''X-Amz-Signature='' \<and> \<not> contains url ''prod-cluster''"

fun eks_tokens_differ :: "string \<Rightarrow> string \<Rightarrow> bool" where
  "eks_tokens_differ token later \<longleftrightarrow> eks_url_shape (strip_prefix ''k8s-aws-v1.'' token) \<and> token \<noteq> later"

definition eks_token_has_expected_shape_and_is_deterministic :: bool where
  "eks_token_has_expected_shape_and_is_deterministic \<longleftrightarrow>
     eks_tokens_differ (eks_token short_env plain_provider_env test_eks 1700000000000)
       (eks_token short_env plain_provider_env test_eks (1700000000000 + 86400000))"

fun jwt_parts_ok :: "string list \<Rightarrow> bool" where
  "jwt_parts_ok [header, claims, sig] \<longleftrightarrow>
     contains header ''RS256''
     \<and> contains claims (quote @ ''iss'' @ quote @ '':'' @ quote @ ''123456'' @ quote)
     \<and> contains claims (quote @ ''iat'' @ quote @ '':1699999940'')
     \<and> contains claims (quote @ ''exp'' @ quote @ '':1700000540'')
     \<and> length sig = 256"
| "jwt_parts_ok _ = False"

fun jwt_ok :: "string + string \<Rightarrow> bool" where
  "jwt_ok (Inr jwt) = jwt_parts_ok (split_on (CHR ''.'') jwt)"
| "jwt_ok (Inl _) = False"

fun jwt_for_key :: "string + bytes \<Rightarrow> bool" where
  "jwt_for_key (Inr der) = jwt_ok (app_jwt plain_provider_env \<lparr> gh_app_id = ''123456'', gh_installation_id = ''789'',
     gh_private_key_pkcs8_der = der, gh_api_base = ''https://api.github.com'' \<rparr> 1700000000000)"
| "jwt_for_key (Inl _) = False"

definition github_app_jwt_is_well_formed_and_signs :: bool where
  "github_app_jwt_is_well_formed_and_signs \<longleftrightarrow>
     jwt_for_key (pkcs8_from_pem plain_provider_env (BEGIN_MARK @ ''MIIE'' @ END_MARK))"

definition stub_provider :: "u64 \<Rightarrow> provider" where
  "stub_provider ttl_ms = \<lparr> prov_mint = (\<lambda>now_ms. Inr \<lparr> ms_secret = secret_new (''minted@'' @ dec (unat now_ms)),
       ms_expires_at_ms = now_ms + ttl_ms \<rparr>), prov_refresh_skew_ms = 1000 \<rparr>"

definition caching_store_fails_closed_then_serves_and_rotates :: bool where
  "caching_store_fails_closed_then_serves_and_rotates \<longleftrightarrow>
     (let store = caching_new [(''ghs'', secret_new ''static-secret'')] [(''eks'', stub_provider 10000)];
          (ids1, store1) = refresh_due 1000 store;
          (ids2, store2) = refresh_due 2000 store1;
          (ids3, store3) = refresh_due 10500 store2
      in caching_resolve store ''ghs'' = Some ''static-secret'' \<and> caching_resolve store ''eks'' = None
         \<and> ids1 = [''eks''] \<and> caching_resolve store1 ''eks'' = Some ''minted@1000''
         \<and> ids2 = [] \<and> caching_resolve store2 ''eks'' = Some ''minted@1000''
         \<and> ids3 = [''eks''] \<and> caching_resolve store3 ''eks'' = Some ''minted@10500'')"

definition pkcs8_from_pem_rejects_other_text :: bool where
  "pkcs8_from_pem_rejects_other_text \<longleftrightarrow>
     (case pkcs8_from_pem plain_provider_env ''not a key'' of Inl _ \<Rightarrow> True | Inr _ \<Rightarrow> False)"

lemma provider_tests [passed_tests]:
  "eks_token_has_expected_shape_and_is_deterministic \<and> github_app_jwt_is_well_formed_and_signs \<and>
   caching_store_fails_closed_then_serves_and_rotates \<and> pkcs8_from_pem_rejects_other_text"
  by code_simp

end
