(* ===== verification/TestsCore.thy ===== *)
theory TestsCore
  imports TestsControl
begin

text \<open>
  The unit tests of \<^verbatim>\<open>gateway/src/core.rs\<close>, run on the model with the instance \<open>short_env\<close>. A test that mints and then
  uses the token passes the result of the mint to the function of its next stage; the fixed clock of a
  test is the clock reading that its operations are given.
\<close>

section \<open>Fixtures\<close>

definition control_with :: "in_memory \<Rightarrow> control" where
  "control_with creds = control_new 0 (InMemoryStore creds) in_memory_audit_new"

definition test_credentials :: in_memory where
  "test_credentials = in_memory_insert ''github-app'' (secret_new ''real-secret-token'') in_memory_new"

definition test_control :: control where
  "test_control = control_with test_credentials"

definition router_inject :: "service list" where
  "router_inject = [with_outbound (Bearer ''github-app'') (with_flavor Github
     (service_new ''github'' ''*'' ''https://api.github.com''))]"

definition router_passthrough :: "service list" where
  "router_passthrough = [service_new ''svc'' ''*'' ''https://up.example'']"

definition router_header :: "service list" where
  "router_header = [with_outbound (Header ''X-API-Key'' ''keyed-key'') (service_new ''keyed'' ''*'' ''https://api.keyed.com'')]"

definition allow_all :: policy where
  "allow_all = \<lparr> rules = [allow_rule empty_match] \<rparr>"

definition read_only :: policy where
  "read_only = \<lparr> rules = [allow_rule (empty_match\<lparr> m_verbs := [verb_crud Read] \<rparr>)] \<rparr>"

definition bearer_headers :: "string \<Rightarrow> header_list" where
  "bearer_headers token = headers_insert short_env (headers_new short_env) ''authorization'' (''Bearer '' @ token)"

definition own_cred_headers :: "string \<Rightarrow> string \<Rightarrow> header_list" where
  "own_cred_headers token own_cred =
     headers_insert short_env (headers_insert short_env (headers_new short_env) HACKAMORE_TOKEN_HEADER token)
       ''authorization'' own_cred"

definition get_request :: "header_list \<Rightarrow> string \<Rightarrow> header_list proxy_request" where
  "get_request headers path =
     \<lparr> q_method = ''GET'', q_path = path, q_query = [], q_headers = headers, q_body = [] \<rparr>"

definition header_of :: "header_list forward_plan \<Rightarrow> string \<Rightarrow> string option" where
  "header_of plan nm = Option.bind (headers_get short_env (fp_headers plan) nm) (value_to_str short_env)"

text \<open>Handling the request that a token makes, on the gateway that minted it.\<close>

fun handle_minted ::
  "(string \<Rightarrow> header_list proxy_request) \<Rightarrow> u64 \<Rightarrow> mint_response \<times> gateway \<Rightarrow> string \<times> (header_list outcome \<times> gateway) option" where
  "handle_minted mk now (minted, g) = (mr_token minted, handle short_env (mk (mr_token minted)) now g)"

definition run_test ::
  "service list \<Rightarrow> policy \<Rightarrow> (string \<Rightarrow> header_list proxy_request) \<Rightarrow> string \<times> (header_list outcome \<times> gateway) option" where
  "run_test services pol mk =
     handle_minted mk 1000 (gateway_mint short_env pol 60 1000 (gateway_new test_control services))"

fun rejected_with :: "nat \<Rightarrow> deny_reason \<Rightarrow> (header_list outcome \<times> gateway) option \<Rightarrow> bool" where
  "rejected_with status reason (Some (Reject r, g)) \<longleftrightarrow> rj_status r = status \<and> rj_reason r = reason"
| "rejected_with status reason _ = False"

section \<open>Authentication and injection\<close>

definition missing_token_is_unauthorized :: bool where
  "missing_token_is_unauthorized \<longleftrightarrow>
     rejected_with 401 Unauthenticated
       (handle short_env (get_request (headers_new short_env) ''/repos/o/r'') 0 (gateway_new test_control router_inject))"

definition unknown_token_is_unauthorized :: bool where
  "unknown_token_is_unauthorized \<longleftrightarrow>
     rejected_with 401 Unauthenticated
       (handle short_env (get_request (bearer_headers ''not-a-real-token'') ''/repos/o/r'') 0
          (gateway_new test_control router_inject))"

fun injects_credential :: "string \<times> (header_list outcome \<times> gateway) option \<Rightarrow> bool" where
  "injects_credential (token, Some (Forward plan, g)) \<longleftrightarrow>
     fp_url plan = ''https://api.github.com/repos/octocat/hello''
     \<and> header_of plan ''authorization'' = Some ''Bearer real-secret-token''
     \<and> \<not> contains ''Bearer real-secret-token'' token
     \<and> map e_decision (events_of (cp_audit (g_control g))) = [DecAllow]"
| "injects_credential _ = False"

definition allowed_request_injects_targets_credential :: bool where
  "allowed_request_injects_targets_credential \<longleftrightarrow>
     injects_credential (run_test router_inject allow_all
       (\<lambda>token. get_request (bearer_headers token) ''/repos/octocat/hello''))"

fun forwards_with :: "(string \<times> string option) list \<Rightarrow> string \<times> (header_list outcome \<times> gateway) option \<Rightarrow> bool" where
  "forwards_with expected (token, Some (Forward plan, g)) \<longleftrightarrow>
     list_all (\<lambda>(nm, v). header_of plan nm = v) expected"
| "forwards_with expected _ = False"

definition passthrough_with_token_in_authorization_forwards_no_credential :: bool where
  "passthrough_with_token_in_authorization_forwards_no_credential \<longleftrightarrow>
     forwards_with [(''authorization'', None)] (run_test router_passthrough allow_all
       (\<lambda>token. get_request (bearer_headers token) ''/x''))"

definition passthrough_preserves_consumers_own_credential :: bool where
  "passthrough_preserves_consumers_own_credential \<longleftrightarrow>
     forwards_with [(''authorization'', Some ''Bearer consumer-own-key''), (HACKAMORE_TOKEN_HEADER, None)]
       (run_test router_passthrough allow_all
         (\<lambda>token. get_request (own_cred_headers token ''Bearer consumer-own-key'') ''/x''))"

definition inject_overrides_consumers_own_credential :: bool where
  "inject_overrides_consumers_own_credential \<longleftrightarrow>
     forwards_with [(''authorization'', Some ''Bearer real-secret-token'')] (run_test router_inject allow_all
       (\<lambda>token. get_request (own_cred_headers token ''Bearer consumer-own-key'') ''/repos/o/r''))"

definition header_mechanism_injects_custom_header :: bool where
  "header_mechanism_injects_custom_header \<longleftrightarrow>
     forwards_with [(''x-api-key'', Some ''sk-keyed''), (''authorization'', None)]
       (handle_minted (\<lambda>token. get_request (bearer_headers token) ''/v1/x'') 1000
         (gateway_mint short_env allow_all 60 1000 (gateway_new
           (control_with (in_memory_insert ''keyed-key'' (secret_new ''sk-keyed'') test_credentials)) router_header)))"

definition expired_token_is_unauthorized :: bool where
  "expired_token_is_unauthorized \<longleftrightarrow>
     rejected_with 401 Unauthenticated
       (snd (handle_minted (\<lambda>token. get_request (bearer_headers token) ''/repos/o/r'') 61000
         (gateway_mint short_env allow_all 60 1000 (gateway_new test_control router_inject))))"

fun denied_and_audited :: "string \<times> (header_list outcome \<times> gateway) option \<Rightarrow> bool" where
  "denied_and_audited (token, Some (Reject r, g)) \<longleftrightarrow>
     rj_status r = 403 \<and> rj_reason r = NotAllowed
     \<and> (case events_of (cp_audit (g_control g)) of e # _ \<Rightarrow> e_decision e = DecDeny | [] \<Rightarrow> False)"
| "denied_and_audited _ = False"

definition denied_request_is_forbidden_and_audited :: bool where
  "denied_request_is_forbidden_and_audited \<longleftrightarrow>
     denied_and_audited (run_test router_inject read_only (\<lambda>token. \<lparr> q_method = ''DELETE'', q_path = ''/repos/o/r'',
       q_query = [], q_headers = bearer_headers token, q_body = [] \<rparr>))"

lemma authentication_tests [passed_tests]:
  "missing_token_is_unauthorized \<and> unknown_token_is_unauthorized \<and>
   allowed_request_injects_targets_credential \<and> passthrough_with_token_in_authorization_forwards_no_credential
   \<and> passthrough_preserves_consumers_own_credential \<and> inject_overrides_consumers_own_credential \<and>
   header_mechanism_injects_custom_header \<and> expired_token_is_unauthorized \<and>
   denied_request_is_forbidden_and_audited"
  by code_simp

definition extract_auth_prefers_hackamore_header_then_authorization :: bool where
  "extract_auth_prefers_hackamore_header_then_authorization \<longleftrightarrow>
     (let h1 = headers_insert list_env (headers_new list_env) ''authorization'' ''token abc'';
          h2 = headers_insert list_env h1 ''authorization'' ''Bearer xyz'';
          h3 = headers_insert list_env h2 HACKAMORE_TOKEN_HEADER ''tok-123''
      in extract_auth list_env h1 = Some (''abc'', AuthorizationSource)
         \<and> extract_auth list_env h2 = Some (''xyz'', AuthorizationSource)
         \<and> extract_auth list_env h3 = Some (''tok-123'', HackamoreHeader))"

lemma extract_auth_test [passed_tests]: "extract_auth_prefers_hackamore_header_then_authorization"
  by code_simp

section \<open>SigV4\<close>

definition aws_outbound :: "string \<Rightarrow> outbound" where
  "aws_outbound akid = OutSigV4 ''aws-secret'' akid ''us-east-1'' ''ec2''"

fun signs_outbound :: "string \<times> (header_list outcome \<times> gateway) option \<Rightarrow> bool" where
  "signs_outbound (token, Some (Forward plan, g)) \<longleftrightarrow>
     (case header_of plan ''authorization'' of
        None \<Rightarrow> False
      | Some auth \<Rightarrow>
          starts_with ''AWS4-HMAC-SHA256 Credential=AKID/'' auth \<and> contains auth ''/us-east-1/ec2/aws4_request''
          \<and> contains auth ''Signature='' \<and> \<not> contains auth ''secret-key'')
     \<and> header_of plan ''x-amz-date'' \<noteq> None \<and> header_of plan ''x-amz-content-sha256'' \<noteq> None"
| "signs_outbound _ = False"

definition sigv4_mechanism_signs_outbound_request :: bool where
  "sigv4_mechanism_signs_outbound_request \<longleftrightarrow>
     signs_outbound (handle_minted (\<lambda>token. get_request (bearer_headers token) ''/'') 1700000000000
       (gateway_mint short_env allow_all 60 1700000000000 (gateway_new
         (control_with (in_memory_insert ''aws-secret'' (secret_new ''secret-key'') test_credentials))
         [with_outbound (aws_outbound ''AKID'') (service_new ''ec2'' ''*'' ''https://ec2.us-east-1.amazonaws.com'')])))"

text \<open>A request signed the way the AWS command line signs it.\<close>

fun with_signature :: "string \<Rightarrow> bytes \<Rightarrow> signed option \<Rightarrow> header_list proxy_request option" where
  "with_signature host body (Some sg) = Some
     \<lparr> q_method = ''POST'', q_path = ''/'', q_query = [],
       q_headers = test_headers [(''host'', host), (''authorization'', sg_authorization sg), (''x-amz-date'', sg_amz_date sg),
         (''x-amz-content-sha256'', sg_content_sha256 sg)],
       q_body = body \<rparr>"
| "with_signature host body None = None"

definition signed_aws_request :: "string \<Rightarrow> string \<Rightarrow> string \<Rightarrow> bytes \<Rightarrow> u64 \<Rightarrow> header_list proxy_request option" where
  "signed_aws_request akid secret host body now =
     with_signature host body (sign short_env \<lparr> cr_access_key_id = akid, cr_secret_access_key = secret \<rparr>
       ''us-east-1'' ''ec2'' ''POST'' host ''/'' [] body now)"

definition aws_router :: "service list" where
  "aws_router = [with_extract \<lparr> x_protocol = AwsQuery, x_path_template = None \<rparr> (with_outbound (aws_outbound ''REALAKID'')
     (service_new ''ec2'' ''ec2.amazonaws.com'' ''https://ec2.us-east-1.amazonaws.com''))]"

definition aws_gateway_with :: "tokens \<Rightarrow> gateway" where
  "aws_gateway_with ts = gateway_new ((control_with (in_memory_insert ''aws-secret'' (secret_new ''real-secret'')
     test_credentials))\<lparr> cp_tokens := ts \<rparr>) aws_router"

fun handle_signed :: "tokens \<Rightarrow> header_list proxy_request option \<Rightarrow> (header_list outcome \<times> gateway) option" where
  "handle_signed ts (Some r) = handle short_env r 1700000000000 (aws_gateway_with ts)"
| "handle_signed ts None = None"

text \<open>The dummy, and the answer to the request signed with it or with the given secret.\<close>

fun sign_with_dummy :: "string option \<Rightarrow> sigv4_mint \<times> tokens \<Rightarrow> sigv4_mint \<times> (header_list outcome \<times> gateway) option" where
  "sign_with_dummy secret (dummy, ts) = (dummy, handle_signed ts (signed_aws_request (sm_access_key_id dummy)
     (case secret of Some s \<Rightarrow> s | None \<Rightarrow> sm_secret_access_key dummy) ''ec2.amazonaws.com''
     ''Action=DescribeInstances&Version=2016-11-15'' 1700000000000))"

fun resigned :: "sigv4_mint \<times> (header_list outcome \<times> gateway) option \<Rightarrow> bool" where
  "resigned (dummy, Some (Forward plan, g)) \<longleftrightarrow>
     (case header_of plan ''authorization'' of
        None \<Rightarrow> False
      | Some auth \<Rightarrow> contains auth ''Credential=REALAKID/'' \<and> \<not> contains auth (sm_access_key_id dummy)
          \<and> \<not> contains auth ''real-secret'')"
| "resigned _ = False"

definition sigv4_inbound_authenticates_then_resigns_with_real_credential :: bool where
  "sigv4_inbound_authenticates_then_resigns_with_real_credential \<longleftrightarrow>
     resigned (sign_with_dummy None (mint_sigv4 short_env allow_all 60 1700000000000 (tokens_new 0)))"

definition sigv4_inbound_bad_signature_is_unauthorized :: bool where
  "sigv4_inbound_bad_signature_is_unauthorized \<longleftrightarrow>
     rejected_with 401 Unauthenticated
       (snd (sign_with_dummy (Some ''WRONG-SECRET'') (mint_sigv4 short_env allow_all 60 1700000000000 (tokens_new 0))))"

lemma inbound_tests [passed_tests]:
  "sigv4_mechanism_signs_outbound_request \<and> sigv4_inbound_authenticates_then_resigns_with_real_credential \<and>
   sigv4_inbound_bad_signature_is_unauthorized"
  by code_simp

section \<open>Minting and provisioning\<close>

definition two_services :: "service list" where
  "two_services =
     [with_address ''https://gh.hackamore.local'' (with_outbound (Bearer ''github-app'') (with_flavor Github
        (service_new ''github'' ''api.github.com'' ''https://api.github.com''))),
      service_new ''openai'' ''api.openai.com'' ''https://api.openai.com'']"

definition target_policy :: "string \<Rightarrow> policy" where
  "target_policy target = \<lparr> rules = [allow_rule (empty_match\<lparr> m_targets := [target] \<rparr>)] \<rparr>"

fun accepted :: "(mint_error + mint_response) \<times> gateway \<Rightarrow> bool" where
  "accepted (Inr _, _) = True"
| "accepted (Inl _, _) = False"

fun provision_minted :: "mint_response \<times> gateway \<Rightarrow> mint_response \<times> provision_doc option \<times> gateway" where
  "provision_minted (minted, g) = (minted, provision short_env (mr_token minted) 1000 g)"

fun lists_github :: "mint_response \<times> provision_doc option \<times> gateway \<Rightarrow> bool" where
  "lists_github (minted, Some doc, g) \<longleftrightarrow>
     pd_token doc = mr_token minted
     \<and> (case pd_services doc of
          [s] \<Rightarrow> ps_target s = ''github'' \<and> ps_flavor s = ''github''
            \<and> ps_address s = ''https://gh.hackamore.local'' \<and> ps_mode s = Inject
        | _ \<Rightarrow> False)
     \<and> fst (provision short_env ''bogus'' 1000 g) = None"
| "lists_github _ = False"

definition provision_lists_only_granted_services :: bool where
  "provision_lists_only_granted_services \<longleftrightarrow>
     lists_github (provision_minted (gateway_mint short_env (target_policy ''github'') 60 1000
       (gateway_new test_control two_services)))"

fun lists_both :: "mint_response \<times> provision_doc option \<times> gateway \<Rightarrow> bool" where
  "lists_both (minted, Some doc, g) \<longleftrightarrow>
     length (pd_services doc) = 2
     \<and> map_option ps_mode (List.find (\<lambda>s. ps_target s = ''openai'') (pd_services doc)) = Some PassthroughMode"
| "lists_both _ = False"

definition provision_empty_targets_lists_all_services :: bool where
  "provision_empty_targets_lists_all_services \<longleftrightarrow>
     lists_both (provision_minted (gateway_mint short_env allow_all 60 1000 (gateway_new test_control two_services)))"

definition named_policy :: "string list \<Rightarrow> string \<Rightarrow> policy" where
  "named_policy targets named =
     \<lparr> rules = [allow_rule (empty_match\<lparr> m_targets := targets, m_verbs := [verb_action named] \<rparr>)] \<rparr>"

definition catalog_validates_named_actions_at_mint :: bool where
  "catalog_validates_named_actions_at_mint \<longleftrightarrow>
     (let g = with_catalogs [(''github'', catalog_of [''repo:read'', ''repo:write''])] (gateway_new test_control two_services)
      in accepted (mint_checked short_env (named_policy [''github''] ''repo:read'') 60 None 1000 g)
         \<and> \<not> accepted (mint_checked short_env (named_policy [''github''] ''repo:delete-universe'') 60 None 1000 g)
         \<and> accepted (mint_checked short_env (named_policy [''openai''] ''anything:goes'') 60 None 1000 g))"

definition catalog_validates_empty_target_named_actions :: bool where
  "catalog_validates_empty_target_named_actions \<longleftrightarrow>
     (let g = with_catalogs [(''github'', catalog_of [''repo:read''])] (gateway_new test_control two_services)
      in accepted (mint_checked short_env (named_policy [] ''repo:read'') 60 None 1000 g)
         \<and> \<not> accepted (mint_checked short_env (named_policy [] ''repo:typo'') 60 None 1000 g))"

definition mint_is_open_when_no_tenants_configured :: bool where
  "mint_is_open_when_no_tenants_configured \<longleftrightarrow>
     accepted (mint_checked short_env allow_all 60 None 1000 (gateway_new test_control router_inject))"

definition tenant_may_only_mint_owned_targets :: bool where
  "tenant_may_only_mint_owned_targets \<longleftrightarrow>
     (let g = gateway_new (test_control\<lparr> cp_tenants := tenants_insert ''t-a'' [''github''] tenants_new \<rparr>) two_services
      in \<not> accepted (mint_checked short_env (target_policy ''github'') 60 None 1000 g)
         \<and> accepted (mint_checked short_env (target_policy ''github'') 60 (Some ''t-a'') 1000 g)
         \<and> \<not> accepted (mint_checked short_env (target_policy ''openai'') 60 (Some ''t-a'') 1000 g)
         \<and> \<not> accepted (mint_checked short_env allow_all 60 (Some ''t-a'') 1000 g)
         \<and> \<not> accepted (mint_checked short_env (target_policy ''github'') 60 (Some ''ghost'') 1000 g))"

lemma minting_tests [passed_tests]:
  "provision_lists_only_granted_services \<and> provision_empty_targets_lists_all_services \<and>
   catalog_validates_named_actions_at_mint \<and> catalog_validates_empty_target_named_actions \<and>
   mint_is_open_when_no_tenants_configured \<and> tenant_may_only_mint_owned_targets"
  by code_simp

end
