(* ===== verification/TestsEndToEnd.thy ===== *)
theory TestsEndToEnd
  imports TestsCore TestsAgent Server
begin

text \<open>
  The integration tests of \<^verbatim>\<open>tests/tests/\<close> (\<^verbatim>\<open>e2e.rs\<close>, \<^verbatim>\<open>use_cases.rs\<close>, \<^verbatim>\<open>transports.rs\<close>) with their harness of
  \<^verbatim>\<open>tests/src/lib.rs\<close>, run on the model: a server, the upstream that records what reaches it and a sandbox with the
  agent. A test is a script of calls; each call is a request to one of the two listeners, and the script
  is played against the routers of the model. What a client library adds to a request (a \<^verbatim>\<open>host\<close> header) is written out; it
  sends a path as it is written. All calls happen within one millisecond.
\<close>

section \<open>The harness\<close>

record received =
  rv_method :: string
  rv_path :: string
  rv_authorization :: "string option"
  rv_body :: bytes

definition PROXY_HOST :: string where
  "PROXY_HOST = ''127.0.0.1:9090''"

definition UPSTREAM :: string where
  "UPSTREAM = ''http://127.0.0.1:4000''"

definition test_now :: u64 where
  "test_now = 1700000000000"

text \<open>What the mock upstream records of a plan that is sent to it, and how it answers.\<close>

definition received_of :: "header_list forward_plan \<Rightarrow> received" where
  "received_of plan = \<lparr> rv_method = fp_method plan,
     rv_path = (case split_on (CHR ''?'') (drop (length UPSTREAM) (fp_url plan)) of p # _ \<Rightarrow> p | [] \<Rightarrow> []),
     rv_authorization = header_of plan ''authorization'', rv_body = fp_body plan \<rparr>"

definition record_handler :: "header_list forward_plan \<Rightarrow> string + nat \<times> header_list \<times> bytes" where
  "record_handler plan =
     (if contains (rv_path (received_of plan)) ''stream'' then
        Inr (200, test_headers [(''content-type'', ''text/event-stream'')],
          ''data: one'' @ LF @ LF @ ''data: two'' @ LF @ LF @ ''data: three'' @ LF @ LF)
      else Inr (200, test_headers [(''content-type'', ''application/json'')], ''{}''))"

text \<open>The upstream takes an upgrade.\<close>

definition switch_handler :: "header_list forward_plan \<Rightarrow> header_list relay" where
  "switch_handler plan = Switched 101 (test_headers [(''upgrade'', ''websocket''), (''connection'', ''Upgrade'')])"

text \<open>The server, what the upstream has received, the last token minted and the last document fetched, and the sandbox.\<close>

datatype harness = Harness gateway "received list" string "provision_doc option" fs

definition start_hackamore_services :: "service list \<Rightarrow> harness" where
  "start_hackamore_services services = Harness
     (gateway_new (control_new 0 (InMemoryStore in_memory_new) in_memory_audit_new) services) [] [] None fresh_fs"

fun add_credential :: "string \<Rightarrow> string \<Rightarrow> harness \<Rightarrow> harness" where
  "add_credential ident s (Harness g rs token doc fs) = Harness (g\<lparr> g_control := (g_control g)\<lparr> cp_credentials :=
     (case cp_credentials (g_control g) of
        InMemoryStore v \<Rightarrow> InMemoryStore (in_memory_insert ident (secret_new s) v)
      | CachingStore c \<Rightarrow> CachingStore c) \<rparr> \<rparr>) rs token doc fs"

fun add_tenant :: "string \<Rightarrow> string list \<Rightarrow> harness \<Rightarrow> harness" where
  "add_tenant key targets (Harness g rs token doc fs) = Harness (g\<lparr> g_control := (g_control g)\<lparr> cp_tenants :=
     tenants_insert key targets (cp_tenants (g_control g)) \<rparr> \<rparr>) rs token doc fs"

definition start_hackamore :: harness where
  "start_hackamore = start_hackamore_services
     [with_outbound (Bearer ''github-app'') (with_flavor Github (service_new ''github'' ''*'' UPSTREAM))]"

section \<open>Clients\<close>

datatype credentials = NoToken | AsBearer | AsTokenHeader | OtherToken string

fun auth_headers :: "credentials \<Rightarrow> string \<Rightarrow> (string \<times> string) list" where
  "auth_headers NoToken token = []"
| "auth_headers AsBearer token = [(''authorization'', ''Bearer '' @ token)]"
| "auth_headers AsTokenHeader token = [(''x-hackamore-token'', token)]"
| "auth_headers (OtherToken t) token = [(''x-hackamore-token'', t)]"

datatype call =
    MintCall policy "string option"
  | RevokeCall "string option"
  | ProxyCall string string credentials bytes
  | UpgradeCall string
  | AdminGet string
  | ProvisionAgent
  | SignedCall bytes

definition request_of :: "string \<Rightarrow> string \<Rightarrow> (string \<times> string) list \<Rightarrow> bytes \<Rightarrow> header_list http_request" where
  "request_of meth path hs body = \<lparr> rq_method = meth, rq_path = path, rq_query = None,
     rq_headers = test_headers ((''host'', PROXY_HOST) # hs), rq_body = Some body, rq_on_upgrade = True \<rparr>"

text \<open>The answer of a listener becomes the answer of the call; a plan goes to the upstream first.\<close>

fun proxied :: "(header_list proxy_step \<times> gateway) option \<Rightarrow> harness \<Rightarrow> header_list response \<times> harness" where
  "proxied (Some (Answer r, g)) (Harness _ rs token doc fs) = (r, Harness g rs token doc fs)"
| "proxied (Some (Send plan, g)) (Harness _ rs token doc fs) =
     (forward short_env record_handler plan, Harness g (rs @ [received_of plan]) token doc fs)"
| "proxied (Some (TunnelPlan plan, g)) (Harness _ rs token doc fs) =
     (relay_response (switch_handler plan), Harness g (rs @ [received_of plan]) token doc fs)"
| "proxied None h = (status_only 500, h)"

fun answered :: "header_list response \<times> gateway \<Rightarrow> harness \<Rightarrow> header_list response \<times> harness" where
  "answered (r, g) (Harness _ rs token doc fs) =
     (r, case rs_payload r of
        MintBody m \<Rightarrow> Harness g rs (mr_token m) doc fs
      | ProvisionBody d \<Rightarrow> Harness g rs token (Some d) fs
      | _ \<Rightarrow> Harness g rs token doc fs)"

text \<open>The agent: it fetches the document over the proxy's listener and writes the native configuration.\<close>

fun configured :: "header_list response \<times> harness \<Rightarrow> header_list response \<times> harness" where
  "configured (r, Harness g rs token (Some d) fs) = (r, Harness g rs token (Some d) (snd (write_configs temp_home d fs)))"
| "configured (r, Harness g rs token None fs) = (r, Harness g rs token None fs)"

fun dummy_of :: "provision_doc option \<Rightarrow> sigv4_auth option" where
  "dummy_of (Some d) = (case map ps_auth (pd_services d) of SigV4Auth a # _ \<Rightarrow> Some a | _ \<Rightarrow> None)"
| "dummy_of None = None"

fun signed_headers_of :: "signed option \<Rightarrow> (string \<times> string) list" where
  "signed_headers_of (Some sg) = [(''authorization'', sg_authorization sg), (''x-amz-date'', sg_amz_date sg),
     (''x-amz-content-sha256'', sg_content_sha256 sg)]"
| "signed_headers_of None = []"

fun perform :: "header_list env \<Rightarrow> call \<Rightarrow> harness \<Rightarrow> header_list response \<times> harness" where
  "perform E (MintCall pol tenant) (Harness g rs token doc fs) = answered (admin_router E (\<lambda>_. Inr (pol, 3600)) (\<lambda>_. Inl 400)
     (request_of ''POST'' ''/mint'' (case tenant of Some t \<Rightarrow> [(''x-hackamore-tenant'', t)] | None \<Rightarrow> []) []) test_now g)
     (Harness g rs token doc fs)"
| "perform E (RevokeCall other) (Harness g rs token doc fs) = answered (admin_router E (\<lambda>_. Inl 400)
     (\<lambda>_. Inr (case other of Some t \<Rightarrow> t | None \<Rightarrow> token)) (request_of ''POST'' ''/revoke'' [] []) test_now g) (Harness g rs token doc fs)"
| "perform E (AdminGet path) (Harness g rs token doc fs) = answered (admin_router E (\<lambda>_. Inl 400) (\<lambda>_. Inl 400)
     (request_of ''GET'' path (auth_headers AsTokenHeader token) []) test_now g) (Harness g rs token doc fs)"
| "perform E (ProxyCall meth path cred body) (Harness g rs token doc fs) =
     (if path = PROVISION_PATH
      then answered (provision_handler E (test_headers (auth_headers cred token)) test_now g) (Harness g rs token doc fs)
      else proxied (proxy_decide E (request_of meth path (auth_headers cred token) body) test_now g) (Harness g rs token doc fs))"
| "perform E (UpgradeCall path) (Harness g rs token doc fs) =
     proxied (proxy_decide E (request_of ''GET'' path ([(''connection'', ''Upgrade''), (''upgrade'', ''websocket''),
       (''sec-websocket-key'', ''dGhlIHNhbXBsZSBub25jZQ==''), (''sec-websocket-version'', ''13'')] @ auth_headers AsBearer token) []) test_now g)
       (Harness g rs token doc fs)"
| "perform E ProvisionAgent (Harness g rs token doc fs) =
     configured (answered (provision_handler E (test_headers (auth_headers AsTokenHeader token)) test_now g) (Harness g rs token doc fs))"
| "perform E (SignedCall body) (Harness g rs token doc fs) =
     proxied (proxy_decide E (request_of ''POST'' ''/'' (case dummy_of doc of None \<Rightarrow> []
       | Some a \<Rightarrow> signed_headers_of (sign E \<lparr> cr_access_key_id = sa_access_key_id a, cr_secret_access_key = sa_secret_access_key a \<rparr>
           ''us-east-1'' ''ec2'' ''POST'' PROXY_HOST ''/'' [] body test_now)) body) test_now g) (Harness g rs token doc fs)"

text \<open>Playing a script: the answers, and the harness after it.\<close>

fun resume :: "header_list response list \<times> harness \<Rightarrow> header_list response \<Rightarrow> header_list response list \<times> harness" where
  "resume (answers, h) r = (r # answers, h)"

fun play :: "header_list env \<Rightarrow> call list \<Rightarrow> harness \<Rightarrow> header_list response list \<times> harness"
  and play_rest :: "header_list env \<Rightarrow> call list \<Rightarrow> header_list response \<times> harness \<Rightarrow> header_list response list \<times> harness" where
  "play E [] h = ([], h)"
| "play E (c # cs) h = play_rest E cs (perform E c h)"
| "play_rest E cs (r, h) = resume (play E cs h) r"

section \<open>End to end\<close>

definition http_statuses :: "header_list response list \<Rightarrow> nat list" where
  "http_statuses answers = map rs_status answers"

definition mediated_paths :: "received list \<Rightarrow> (string \<times> string) list" where
  "mediated_paths rs = map (\<lambda>r. (rv_method r, rv_path r)) rs"

text \<open>The statuses of the answers, what reached the upstream, and a condition on the harness after the script.\<close>

fun outcome_is :: "nat list \<Rightarrow> (string \<times> string) list \<Rightarrow> (header_list response list \<Rightarrow> harness \<Rightarrow> bool)
   \<Rightarrow> header_list response list \<times> harness \<Rightarrow> bool" where
  "outcome_is statuses sent ok (answers, Harness g rs token doc fs) \<longleftrightarrow>
     http_statuses answers = statuses \<and> mediated_paths rs = sent \<and> ok answers (Harness g rs token doc fs)"

definition pr_to_develop_only :: policy where
  "pr_to_develop_only = \<lparr> rules = [allow_rule (empty_match\<lparr> m_verbs := [verb_crud Create],
     m_resources := [''repos/*/*/pulls''], m_conditions := [Equals ''base'' (String ''develop'')] \<rparr>)] \<rparr>"

definition pull_env :: "header_list env" where
  "pull_env = short_env\<lparr> json_from_slice := map_of
     [(''to develop'', Object [(''base'', String ''develop''), (''title'', String ''feature'')]),
      (''to main'', Object [(''base'', String ''main''), (''title'', String ''sneaky'')])] \<rparr>"

definition pr_create_gated_by_base_branch :: bool where
  "pr_create_gated_by_base_branch \<longleftrightarrow>
     outcome_is [200, 200, 403] [(''POST'', ''/repos/octocat/hello/pulls'')] (\<lambda>_ _. True)
       (play pull_env [MintCall pr_to_develop_only None,
          ProxyCall ''POST'' ''/repos/octocat/hello/pulls'' AsBearer ''to develop'',
          ProxyCall ''POST'' ''/repos/octocat/hello/pulls'' AsBearer ''to main'']
        (add_credential ''github-app'' ''real-secret-token'' start_hackamore))"

definition octocat_reads :: policy where
  "octocat_reads = \<lparr> rules = [allow_rule (empty_match\<lparr> m_verbs := [verb_crud Read], m_resources := [''repos/octocat/**''] \<rparr>)] \<rparr>"

definition path_traversal_cannot_escape_resource_scope :: bool where
  "path_traversal_cannot_escape_resource_scope \<longleftrightarrow>
     outcome_is [200, 200, 403, 403] [(''GET'', ''/repos/octocat/hello'')] (\<lambda>_ _. True)
       (play short_env [MintCall octocat_reads None,
          ProxyCall ''GET'' ''/repos/octocat/hello'' AsBearer [],
          ProxyCall ''GET'' ''/repos/octocat/../evil/secret'' AsBearer [],
          ProxyCall ''GET'' ''/repos/octocat/%2e%2e/evil/secret'' AsBearer []]
        (add_credential ''github-app'' ''real-secret-token'' start_hackamore))"

definition missing_or_invalid_token_is_unauthorized :: bool where
  "missing_or_invalid_token_is_unauthorized \<longleftrightarrow>
     outcome_is [401, 401] [] (\<lambda>_ _. True)
       (play short_env [ProxyCall ''GET'' ''/repos/octocat/hello'' NoToken [],
          ProxyCall ''GET'' ''/repos/octocat/hello'' (OtherToken ''not-a-real-token'') []]
        (add_credential ''github-app'' ''real-secret-token'' start_hackamore))"

fun revocations :: "header_list response list \<Rightarrow> bool list" where
  "revocations [] = []"
| "revocations (r # rs) = (case rs_payload r of RevokeBody b \<Rightarrow> b # revocations rs | _ \<Rightarrow> revocations rs)"

definition revoked_token_is_rejected :: bool where
  "revoked_token_is_rejected \<longleftrightarrow>
     outcome_is [200, 200, 200, 401, 200] [(''GET'', ''/repos/octocat/hello'')] (\<lambda>answers _. revocations answers = [True, False])
       (play short_env [MintCall read_only None,
          ProxyCall ''GET'' ''/repos/octocat/hello'' AsBearer [], RevokeCall None,
          ProxyCall ''GET'' ''/repos/octocat/hello'' AsBearer [], RevokeCall (Some ''never-existed'')]
        (add_credential ''github-app'' ''real-secret-token'' start_hackamore))"

definition tenant_mint_is_scoped_to_owned_targets :: bool where
  "tenant_mint_is_scoped_to_owned_targets \<longleftrightarrow>
     outcome_is [200, 403, 403, 403] [] (\<lambda>_ _. True)
       (play short_env [MintCall (target_policy ''github'') (Some ''tenant-a''), MintCall (target_policy ''openai'') (Some ''tenant-a''),
          MintCall (target_policy ''github'') None, MintCall (target_policy ''github'') (Some ''ghost'')]
        (add_tenant ''tenant-a'' [''github''] start_hackamore))"

fun provisioned_without :: "string \<Rightarrow> string \<Rightarrow> harness \<Rightarrow> bool" where
  "provisioned_without target s (Harness g rs token (Some d) fs) \<longleftrightarrow>
     pd_token d = token \<and> list_ex (\<lambda>svc. ps_target svc = target) (pd_services d) \<and> \<not> contains (render_env d) s"
| "provisioned_without target s (Harness g rs token None fs) = False"

definition provision_is_served_from_the_proxy_listener :: bool where
  "provision_is_served_from_the_proxy_listener \<longleftrightarrow>
     outcome_is [200, 200, 404, 401, 401] [] (\<lambda>_. provisioned_without ''github'' ''real-secret-token'')
       (play short_env [MintCall read_only None, ProxyCall ''GET'' PROVISION_PATH AsTokenHeader [],
          AdminGet ''/provision'', ProxyCall ''GET'' PROVISION_PATH NoToken [],
          ProxyCall ''GET'' PROVISION_PATH (OtherToken ''never-existed'') []]
        (add_credential ''github-app'' ''real-secret-token'' start_hackamore))"

fun audited_as :: "decision list \<Rightarrow> harness \<Rightarrow> bool" where
  "audited_as ds (Harness g rs token doc fs) \<longleftrightarrow> map e_decision (events_of (cp_audit (g_control g))) = ds"

definition decisions_are_audited :: bool where
  "decisions_are_audited \<longleftrightarrow>
     outcome_is [200, 200, 403] [(''GET'', ''/repos/octocat/hello'')] (\<lambda>_. audited_as [DecAllow, DecDeny])
       (play short_env [MintCall read_only None, ProxyCall ''GET'' ''/repos/octocat/hello'' AsBearer [],
          ProxyCall ''DELETE'' ''/repos/octocat/hello'' AsBearer []]
        (add_credential ''github-app'' ''real-secret-token'' start_hackamore))"

lemma e2e_tests [passed_tests]:
  "pr_create_gated_by_base_branch \<and> path_traversal_cannot_escape_resource_scope \<and>
   missing_or_invalid_token_is_unauthorized \<and> revoked_token_is_rejected"
  by code_simp

lemma e2e_provision_tests [passed_tests]:
  "tenant_mint_is_scoped_to_owned_targets \<and> provision_is_served_from_the_proxy_listener \<and>
   decisions_are_audited"
  by code_simp

section \<open>Use cases\<close>

definition use_case_service :: "string \<Rightarrow> flavor \<Rightarrow> string \<Rightarrow> service" where
  "use_case_service nm f credential = with_outbound (Bearer credential) (with_flavor f (service_new nm ''*'' UPSTREAM))"

text \<open>The file of the sandbox holds the texts and the token after a prefix; the upstream saw the real credential.\<close>

fun wrote :: "string \<Rightarrow> string list \<Rightarrow> string \<Rightarrow> harness \<Rightarrow> bool" where
  "wrote p texts pre (Harness g rs token doc fs) \<longleftrightarrow> holds fs p ((pre @ token) # texts) []"

fun authorized_upstream :: "string option list \<Rightarrow> harness \<Rightarrow> bool" where
  "authorized_upstream vs (Harness g rs token doc fs) \<longleftrightarrow> map rv_authorization rs = vs"

definition github_use_case :: bool where
  "github_use_case \<longleftrightarrow>
     outcome_is [200, 200, 200, 403] [(''GET'', ''/repos/octocat/hello'')]
       (\<lambda>_ h. wrote ''/h/.git-credentials'' [] [] h \<and> authorized_upstream [Some ''Bearer ghs-real-token''] h)
       (play short_env [MintCall octocat_reads None, ProvisionAgent,
          ProxyCall ''GET'' ''/repos/octocat/hello'' AsTokenHeader [],
          ProxyCall ''DELETE'' ''/repos/octocat/hello'' AsTokenHeader []]
        (add_credential ''github-app'' ''ghs-real-token'' (start_hackamore_services [use_case_service ''github'' Github ''github-app''])))"

definition generic_use_case :: bool where
  "generic_use_case \<longleftrightarrow>
     outcome_is [200, 200, 200] [(''POST'', ''/v1/chat/completions'')]
       (\<lambda>_ h. wrote ''/h/hackamore.env'' [] [] h \<and> authorized_upstream [Some ''Bearer sk-real-key''] h)
       (play short_env [MintCall allow_all None, ProvisionAgent,
          ProxyCall ''POST'' ''/v1/chat/completions'' AsTokenHeader ''not decoded'']
        (add_credential ''openai-key'' ''sk-real-key'' (start_hackamore_services [use_case_service ''openai'' Generic ''openai-key''])))"

definition dev_reads :: policy where
  "dev_reads = \<lparr> rules = [allow_rule (empty_match\<lparr> m_verbs := [verb_crud Read], m_resources := [''api/v1/namespaces/dev/**''] \<rparr>)] \<rparr>"

definition k8s_use_case :: bool where
  "k8s_use_case \<longleftrightarrow>
     outcome_is [200, 200, 200, 403] [(''GET'', ''/api/v1/namespaces/dev/pods'')]
       (\<lambda>_ h. wrote ''/h/.kube/config'' [''kind: Config''] ''token: '' h \<and> authorized_upstream [Some ''Bearer k8s-aws-v1.real''] h)
       (play short_env [MintCall dev_reads None, ProvisionAgent,
          ProxyCall ''GET'' ''/api/v1/namespaces/dev/pods'' AsTokenHeader [],
          ProxyCall ''GET'' ''/api/v1/namespaces/prod/pods'' AsTokenHeader []]
        (add_credential ''eks-token'' ''k8s-aws-v1.real'' (start_hackamore_services [use_case_service ''eks-prod'' K8s ''eks-token''])))"

definition describe_only :: policy where
  "describe_only = \<lparr> rules = [allow_rule (empty_match\<lparr> m_verbs := [verb_action ''DescribeInstances''] \<rparr>)] \<rparr>"

text \<open>The dummy pair reaches the sandbox and the real secret does not; the upstream is called with the real key id.\<close>

fun aws_configured :: "harness \<Rightarrow> bool" where
  "aws_configured (Harness g rs token doc fs) \<longleftrightarrow>
     holds fs ''/h/.aws/credentials'' [''aws_access_key_id = AKIAHACKAMORE''] [''real-secret-key'']
     \<and> (case (map rv_authorization rs, dummy_of doc) of
          ([Some auth], Some a) \<Rightarrow> starts_with ''AWS4-HMAC-SHA256 Credential=REALAKID/'' auth \<and> \<not> contains auth (sa_access_key_id a)
        | _ \<Rightarrow> False)"

definition aws_use_case :: bool where
  "aws_use_case \<longleftrightarrow>
     outcome_is [200, 200, 200, 403] [(''POST'', ''/'')] (\<lambda>_. aws_configured)
       (play short_env [MintCall describe_only None, ProvisionAgent,
          SignedCall ''Action=DescribeInstances&Version=2016-11-15'', SignedCall ''Action=TerminateInstances&InstanceId=i-123'']
        (add_credential ''aws-secret'' ''real-secret-key'' (start_hackamore_services
          [with_extract \<lparr> x_protocol = AwsQuery, x_path_template = None \<rparr> (with_outbound (aws_outbound ''REALAKID'')
             (service_new ''ec2'' ''*'' UPSTREAM))])))"

lemma use_case_tests [passed_tests]:
  "github_use_case \<and> generic_use_case \<and> k8s_use_case"
  by code_simp

lemma aws_use_case_test [passed_tests]: "aws_use_case"
  by code_simp

section \<open>Transports\<close>

fun streamed_event_source :: "header_list response list \<Rightarrow> bool" where
  "streamed_event_source [_, r] \<longleftrightarrow> (case rs_payload r of
      Streamed headers body \<Rightarrow> headers_get short_env headers ''content-type'' = Some ''text/event-stream''
        \<and> contains body ''data: one'' \<and> contains body ''data: three''
    | _ \<Rightarrow> False)"
| "streamed_event_source _ = False"

definition sse_stream_is_relayed :: bool where
  "sse_stream_is_relayed \<longleftrightarrow>
     outcome_is [200, 200] [(''GET'', ''/v1/stream'')] (\<lambda>answers _. streamed_event_source answers)
       (play short_env [MintCall allow_all None, ProxyCall ''GET'' ''/v1/stream'' AsBearer []]
        (add_credential ''svc-key'' ''real'' (start_hackamore_services [use_case_service ''events'' Generic ''svc-key''])))"

definition allowed_upgrade_is_tunneled_to_upstream :: bool where
  "allowed_upgrade_is_tunneled_to_upstream \<longleftrightarrow>
     outcome_is [200, 101] [(''GET'', ''/exec'')] (\<lambda>_. authorized_upstream [Some ''Bearer real''])
       (play short_env [MintCall allow_all None, UpgradeCall ''/exec'']
        (add_credential ''svc-key'' ''real'' (start_hackamore_services [use_case_service ''svc'' Generic ''svc-key''])))"

definition unrouted_host_is_denied :: bool where
  "unrouted_host_is_denied \<longleftrightarrow>
     outcome_is [200, 404] [] (\<lambda>_ _. True)
       (play short_env [MintCall allow_all None, ProxyCall ''GET'' ''/repos/o/r'' AsBearer []]
        (add_credential ''github-app'' ''real'' (start_hackamore_services
          [with_outbound (Bearer ''github-app'') (with_flavor Github (service_new ''github'' ''api.github.com'' UPSTREAM))])))"

lemma transport_tests [passed_tests]:
  "sse_stream_is_relayed \<and> allowed_upgrade_is_tunneled_to_upstream \<and> unrouted_host_is_denied"
  by code_simp

end
