(* ===== verification/Spec2Isabelle.thy ===== *)
theory Spec2Isabelle
  imports Program Secrecy AuditSinks Typing Agent TestsGateway TestsCore TestsAgent TestsEndToEnd
begin

text \<open>
  \<^bold>\<open>Hackamore in Isabelle/HOL.\<close> Hackamore is a reverse proxy through which an untrusted agent reaches
  configured HTTPS services. The agent holds a short-lived token bound to a policy, never a real
  credential. The proxy authenticates a request, routes it by its host, normalizes it to an action, asks
  the policy engine, and on an allow swaps the token for the operator's credential and forwards.

  \<^bold>\<open>Parts and interactions.\<close> The wire types (\<^verbatim>\<open>models/fluorite\<close>, \<^verbatim>\<open>models/src/lib.rs\<close>) are shared by all crates. The
  policy engine (\<^verbatim>\<open>policy/src/lib.rs\<close>) is pure. The control plane (\<^verbatim>\<open>control/src\<close>) owns the state: the table of
  tokens, the tenants, the credential vault and the audit sink. The gateway (\<^verbatim>\<open>gateway/src/core.rs\<close>) reads
  and changes that state on every operation: mint, revoke, sweep, provision, handle. The HTTP layer
  (\<^verbatim>\<open>gateway/src/server.rs\<close>, \<^verbatim>\<open>gateway/src/upgrade.rs\<close>) maps requests on two listeners to those operations. The
  command lines (\<^verbatim>\<open>cli/src\<close>, \<^verbatim>\<open>agent/src\<close>) build a gateway from a configuration, and turn a provision
  document into configuration files on the consumer's side.

  \<^bold>\<open>Theories\<close>, in the order of their dependence:
  \<^item> \<open>Prelude\<close>, \<open>RustStr\<close>, \<open>Utf8\<close>, \<open>Maps\<close>: what the source uses of Rust's standard library. Strings are lists of
    UTF-8 bytes (as \<open>char\<close>), a \<^verbatim>\<open>u64\<close> is a \<open>64 word\<close>, a \<^verbatim>\<open>HashMap\<close> or \<^verbatim>\<open>BTreeMap\<close> is an association list with
    distinct (or ordered) keys, whose laws are the locales \<open>keyed_store\<close> and \<open>shrinking_store\<close>. A function that can
    panic returns an option, \<open>None\<close> being the panic; a Rust \<^verbatim>\<open>Result\<close> is a sum with the error on the left.
  \<^item> \<open>Models\<close>: actions, policies, verdicts, audit events and provision documents, and their constructors.
  \<^item> \<open>Policy\<close>: \<^verbatim>\<open>decide\<close> and its matchers; an inductive definition of globs is the specification of the segment
    matcher, and \<open>first_match\<close> the contract shared with the host router.
  \<^item> \<open>Codec\<close>, \<open>Civil\<close>, \<open>SigV4\<close>: \<^verbatim>\<open>gateway/src/sigv4.rs\<close>, the encoders, the calendar, the canonical request, the signer, the
    header parser and the verifier; \<open>round_trip\<close> is the contract of every encoder and decoder.
  \<^item> \<open>Externals\<close>: the record of the third-party functions the gateway calls (SHA-256, HMAC, header map, JSON
    parser, random draws) as parameters, with \<open>http_laws\<close> the documented behaviour of the header map; an
    association-list instance satisfies them, and is the one the witnesses compute with.
  \<^item> \<open>Canonicalize\<close>, \<open>Service\<close>, \<open>Normalize\<close>: the files of the same names under \<^verbatim>\<open>gateway/src\<close>.
  \<^item> \<open>Tokens\<close>, \<open>Vault\<close>, \<open>Providers\<close>: the control plane. \<open>token_run\<close> and \<open>cache_step\<close> are the step relations of
    the token table and of the credential cache, with invariants by rule induction.
  \<^item> \<open>Gateway\<close>: the whole of \<^verbatim>\<open>core.rs\<close>; an operation takes the clock reading it makes and returns the changed
    gateway. \<open>Enforcement\<close> holds what is proved of \<^verbatim>\<open>handle\<close>, \<open>Minting\<close> what is proved of minting and provisioning.
  \<^item> \<open>Upgrade\<close>, \<open>Server\<close>, \<open>Tls\<close>: the HTTP layer. \<open>server_run\<close> is any interleaving of requests on the two listeners
    and ticks of the sweeper.
  \<^item> \<open>Typing\<close>: what the source's types promise (strings are UTF-8, objects are ordered) as predicates, and that the
    request path keeps them. \<open>Availability\<close>: the converse of mediation, over runs of the server; its token table
    runs the abstract table of \<open>Tokens\<close>.
  \<^item> \<open>Interleaving\<close>: concurrency. A request is the sequence of its critical sections (\<open>job_next\<close>), and \<open>interleaved\<close> is any
    schedule of the sections of any number of requests with mints, revocations, sweeps and refreshes.
  \<^item> \<open>Secrecy\<close>: noninterference of the operator's secrets, by a locale of machines that unwind (\<open>unwinding\<close>) interpreted on
    the turns of the server; \<open>server_run_turns\<close> shows the turns to be its runs.
  \<^item> \<open>AuditSinks\<close>: the three sinks of \<^verbatim>\<open>control/src/audit.rs\<close> as instances of one contract (\<open>record_log\<close>), so that the
    in-memory log the model carries stands for any of them, and the JSON-lines file under writes that stop.
  \<^item> \<open>Runtime\<close>: the code that drives sockets and timers (\<^verbatim>\<open>connect\<close>, \<^verbatim>\<open>serve\<close>, the TLS accept loop, the sweeper, the
    refresher, the relay of an upgrade with the task that joins its two connections) over what its awaits return.
  \<^item> \<open>Cli\<close>, \<open>MintCommand\<close>, \<open>Agent\<close>: the command lines; \<open>Agent\<close> works over an explicit map of files on which any path may
    be denied. \<open>Program\<close> is the whole \<^verbatim>\<open>hackamore\<close> command: a server runs only on the addresses and, when configured,
    only with the TLS material of a configuration that loaded.
  \<^item> \<open>TestsPolicy\<close>, \<open>TestsGateway\<close>, \<open>TestsSigning\<close>, \<open>TestsControl\<close>, \<open>TestsCore\<close>, \<open>TestsAgent\<close>: the repository's own unit tests.
    Each test is a closed truth value over the model, and its lemma has the kernel compute it (\<open>code_simp\<close>), so the
    definitions are checked against the expectations written beside the code, the published AWS vectors among
    them (with the digests they need tabulated). \<open>TestsEndToEnd\<close> plays the integration tests of \<^verbatim>\<open>tests/tests\<close> in the same
    way: scripts of calls against the routers, a recording upstream and the agent. Two code equations in \<open>Prelude\<close> keep word arithmetic fast.
  \<^item> This theory: the properties that join normalization, policy and forwarding.

  \<^bold>\<open>What is shown.\<close> Complete mediation: what is forwarded was authenticated, routed, canonicalized and allowed, and
  the path decided on is the path sent. Tenant isolation from the configuration file to the wire. The
  validation of a mint agrees with a declarative specification, and every stored policy has passed it in
  every reachable state of the server. Headers: the gateway's token never leaves, and the injected credential is the
  vault's. One audit event per authenticated request. Signing and verifying are inverse, also through the
  gateway's own re-signing. Noninterference: servers that differ in secret values only show the same to everybody but the
  upstream of the injected header, and keep the same log and tokens; and of the token table a request
  depends on the one entry it names. Bytes are spliced only for an allowed, logged upgrade, towards the configured
  host. Tokens live exactly until their expiry or revocation, and until then an
  allowed request is forwarded whatever else the server is asked to do. Under every interleaving of critical
  sections, requests are linearizable, tenancy holds, the allow event precedes the answer, a revocation
  reaches every later request, and no schedule blocks a request. Minted credentials never expire between two
  ticks of the refresher. No ASCII request makes the gateway panic,
  and whatever bytes a request carries, what is sent, answered and logged is well typed. Calendar, encoding, audit-log and setup/teardown round trips,
  and what a cut record costs the audit log. Canonical paths have no escape
  and are canonicalized to themselves. Some lemmas record where the code departs from its comments: the panic
  of the percent decoder on a cut multi-byte character, the lenient timestamp parser, the body that a signature does
  not bind, the key id that is accepted as a bearer token, the static secret that shadows a provider,
  the files a teardown forgets, the provisioning that outlives a revocation, the accept error that ends the server, the cut audit record that takes the next one with it, and the \<^verbatim>\<open>mint\<close> subcommand that cannot
  name a tenant.

  \<^bold>\<open>Bounds and termination.\<close> No fuel is used: loops are structural recursions or recursions on a length with a
  \<^verbatim>\<open>termination\<close> proof. Words wrap, saturate or divide as the source's operators do; the calendar's \<^verbatim>\<open>i64\<close>
  arithmetic is written over integers, whose values stay far inside 64 bits for every \<^verbatim>\<open>u64\<close> of milliseconds.

  \<^bold>\<open>Not modelled.\<close> Sockets, the TLS protocol and tokio's copy of bytes in a tunnel (a parameter); the timers (a task is a function of the clock
  readings of its ticks); the locks themselves (a section of \<open>Interleaving\<close> is what runs under one; a gateway operation is
  one step of \<open>server_run\<close>, which \<open>handle_alone\<close> and \<open>provision_alone\<close> justify as particular schedules); log output; argument
  parsers; the generated serializers; of the tests, those of serializers, of RSA keys and of TLS certificates, and
  the integration tests over TLS and against a mock GitHub. Cryptography, base64, JSON, header maps and HTTP exchanges are parameters.
\<close>

section \<open>What is decided is what is forwarded\<close>



section \<open>RPC services fail closed\<close>

text \<open>The operation that an RPC request names, per protocol.\<close>

definition operation_requested :: "'h env \<Rightarrow> service \<Rightarrow> 'h proxy_request \<Rightarrow> string \<Rightarrow> bool" where
  "operation_requested E svc req opn \<longleftrightarrow>
     (case x_protocol (s_extract svc) of
        Rest \<Rightarrow> False
      | AwsQuery \<Rightarrow> (\<exists>kvs. (parse_query (q_body req) = Some kvs \<or> parse_query (q_query req) = Some kvs)
          \<and> (''Action'', opn) \<in> set kvs)
      | AwsJson \<Rightarrow> (\<exists>t. Option.bind (headers_get E (q_headers req) ''x-amz-target'') (value_to_str E) = Some t
          \<and> t \<noteq> [] \<and> opn = after_last_dot t))"

text \<open>Every allow rule lists verbs, and none lists the verb of an unparsed request.\<close>

definition names_verbs :: "policy \<Rightarrow> bool" where
  "names_verbs pol \<longleftrightarrow>
     list_all (\<lambda>r. effect r = EDeny \<or> m_verbs (matches r) \<noteq> [] \<and> NamedAction UNPARSED \<notin> set (m_verbs (matches r))) (rules pol)"

lemma find_action_mem: "find_action kvs = Some v \<Longrightarrow> (''Action'', v) \<in> set kvs"
  by (auto simp: find_action_def map_option_Some_iff dest!: find_SomeD)

lemma aws_query_verb:
  assumes "aws_query_action req = Some v"
  shows "v = NamedAction UNPARSED \<or> (\<exists>opn kvs. v = NamedAction opn
    \<and> (parse_query (q_body req) = Some kvs \<or> parse_query (q_query req) = Some kvs) \<and> (''Action'', opn) \<in> set kvs)"
proof -
  obtain x where x: "(case from_utf8 (q_body req) of Some b \<Rightarrow> map_option find_action (parse_query b) | None \<Rightarrow> Some None) = Some x"
    using assms by (auto simp: aws_query_action_def bind_Some_iff)
  obtain y where y: "(case x of Some v \<Rightarrow> Some (Some v) | None \<Rightarrow> map_option find_action (parse_query (q_query req))) = Some y"
    and v: "v = (case y of Some v \<Rightarrow> if v \<noteq> [] then verb_action v else verb_action UNPARSED | None \<Rightarrow> verb_action UNPARSED)"
    using assms x by (auto simp: aws_query_action_def bind_Some_iff)
  have "(\<exists>kvs. (parse_query (q_body req) = Some kvs \<or> parse_query (q_query req) = Some kvs) \<and> (''Action'', opn) \<in> set kvs)"
    if opn: "y = Some opn" for opn
  proof (cases x)
    case None
    with y opn show ?thesis by (auto simp: map_option_Some_iff dest: find_action_mem)
  next
    case (Some w)
    with y opn x show ?thesis
      by (auto simp: map_option_Some_iff from_utf8_def dest: find_action_mem split: option.splits if_splits)
  qed
  with v show ?thesis by (cases y) (auto simp: verb_action_def)
qed



end
